(* ===== verification/GK_Prelude.thy ===== *)
theory GK_Prelude
  imports Main "HOL-Library.Word" "HOL-Library.Sublist"
begin

text \<open>
  Shared vocabulary of the development: Rust's \<open>Result\<close> as a sum with the error on the left,
  the \<open>?\<close> operator as a bind, bytes and the big- and little-endian readings of byte slices, checked
  64-bit arithmetic, reading a fixed number of bytes from a stream, and the list lemmas the
  components use.  The two collections \<open>result_simps\<close> and \<open>byte_simps\<close> carry the component proofs.
\<close>

named_theorems result_simps \<open>equations for results and the question-mark operator\<close>
named_theorems byte_simps \<open>equations for byte slices and endian conversions\<close>

type_synonym byte = "8 word"
type_synonym u8 = "8 word"
type_synonym u16 = "16 word"
type_synonym u32 = "32 word"
type_synonym u64 = "64 word"
type_synonym ('e, 'a) result = "'e + 'a"

subsection \<open>Results\<close>

definition rbind :: "('e, 'a) result \<Rightarrow> ('a \<Rightarrow> ('e, 'b) result) \<Rightarrow> ('e, 'b) result" where
  "rbind r f = (case r of Inl e \<Rightarrow> Inl e | Inr x \<Rightarrow> f x)"

definition guard :: "bool \<Rightarrow> 'e \<Rightarrow> ('e, unit) result" where
  "guard b e = (if b then Inr () else Inl e)"

definition is_ok :: "('e, 'a) result \<Rightarrow> bool" where
  "is_ok r = (case r of Inl _ \<Rightarrow> False | Inr _ \<Rightarrow> True)"

lemma rbind_Inl [simp, result_simps]: "rbind (Inl e) f = Inl e"
  by (simp add: rbind_def)

lemma rbind_Inr [simp, result_simps]: "rbind (Inr x) f = f x"
  by (simp add: rbind_def)

lemma rbind_eq_Inr [result_simps]:
  "rbind r f = Inr y \<longleftrightarrow> (\<exists>x. r = Inr x \<and> f x = Inr y)"
  by (cases r) auto

lemma rbind_eq_Inl [result_simps]:
  "rbind r f = Inl e \<longleftrightarrow> r = Inl e \<or> (\<exists>x. r = Inr x \<and> f x = Inl e)"
  by (cases r) auto

lemma guard_eq_Inr [simp, result_simps]: "guard b e = Inr u \<longleftrightarrow> b"
  by (simp add: guard_def)

lemma guard_eq_Inl [simp, result_simps]: "guard b e = Inl e' \<longleftrightarrow> \<not> b \<and> e' = e"
  by (auto simp: guard_def)

lemma is_ok_simps [simp, result_simps]: "is_ok (Inl e) = False" "is_ok (Inr x) = True"
  by (simp_all add: is_ok_def)

lemma is_ok_iff: "is_ok r \<longleftrightarrow> (\<exists>x. r = Inr x)"
  by (cases r) auto

subsection \<open>Bytes and endian conversions\<close>

text \<open>The value of a little-endian slice, and the \<open>n\<close> low bytes of a number.\<close>

fun le_nat :: "byte list \<Rightarrow> nat" where
  "le_nat [] = 0"
| "le_nat (b # bs) = unat b + 256 * le_nat bs"

fun le_bytes :: "nat \<Rightarrow> nat \<Rightarrow> byte list" where
  "le_bytes 0 k = []"
| "le_bytes (Suc n) k = word_of_nat (k mod 256) # le_bytes n (k div 256)"

lemma le_bytes_numeral [simp]:
  "le_bytes (numeral v) k = word_of_nat (k mod 256) # le_bytes (pred_numeral v) (k div 256)"
  by (simp only: numeral_eq_Suc [of v] le_bytes.simps)

definition be_nat :: "byte list \<Rightarrow> nat" where
  "be_nat bs = le_nat (rev bs)"

definition be_bytes :: "nat \<Rightarrow> nat \<Rightarrow> byte list" where
  "be_bytes n k = rev (le_bytes n k)"

lemma unat_byte_less [simp]: "unat (b :: byte) < 256"
  using unsigned_less [of b] by simp

lemma length_le_bytes [simp, byte_simps]: "length (le_bytes n k) = n"
  by (induction n k rule: le_bytes.induct) auto

lemma length_be_bytes [simp, byte_simps]: "length (be_bytes n k) = n"
  by (simp add: be_bytes_def)

lemma unat_of_byte_mod [simp, byte_simps]: "unat (word_of_nat (k mod 256) :: byte) = k mod 256"
  by (simp add: unat_of_nat)

lemma le_nat_less: "le_nat bs < 256 ^ length bs"
proof (induction bs)
  case (Cons b bs)
  have "unat b + 256 * le_nat bs < 256 * Suc (le_nat bs)"
    using unat_byte_less [of b] by simp
  also have "\<dots> \<le> 256 * 256 ^ length bs"
    using Cons.IH by (intro mult_le_mono) auto
  finally show ?case by simp
qed simp

lemma le_nat_le_bytes [byte_simps]: "le_nat (le_bytes n k) = k mod 256 ^ n"
proof (induction n k rule: le_bytes.induct)
  case (2 n k)
  then show ?case by (simp add: mod_mult2_eq algebra_simps)
qed simp

lemma le_bytes_le_nat [byte_simps]: "le_bytes (length bs) (le_nat bs) = bs"
proof (induction bs)
  case (Cons b bs)
  have "(unat b + 256 * le_nat bs) div 256 = le_nat bs"
    using unat_byte_less [of b] by simp
  moreover have "(unat b + 256 * le_nat bs) mod 256 = unat b"
    using unat_byte_less [of b] by simp
  ultimately show ?case using Cons.IH by simp
qed simp

lemma be_nat_be_bytes [byte_simps]: "be_nat (be_bytes n k) = k mod 256 ^ n"
  by (simp add: be_nat_def be_bytes_def le_nat_le_bytes)

lemma be_bytes_be_nat [byte_simps]: "be_bytes (length bs) (be_nat bs) = bs"
  using le_bytes_le_nat [of "rev bs"] by (simp add: be_bytes_def be_nat_def)

lemma be_nat_less: "be_nat bs < 256 ^ length bs"
  using le_nat_less [of "rev bs"] by (simp add: be_nat_def)

subsection \<open>Streams\<close>

text \<open>\<open>Read::read_exact\<close>: either the requested bytes and the rest of the stream, or end of file.\<close>

definition read_exact :: "nat \<Rightarrow> byte list \<Rightarrow> (byte list \<times> byte list) option" where
  "read_exact n s = (if n \<le> length s then Some (take n s, drop n s) else None)"

lemma read_exact_append [simp]: "length bs = n \<Longrightarrow> read_exact n (bs @ s) = Some (bs, s)"
  by (simp add: read_exact_def)

lemma read_exact_SomeE:
  assumes "read_exact n s = Some (bs, r)"
  obtains "s = bs @ r" "length bs = n"
  using assms by (auto simp: read_exact_def split: if_splits)

subsection \<open>Lists\<close>

text \<open>The last \<open>n\<close> elements of a list, oldest first.\<close>

definition take_last :: "nat \<Rightarrow> 'a list \<Rightarrow> 'a list" where
  "take_last n xs = drop (length xs - n) xs"

lemma length_take_last [simp]: "length (take_last n xs) = min n (length xs)"
  by (auto simp: take_last_def)

lemma take_last_all [simp]: "length xs \<le> n \<Longrightarrow> take_last n xs = xs"
  by (simp add: take_last_def)

lemma take_last_take_last_append:
  "take_last n (take_last n xs @ ys) = take_last n (xs @ ys)"
  by (cases "length xs \<le> n") (auto simp: take_last_def add.commute)

lemma take_last_snoc: "0 < n \<Longrightarrow> take_last n (xs @ [x]) = take_last (n - 1) xs @ [x]"
  by (auto simp: take_last_def)

lemma take_last_eq_Nil [simp]: "take_last n xs = [] \<longleftrightarrow> n = 0 \<or> xs = []"
  by (cases xs) (auto simp: take_last_def)

lemma last_take_last [simp]: "0 < n \<Longrightarrow> xs \<noteq> [] \<Longrightarrow> last (take_last n xs) = last xs"
  by (cases xs) (simp_all add: take_last_def last_drop)

lemma set_take_last: "set (take_last n xs) \<subseteq> set xs"
  by (auto simp: take_last_def dest: in_set_dropD)

subsection \<open>Decimal printing\<close>

text \<open>\<open>Display\<close> of an unsigned integer.\<close>

fun show_nat :: "nat \<Rightarrow> string" where
  "show_nat n = (if n < 10 then [char_of (48 + n)] else show_nat (n div 10) @ [char_of (48 + n mod 10)])"

declare show_nat.simps [simp del]

lemma show_nat_ne [simp]: "show_nat n \<noteq> []"
  by (subst show_nat.simps) simp

subsection \<open>Strings\<close>

text \<open>Strings are UTF-8 byte sequences.  \<open>str::split\<close> with a character: as many parts as there are
  separators, plus one.\<close>

fun split_on :: "char \<Rightarrow> string \<Rightarrow> string list" where
  "split_on c [] = [[]]"
| "split_on c (x # xs) =
     (if x = c then [] # split_on c xs
      else (case split_on c xs of [] \<Rightarrow> [[x]] | p # ps \<Rightarrow> (x # p) # ps))"

definition show_int :: "int \<Rightarrow> string" where
  "show_int i = (if i < 0 then CHR ''-'' # show_nat (nat (- i)) else show_nat (nat i))"

definition starts_with :: "string \<Rightarrow> string \<Rightarrow> bool" where
  "starts_with s p = prefix p s"

definition strip_prefix :: "string \<Rightarrow> string \<Rightarrow> string option" where
  "strip_prefix p s = (if starts_with s p then Some (drop (length p) s) else None)"

definition ends_with :: "string \<Rightarrow> string \<Rightarrow> bool" where
  "ends_with s p = suffix p s"

definition ascii_lower :: "char \<Rightarrow> char" where
  "ascii_lower c = (let k = (of_char c :: nat) in if 65 \<le> k \<and> k \<le> 90 then char_of (k + 32) else c)"

definition eq_ignore_ascii_case :: "string \<Rightarrow> string \<Rightarrow> bool" where
  "eq_ignore_ascii_case s t \<longleftrightarrow> map ascii_lower s = map ascii_lower t"

definition is_digit :: "char \<Rightarrow> bool" where
  "is_digit c \<longleftrightarrow> 48 \<le> (of_char c :: nat) \<and> of_char c \<le> (57 :: nat)"

definition digits_value :: "string \<Rightarrow> nat" where
  "digits_value ds = foldl (\<lambda>n c. 10 * n + (of_char c - 48)) 0 ds"

definition contains :: "string \<Rightarrow> string \<Rightarrow> bool" where
  "contains s p = sublist p s"

lemma split_on_ne [simp]: "split_on c s \<noteq> []"
  by (induction c s rule: split_on.induct) (auto split: list.splits)

lemma length_split_on: "length (split_on c s) = Suc (count_list s c)"
  by (induction c s rule: split_on.induct) (auto split: list.splits)

text \<open>A string in single quotes, for messages.\<close>

definition quoted :: "string \<Rightarrow> string" where
  "quoted s = CHR 0x27 # s @ [CHR 0x27]"

text \<open>Joining the parts with the separator gives the string back.\<close>

fun join :: "string \<Rightarrow> string list \<Rightarrow> string" where
  "join sep [] = []"
| "join sep [p] = p"
| "join sep (p # q # ps) = p @ sep @ join sep (q # ps)"

lemma join_split_on: "join [c] (split_on c s) = s"
proof (induction c s rule: split_on.induct)
  case (2 c x xs)
  obtain p ps where "split_on c xs = p # ps" by (cases "split_on c xs") auto
  with 2 show ?case by (cases ps) auto
qed simp

lemma split_on_append: "c \<notin> set p \<Longrightarrow> split_on c (p @ c # s) = p # split_on c s"
  by (induction p) auto

lemma split_on_all: "c \<notin> set p \<Longrightarrow> split_on c p = [p]"
  by (induction p) auto

lemma split_on_join:
  assumes "is \<noteq> []" "\<forall>i \<in> set is. c \<notin> set i"
  shows "split_on c (join [c] is) = is"
  using assms
proof (induction "[c]" "is" rule: join.induct)
  case (3 p q ps)
  then show ?case by (simp add: split_on_append)
qed (simp_all add: split_on_all)

text \<open>Lower-case hexadecimal, as \<open>hex::encode\<close> and the executor's own \<open>hex_encode\<close> write it.\<close>

definition HEX :: string where
  "HEX = ''0123456789abcdef''"

definition hex_encode :: "byte list \<Rightarrow> string" where
  "hex_encode bs = concat (map (\<lambda>b. [HEX ! (unat b div 16), HEX ! (unat b mod 16)]) bs)"

end
