(* ===== verification/Agent_Error.thy ===== *)
theory Agent_Error
  imports GK_Prelude
begin

text \<open>
  The protocol errors of \<^verbatim>\<open>crates/guestkit-agent-protocol/src/error.rs\<close>: the JSON-RPC error codes
  with their discriminants, the error type every protocol function returns and the mapping of an
  error to its code and its text.  \<open>std::io::Error\<close> is represented by its text and the one
  distinction the code makes of it, whether its kind is \<open>UnexpectedEof\<close>.
\<close>

datatype rpc_error_code =
    ParseError
  | InvalidRequestCode
  | MethodNotFoundCode
  | InvalidParamsCode
  | InternalError
  | NotImplementedCode
  | CapabilityDeniedCode
  | PlanApplyFailed
  | RequestExpiredCode
  | ReplayDetectedCode
  | PolicyDeniedCode

fun as_i32 :: "rpc_error_code \<Rightarrow> int" where
  "as_i32 ParseError = - 32700"
| "as_i32 InvalidRequestCode = - 32600"
| "as_i32 MethodNotFoundCode = - 32601"
| "as_i32 InvalidParamsCode = - 32602"
| "as_i32 InternalError = - 32603"
| "as_i32 NotImplementedCode = - 32000"
| "as_i32 CapabilityDeniedCode = - 32001"
| "as_i32 PlanApplyFailed = - 32002"
| "as_i32 RequestExpiredCode = - 32003"
| "as_i32 ReplayDetectedCode = - 32004"
| "as_i32 PolicyDeniedCode = - 32005"

datatype io_error = UnexpectedEof string | OtherIo string

text \<open>The two errors of kind \<open>UnexpectedEof\<close> the protocol meets: that of \<open>read_exact\<close> on a short
  stream, and the one \<open>read_line\<close> makes from the kind alone.\<close>

abbreviation short_read :: io_error where
  "short_read \<equiv> UnexpectedEof ''failed to fill whole buffer''"

abbreviation end_of_file :: io_error where
  "end_of_file \<equiv> UnexpectedEof ''unexpected end of file''"

datatype agent_error =
    Parse string
  | InvalidRequest string
  | MethodNotFound string
  | InvalidParams string
  | Internal string
  | NotImplemented string
  | CapabilityDenied string
  | RequestExpired string
  | ReplayDetected string
  | PolicyDenied string
  | Io io_error

fun rpc_code :: "agent_error \<Rightarrow> rpc_error_code" where
  "rpc_code (Parse _) = ParseError"
| "rpc_code (InvalidRequest _) = InvalidRequestCode"
| "rpc_code (MethodNotFound _) = MethodNotFoundCode"
| "rpc_code (InvalidParams _) = InvalidParamsCode"
| "rpc_code (Internal _) = InternalError"
| "rpc_code (NotImplemented _) = NotImplementedCode"
| "rpc_code (CapabilityDenied _) = CapabilityDeniedCode"
| "rpc_code (RequestExpired _) = RequestExpiredCode"
| "rpc_code (ReplayDetected _) = ReplayDetectedCode"
| "rpc_code (PolicyDenied _) = PolicyDeniedCode"
| "rpc_code (Io e) = (case e of UnexpectedEof _ \<Rightarrow> ParseError | OtherIo _ \<Rightarrow> InternalError)"

text \<open>The \<open>Display\<close> texts.\<close>

fun io_display :: "io_error \<Rightarrow> string" where
  "io_display (UnexpectedEof s) = s"
| "io_display (OtherIo s) = s"

fun message :: "agent_error \<Rightarrow> string" where
  "message (Parse s) = ''JSON parse error: '' @ s"
| "message (InvalidRequest s) = ''invalid request: '' @ s"
| "message (MethodNotFound s) = ''method not found: '' @ s"
| "message (InvalidParams s) = ''invalid params: '' @ s"
| "message (Internal s) = ''internal error: '' @ s"
| "message (NotImplemented s) = ''not implemented: '' @ s"
| "message (CapabilityDenied s) = ''capability denied: '' @ s"
| "message (RequestExpired s) = ''request expired: '' @ s"
| "message (ReplayDetected s) = ''replay detected: '' @ s"
| "message (PolicyDenied s) = ''policy denied: '' @ s"
| "message (Io e) = ''I/O error: '' @ io_display e"

text \<open>A code received on the wire determines the enum variant it was sent as.\<close>

lemma as_i32_inj: "as_i32 c = as_i32 d \<longleftrightarrow> c = d"
  by (cases c; cases d) simp_all

end
