(* ===== verification/Frame.thy ===== *)
theory Frame
  imports Agent_Error
begin

text \<open>
  Message framing, \<^verbatim>\<open>crates/guestkit-agent-protocol/src/frame.rs\<close>.

  A reader is the list of bytes still to come for \<open>read_frame\<close>, which asks for exact byte counts
  only.  \<open>read_line\<close> runs over a \<open>BufRead\<close>: \<open>bufreader\<close> is the standard library's \<open>BufReader\<close>, a
  buffer over a source that hands out bytes in chunks, one chunk of at most 8192 bytes per \<open>read\<close>;
  an in-memory cursor is the case of a buffer holding everything over an exhausted source.  A
  writer is a \<open>sink\<close>: what \<open>write_all\<close> and \<open>flush\<close> do to its state, with \<open>None\<close> the I/O error.
  The interface \<open>framed_codec\<close> is what the transports rely on; all three encodings interpret it.
\<close>

definition MAX_FRAME_SIZE :: u32 where
  "MAX_FRAME_SIZE = 16 * 1024 * 1024"

record 'w sink =
  sk_write :: "'w \<Rightarrow> byte list \<Rightarrow> 'w option"
  sk_flush :: "'w \<Rightarrow> 'w option"

definition vec_sink :: "byte list sink" where
  "vec_sink = \<lparr>sk_write = (\<lambda>w bs. Some (w @ bs)), sk_flush = Some\<rparr>"

definition io_write :: "'w sink \<Rightarrow> 'w \<Rightarrow> byte list \<Rightarrow> (agent_error, 'w) result" where
  "io_write sk w bs =
     (case sk_write sk w bs of None \<Rightarrow> Inl (Io (OtherIo ''write'')) | Some w' \<Rightarrow> Inr w')"

definition io_flush :: "'w sink \<Rightarrow> 'w \<Rightarrow> (agent_error, 'w) result" where
  "io_flush sk w =
     (case sk_flush sk w of None \<Rightarrow> Inl (Io (OtherIo ''flush'')) | Some w' \<Rightarrow> Inr w')"

subsection \<open>Length-prefixed frames\<close>

fun read_frame :: "byte list \<Rightarrow> (agent_error, byte list) result \<times> byte list" where
  "read_frame [] = (Inl (Io short_read), [])"
| "read_frame (first # s) =
     (if first = 0xFF then read_frame s
      else case read_exact 3 s of
        None \<Rightarrow> (Inl (Io short_read), [])
      | Some (len_rest, s') \<Rightarrow>
          (let len = (word_of_nat (be_nat (first # len_rest)) :: u32) in
           if len = 0 then (Inl (InvalidRequest ''empty frame''), s')
           else if len > MAX_FRAME_SIZE then
             (Inl (InvalidRequest (''frame too large: '' @ show_nat (unat len) @ '' bytes (max ''
                @ show_nat (unat MAX_FRAME_SIZE) @ '')'')), s')
           else case read_exact (unat len) s' of
               None \<Rightarrow> (Inl (Io short_read), [])
             | Some (buf, s'') \<Rightarrow> (Inr buf, s'')))"

definition write_frame :: "'w sink \<Rightarrow> 'w \<Rightarrow> byte list \<Rightarrow> (agent_error, 'w) result" where
  "write_frame sk w payload =
     (if payload = [] then Inl (InvalidRequest ''empty payload'')
      else if (word_of_nat (length payload) :: u32) > MAX_FRAME_SIZE then
        Inl (InvalidRequest (''payload too large: '' @ show_nat (length payload) @ '' bytes''))
      else rbind (io_write sk w (be_bytes 4 (unat (word_of_nat (length payload) :: u32)))) (\<lambda>w1.
           rbind (io_write sk w1 payload) (\<lambda>w2. io_flush sk w2)))"

subsection \<open>Lines\<close>

text \<open>One \<open>read\<close> of the source into \<open>BufReader\<close>'s 8 KiB buffer; no bytes is end of file.\<close>

fun src_read :: "byte list list \<Rightarrow> byte list \<times> byte list list" where
  "src_read [] = ([], [])"
| "src_read (c # cs) = (if length c \<le> 8192 then (c, cs) else (take 8192 c, drop 8192 c # cs))"

record bufreader =
  br_buf :: "byte list"
  br_src :: "byte list list"

definition br_bytes :: "bufreader \<Rightarrow> byte list" where
  "br_bytes r = br_buf r @ concat (br_src r)"

definition fill_buf :: "bufreader \<Rightarrow> bufreader" where
  "fill_buf r = (if br_buf r = [] then
      (case src_read (br_src r) of (b, s) \<Rightarrow> \<lparr>br_buf = b, br_src = s\<rparr>) else r)"

lemma src_read_bytes: "src_read cs = (b, cs') \<Longrightarrow> b @ concat cs' = concat cs"
  by (cases cs) (auto split: if_splits)

lemma fill_buf_bytes [simp]: "br_bytes (fill_buf r) = br_bytes r"
  by (auto simp: fill_buf_def br_bytes_def split: prod.splits dest: src_read_bytes)

text \<open>\<open>read_until(b'\n')\<close>: bytes up to and including the first newline, or all there are.\<close>

function read_until :: "bufreader \<Rightarrow> byte list \<times> bufreader" where
  "read_until r =
     (let r' = fill_buf r; buf = br_buf r'; l = takeWhile (\<lambda>b. b \<noteq> 10) buf in
      if buf = [] then ([], r')
      else if length l < length buf then
        (l @ [10], r'\<lparr>br_buf := drop (Suc (length l)) buf\<rparr>)
      else (case read_until (r'\<lparr>br_buf := []\<rparr>) of (l', r'') \<Rightarrow> (buf @ l', r'')))"
  by pat_completeness auto
termination
proof (relation "measure (\<lambda>r. length (br_bytes r))", goal_cases)
  case (2 r r' buf l)
  then have "length (br_bytes r) = length buf + length (concat (br_src r'))"
    using arg_cong [OF fill_buf_bytes [of r], of length] by (simp add: br_bytes_def)
  with 2 show ?case by (simp add: br_bytes_def)
qed simp

declare read_until.simps [simp del]

definition strip_line :: "byte list \<Rightarrow> byte list" where
  "strip_line line =
     (let l1 = dropWhile (\<lambda>b. b = 0xFF) line;
          l2 = (if l1 \<noteq> [] \<and> last l1 = 10 then butlast l1 else l1)
      in if l2 \<noteq> [] \<and> last l2 = 13 then butlast l2 else l2)"

text \<open>The three ways a call goes, as rewrite rules that do not unfold the recursion.\<close>

lemma read_until_eof: "br_buf (fill_buf r) = [] \<Longrightarrow> read_until r = ([], fill_buf r)"
  by (subst read_until.simps) simp

lemma read_until_found:
  assumes "br_buf (fill_buf r) = l @ 10 # t" "10 \<notin> set l"
  shows "read_until r = (l @ [10], (fill_buf r)\<lparr>br_buf := t\<rparr>)"
proof -
  have "takeWhile (\<lambda>b. b \<noteq> 10) (l @ 10 # t) = l"
    using assms(2) by (induction l) auto
  with assms(1) show ?thesis by (subst read_until.simps) (simp add: Let_def)
qed

lemma read_until_more:
  assumes "br_buf (fill_buf r) \<noteq> []" "10 \<notin> set (br_buf (fill_buf r))"
  shows "read_until r = (case read_until ((fill_buf r)\<lparr>br_buf := []\<rparr>) of
      (l, r') \<Rightarrow> (br_buf (fill_buf r) @ l, r'))"
proof -
  have "takeWhile (\<lambda>b. b \<noteq> 10) (br_buf (fill_buf r)) = br_buf (fill_buf r)"
    using assms(2) by (simp only: takeWhile_eq_all_conv) metis
  with assms(1) show ?thesis
    by (subst read_until.simps) (simp only: Let_def if_False less_irrefl)
qed

lemma read_until_cases [case_names eof found more]:
  obtains "br_buf (fill_buf r) = []" "read_until r = ([], fill_buf r)"
  | l t where "br_buf (fill_buf r) = l @ 10 # t" "10 \<notin> set l"
      "read_until r = (l @ [10], (fill_buf r)\<lparr>br_buf := t\<rparr>)"
  | l r' where "br_buf (fill_buf r) \<noteq> []" "10 \<notin> set (br_buf (fill_buf r))"
      "read_until ((fill_buf r)\<lparr>br_buf := []\<rparr>) = (l, r')"
      "read_until r = (br_buf (fill_buf r) @ l, r')"
proof (cases "10 \<in> set (br_buf (fill_buf r))")
  case True
  then obtain l t where "br_buf (fill_buf r) = l @ 10 # t" "10 \<notin> set l"
    by (meson split_list_first)
  then show ?thesis using read_until_found that(2) by blast
next
  case False
  obtain l r' where l: "read_until ((fill_buf r)\<lparr>br_buf := []\<rparr>) = (l, r')" by fastforce
  show ?thesis
  proof (cases "br_buf (fill_buf r) = []")
    case True
    then show ?thesis using that(1) read_until_eof by blast
  next
    case ne: False
    then show ?thesis
      by (rule that(3) [OF _ False l]) (simp only: read_until_more [OF ne False] l prod.case)
  qed
qed

lemma br_bytes_fill: "br_bytes r = br_buf (fill_buf r) @ concat (br_src (fill_buf r))"
  using fill_buf_bytes [of r] by (simp add: br_bytes_def)

lemma read_until_induct [case_names eof found more]:
  assumes "\<And>r. br_buf (fill_buf r) = [] \<Longrightarrow> P r [] (fill_buf r)"
    and "\<And>r l t. br_buf (fill_buf r) = l @ 10 # t \<Longrightarrow> 10 \<notin> set l \<Longrightarrow>
      P r (l @ [10]) ((fill_buf r)\<lparr>br_buf := t\<rparr>)"
    and "\<And>r l r'. br_buf (fill_buf r) \<noteq> [] \<Longrightarrow> 10 \<notin> set (br_buf (fill_buf r)) \<Longrightarrow>
      P ((fill_buf r)\<lparr>br_buf := []\<rparr>) l r' \<Longrightarrow> P r (br_buf (fill_buf r) @ l) r'"
  shows "P r (fst (read_until r)) (snd (read_until r))"
proof (induction "length (br_bytes r)" arbitrary: r rule: less_induct)
  case less
  show ?case
  proof (cases rule: read_until_cases [of r])
    case (more l r')
    have "length (br_bytes ((fill_buf r)\<lparr>br_buf := []\<rparr>)) < length (br_bytes r)"
      using more(1) unfolding br_bytes_fill [of r] by (simp add: br_bytes_def)
    then have "P ((fill_buf r)\<lparr>br_buf := []\<rparr>) l r'" using less more(3) by fastforce
    then show ?thesis using assms(3) more by simp
  qed (use assms(1,2) in simp_all)
qed

lemma read_until_bytes': "fst (read_until r) @ br_bytes (snd (read_until r)) = br_bytes r"
proof (induction rule: read_until_induct)
  case (eof r)
  then show ?case by simp
next
  case (found r l t)
  then show ?case unfolding br_bytes_fill [of r] by (simp add: br_bytes_def)
next
  case (more r l r')
  then show ?case unfolding br_bytes_fill [of r] by (simp add: br_bytes_def)
qed

lemma read_until_bytes: "read_until r = (l, r') \<Longrightarrow> l @ br_bytes r' = br_bytes r"
  using read_until_bytes' [of r] by simp

function read_line :: "bufreader \<Rightarrow> (agent_error, byte list) result \<times> bufreader" where
  "read_line r =
     (case read_until r of (line, r') \<Rightarrow>
        if line = [] then (Inl (Io end_of_file), r')
        else if strip_line line \<noteq> [] then (Inr (strip_line line), r')
        else read_line r')"
  by pat_completeness auto
termination
proof (relation "measure (\<lambda>r. length (br_bytes r))", goal_cases)
  case (2 r line r')
  then have "line @ br_bytes r' = br_bytes r" using read_until_bytes by simp
  then have "length line + length (br_bytes r') = length (br_bytes r)"
    by (metis length_append)
  moreover have "0 < length line" using 2 by simp
  ultimately have "length (br_bytes r') < length (br_bytes r)" by linarith
  then show ?case by simp
qed simp

declare read_line.simps [simp del]

definition write_line :: "'w sink \<Rightarrow> 'w \<Rightarrow> byte list \<Rightarrow> (agent_error, 'w) result" where
  "write_line sk w payload =
     (if payload = [] then Inl (InvalidRequest ''empty payload'')
      else rbind (io_write sk w payload) (\<lambda>w1.
           rbind (if last payload = 10 then Inr w1 else io_write sk w1 [10]) (\<lambda>w2.
           io_flush sk w2)))"

definition write_delimited_line :: "'w sink \<Rightarrow> 'w \<Rightarrow> byte list \<Rightarrow> (agent_error, 'w) result" where
  "write_delimited_line sk w payload =
     rbind (io_write sk w [0xFF]) (\<lambda>w1. write_line sk w1 payload)"

subsection \<open>Reading lines depends on the bytes only\<close>

text \<open>Without empty reads before the end of the stream, the chunking of the source is invisible
  in the line that is returned.\<close>

definition br_ok :: "bufreader \<Rightarrow> bool" where
  "br_ok r \<longleftrightarrow> [] \<notin> set (br_src r)"

definition first_line :: "byte list \<Rightarrow> byte list" where
  "first_line s = (if 10 \<in> set s then takeWhile (\<lambda>b. b \<noteq> 10) s @ [10] else s)"

lemma src_read_ok: "src_read cs = (b, cs') \<Longrightarrow> [] \<notin> set cs \<Longrightarrow> [] \<notin> set cs'"
  by (cases cs) (auto split: if_splits)

lemma src_read_nil: "src_read cs = ([], cs') \<Longrightarrow> [] \<notin> set cs \<Longrightarrow> cs = [] \<and> cs' = []"
  by (cases cs) (auto split: if_splits)

lemma br_ok_fill_buf: "br_ok r \<Longrightarrow> br_ok (fill_buf r)"
  by (auto simp: br_ok_def fill_buf_def split: prod.splits dest: src_read_ok)

lemma fill_buf_nil: "br_ok r \<Longrightarrow> br_buf (fill_buf r) = [] \<Longrightarrow> br_bytes r = []"
  by (auto simp: br_ok_def fill_buf_def br_bytes_def split: prod.splits if_splits dest: src_read_nil)

lemma first_line_append_notin: "10 \<notin> set xs \<Longrightarrow> first_line (xs @ ys) = xs @ first_line ys"
  by (induction xs) (auto simp: first_line_def)

lemma first_line_append_in: "10 \<in> set xs \<Longrightarrow> first_line (xs @ ys) = first_line xs"
  by (auto simp: first_line_def takeWhile_append1)

lemma read_until_first_line':
  "br_ok r \<longrightarrow> fst (read_until r) = first_line (br_bytes r) \<and> br_ok (snd (read_until r))"
proof (induction rule: read_until_induct)
  case (eof r)
  then show ?case using fill_buf_nil [of r] br_ok_fill_buf [of r] by (auto simp: first_line_def)
next
  case (found r l t)
  then have "first_line (br_bytes r) = l @ [10]"
    unfolding br_bytes_fill [of r] by (simp add: first_line_append_notin) (simp add: first_line_def)
  then show ?case using br_ok_fill_buf [of r] by (simp add: br_ok_def)
next
  case (more r l r')
  have "br_bytes ((fill_buf r)\<lparr>br_buf := []\<rparr>) = concat (br_src (fill_buf r))"
    by (simp add: br_bytes_def)
  with more br_ok_fill_buf [of r] show ?case
    unfolding br_bytes_fill [of r] by (simp add: first_line_append_notin br_ok_def)
qed

lemma read_until_first_line:
  "br_ok r \<Longrightarrow> read_until r = (l, r') \<Longrightarrow> l = first_line (br_bytes r) \<and> br_ok r'"
  using read_until_first_line' [of r] by simp

text \<open>The payloads a line survives: nothing \<open>read_line\<close> would strip or stop at.\<close>

definition line_payload :: "byte list \<Rightarrow> bool" where
  "line_payload p \<longleftrightarrow> p \<noteq> [] \<and> 10 \<notin> set p \<and> hd p \<noteq> 0xFF \<and> last p \<noteq> 13"

lemma strip_line_payload:
  assumes "line_payload p"
  shows "strip_line (replicate k 0xFF @ p @ [10]) = p"
proof -
  have "dropWhile (\<lambda>b. b = 0xFF) (replicate k 0xFF @ p @ [10]) = p @ [10]"
    using assms by (cases p) (auto simp: line_payload_def dropWhile_append3)
  with assms show ?thesis by (simp add: strip_line_def line_payload_def)
qed

lemma first_line_payload:
  assumes "10 \<notin> set p"
  shows "first_line (replicate k 0xFF @ p @ [10] @ rest) = replicate k 0xFF @ p @ [10]"
proof -
  have "10 \<notin> set (replicate k 0xFF @ p)" using assms by auto
  then show ?thesis
    using first_line_append_notin [of "replicate k 0xFF @ p" "[10] @ rest"]
    by (simp add: first_line_def)
qed

lemma read_line_payload:
  assumes "line_payload p" and "br_ok r" and "br_bytes r = replicate k 0xFF @ p @ [10] @ rest"
  obtains r' where "read_line r = (Inr p, r')" "br_bytes r' = rest" "br_ok r'"
proof -
  obtain l r' where ru: "read_until r = (l, r')" by fastforce
  then have l: "l = replicate k 0xFF @ p @ [10]" and ok: "br_ok r'"
    using read_until_first_line [OF assms(2) ru] first_line_payload [of p k rest] assms
    by (auto simp: line_payload_def)
  moreover have "br_bytes r' = rest" using read_until_bytes [OF ru] l assms(3) by simp
  moreover have "read_line r = (Inr p, r')"
    using ru l strip_line_payload [OF assms(1), of k] assms(1)
    by (subst read_line.simps) (simp add: line_payload_def)
  ultimately show ?thesis using that by blast
qed

subsection \<open>Frames: what is written is what is read\<close>

lemma unat_MAX_FRAME_SIZE [simp]: "unat MAX_FRAME_SIZE = 16777216"
  by (simp add: MAX_FRAME_SIZE_def)

lemma unat_u32_of_nat: "n < 2 ^ 32 \<Longrightarrow> unat (word_of_nat n :: u32) = n"
  by (simp add: unat_of_nat)

lemma u32_gt_MAX: "n < 2 ^ 32 \<Longrightarrow> (word_of_nat n :: u32) > MAX_FRAME_SIZE \<longleftrightarrow> 16777216 < n"
  by (simp add: word_less_nat_alt unat_of_nat)

lemma be_nat_u32_less: "length bs = 4 \<Longrightarrow> be_nat bs < 2 ^ 32"
  using be_nat_less [of bs] by simp

definition frame_payload :: "byte list \<Rightarrow> bool" where
  "frame_payload p \<longleftrightarrow> 0 < length p \<and> length p \<le> 16777216"

definition frame_bytes :: "byte list \<Rightarrow> byte list" where
  "frame_bytes p = be_bytes 4 (length p) @ p"

lemma write_frame_vec:
  assumes "length p < 2 ^ 32"
  shows "write_frame vec_sink w p =
    (if p = [] then Inl (InvalidRequest ''empty payload'')
     else if 16777216 < length p then
       Inl (InvalidRequest (''payload too large: '' @ show_nat (length p) @ '' bytes''))
     else Inr (w @ frame_bytes p))"
  using assms
  by (simp add: write_frame_def u32_gt_MAX unat_u32_of_nat io_write_def io_flush_def vec_sink_def
      frame_bytes_def)

lemma read_frame_skip [simp]: "read_frame (replicate k 0xFF @ s) = read_frame s"
  by (induction k) auto

lemma read_frame_header:
  assumes "length h = 4" and "hd h \<noteq> 0xFF"
  shows "read_frame (h @ s) =
    (let len = (word_of_nat (be_nat h) :: u32) in
     if len = 0 then (Inl (InvalidRequest ''empty frame''), s)
     else if len > MAX_FRAME_SIZE then
       (Inl (InvalidRequest (''frame too large: '' @ show_nat (unat len) @ '' bytes (max ''
          @ show_nat (unat MAX_FRAME_SIZE) @ '')'')), s)
     else case read_exact (unat len) s of
         None \<Rightarrow> (Inl (Io short_read), [])
       | Some (buf, s'') \<Rightarrow> (Inr buf, s''))"
  using assms by (cases h) auto

lemma hd_be_bytes_4: "n \<le> 16777216 \<Longrightarrow> hd (be_bytes 4 n) \<noteq> 0xFF"
proof -
  assume n: "n \<le> 16777216"
  have "hd (be_bytes 4 n) = word_of_nat (n div 16777216 mod 256)"
  proof -
    have four: "(4 :: nat) = Suc (Suc (Suc (Suc 0)))" by simp
    show ?thesis
      unfolding be_bytes_def four by (simp add: hd_rev div_mult2_eq [symmetric])
  qed
  moreover have "n div 16777216 = 0 \<or> n div 16777216 = 1" using n by auto
  ultimately show ?thesis by auto
qed

lemma read_frame_frame_bytes:
  assumes "frame_payload p"
  shows "read_frame (replicate k 0xFF @ frame_bytes p @ rest) = (Inr p, rest)"
proof -
  let ?h = "be_bytes 4 (length p)"
  have b: "be_nat ?h = length p" using assms by (simp add: be_nat_be_bytes frame_payload_def)
  have l: "unat (word_of_nat (length p) :: u32) = length p"
    using assms by (simp add: frame_payload_def unat_of_nat)
  then have "(word_of_nat (length p) :: u32) \<noteq> 0" using assms by (auto simp: frame_payload_def)
  moreover have "\<not> (word_of_nat (length p) :: u32) > MAX_FRAME_SIZE"
    using assms by (simp add: u32_gt_MAX frame_payload_def)
  ultimately show ?thesis
    using read_frame_header [of ?h "p @ rest"] hd_be_bytes_4 [of "length p"] assms b l
    by (simp add: frame_bytes_def frame_payload_def)
qed

lemma read_frame_InrD:
  "read_frame s = (Inr p, rest) \<Longrightarrow>
     frame_payload p \<and> (\<exists>k. s = replicate k 0xFF @ frame_bytes p @ rest)"
proof (induction s rule: read_frame.induct)
  case (2 first s)
  show ?case
  proof (cases "first = 0xFF")
    case True
    with "2.IH" "2.prems" obtain k where "frame_payload p"
      "first # s = replicate (Suc k) 0xFF @ frame_bytes p @ rest" by auto
    then show ?thesis by blast
  next
    case False
    with "2.prems" obtain t s' where t: "read_exact 3 s = Some (t, s')"
      by (auto split: option.splits)
    let ?h = "first # t"
    let ?len = "word_of_nat (be_nat ?h) :: u32"
    have s: "s = t @ s'" and lt: "length t = 3" using t by (auto elim: read_exact_SomeE)
    have ul: "unat ?len = be_nat ?h" using be_nat_u32_less [of ?h] lt by (simp add: unat_of_nat)
    from "2.prems" False t have ne: "?len \<noteq> 0" and le: "\<not> ?len > MAX_FRAME_SIZE"
      and rd: "read_exact (unat ?len) s' = Some (p, rest)"
      by (auto simp: Let_def split: if_splits option.splits)
    from rd have s': "s' = p @ rest" and lp: "length p = be_nat ?h"
      by (auto simp: ul elim: read_exact_SomeE)
    have "be_bytes 4 (be_nat ?h) = ?h" using be_bytes_be_nat [of ?h] lt by simp
    moreover have "frame_payload p"
      using ne le lp ul by (auto simp: frame_payload_def word_less_nat_alt intro!: Nat.gr0I)
    ultimately show ?thesis using s s' lp by (auto simp: frame_bytes_def intro!: exI [of _ 0])
  qed
qed simp

subsection \<open>The codec interface\<close>

text \<open>Reading messages one after the other until the count is reached or a read fails.\<close>

fun read_many :: "('s \<Rightarrow> ('e, 'm) result \<times> 's) \<Rightarrow> nat \<Rightarrow> 's \<Rightarrow> 'm list \<times> 's" where
  "read_many rd 0 s = ([], s)"
| "read_many rd (Suc n) s =
     (case rd s of
        (Inl _, s') \<Rightarrow> ([], s')
      | (Inr m, s') \<Rightarrow> (case read_many rd n s' of (ms, s'') \<Rightarrow> (m # ms, s'')))"

text \<open>What a transport needs of an encoding: a message \<open>m\<close> it accepts is written as \<open>enc m\<close>,
  and reading from any source that starts with those bytes returns the payload of \<open>m\<close> and leaves
  exactly the bytes after it.\<close>

locale framed_codec =
  fixes enc :: "'m \<Rightarrow> byte list"
    and payload :: "'m \<Rightarrow> byte list"
    and accepts :: "'m \<Rightarrow> bool"
    and rd :: "'s \<Rightarrow> (agent_error, byte list) result \<times> 's"
    and bytes :: "'s \<Rightarrow> byte list"
    and ok :: "'s \<Rightarrow> bool"
  assumes rd_enc: "accepts m \<Longrightarrow> ok s \<Longrightarrow> bytes s = enc m @ rest
      \<Longrightarrow> \<exists>s'. rd s = (Inr (payload m), s') \<and> bytes s' = rest \<and> ok s'"
begin

lemma read_many_enc:
  "\<forall>m \<in> set ms. accepts m \<Longrightarrow> ok s \<Longrightarrow> bytes s = concat (map enc ms) @ rest
     \<Longrightarrow> \<exists>s'. read_many rd (length ms) s = (map payload ms, s') \<and> bytes s' = rest \<and> ok s'"
proof (induction ms arbitrary: s)
  case (Cons m ms)
  have s: "bytes s = enc m @ (concat (map enc ms) @ rest)" using Cons.prems(3) by simp
  have m: "accepts m" and ms: "\<forall>m \<in> set ms. accepts m" using Cons.prems(1) by simp_all
  obtain s1 where
    s1: "rd s = (Inr (payload m), s1)" "bytes s1 = concat (map enc ms) @ rest" "ok s1"
    using rd_enc [OF m Cons.prems(2) s] by blast
  obtain s2 where "read_many rd (length ms) s1 = (map payload ms, s2)" "bytes s2 = rest" "ok s2"
    using Cons.IH [OF ms s1(3,2)] by blast
  then have "read_many rd (length (m # ms)) s = (map payload (m # ms), s2)" "bytes s2 = rest" "ok s2"
    using s1(1) by simp_all
  then show ?case by blast
qed simp

text \<open>The encoding is uniquely decodable: two accepted sequences of the same length with the
  same bytes carry the same payloads.\<close>

lemma enc_unique:
  assumes "\<forall>m \<in> set ms. accepts m" "\<forall>m \<in> set ns. accepts m" "length ms = length ns"
    and "concat (map enc ms) = concat (map enc ns)" and "ok s" "bytes s = concat (map enc ms)"
  shows "map payload ms = map payload ns"
proof -
  have b: "bytes s = concat (map enc ms) @ []" using assms(6) by (simp only: append_Nil2)
  have c: "bytes s = concat (map enc ns) @ []" using assms(4,6) by (simp only: append_Nil2)
  obtain s1 where s1: "read_many rd (length ms) s = (map payload ms, s1)"
    using read_many_enc [OF assms(1,5) b] by blast
  obtain s2 where s2: "read_many rd (length ns) s = (map payload ns, s2)"
    using read_many_enc [OF assms(2,5) c] by blast
  have "(map payload ms, s1) = (map payload ns, s2)"
    using trans [OF s1 [unfolded assms(3), symmetric] s2] .
  then show ?thesis by blast
qed

end

definition line_bytes :: "byte list \<Rightarrow> byte list" where
  "line_bytes p = p @ [10]"

definition delimited_bytes :: "byte list \<Rightarrow> byte list" where
  "delimited_bytes p = 0xFF # p @ [10]"

lemma last_line_payload: "line_payload p \<Longrightarrow> last p \<noteq> 10"
  using last_in_set [of p] unfolding line_payload_def by metis

lemma write_line_vec: 
  assumes "line_payload p"
  shows "write_line vec_sink w p = Inr (w @ line_bytes p)"
proof -
  have "p \<noteq> []" using assms by (simp add: line_payload_def)
  then show ?thesis
    using last_line_payload [OF assms]
    by (simp add: write_line_def io_write_def io_flush_def vec_sink_def line_bytes_def)
qed

lemma write_delimited_line_vec:
  "line_payload p \<Longrightarrow> write_delimited_line vec_sink w p = Inr (w @ delimited_bytes p)"
proof -
  have "io_write vec_sink w [0xFF] = Inr (w @ [0xFF])"
    by (simp add: io_write_def vec_sink_def)
  then show "line_payload p \<Longrightarrow> ?thesis"
    by (simp add: write_delimited_line_def write_line_vec line_bytes_def delimited_bytes_def)
qed

interpretation frames: framed_codec frame_bytes "\<lambda>p. p" frame_payload read_frame "\<lambda>s. s" "\<lambda>_. True"
proof unfold_locales
  fix m s rest
  assume "frame_payload m" "s = frame_bytes m @ rest"
  then show "\<exists>s'. read_frame s = (Inr m, s') \<and> s' = rest \<and> True"
    using read_frame_frame_bytes [of m 0 rest] by simp
qed

text \<open>Plain and delimited lines may be mixed on one channel: a message is a payload with the flag
  of \<open>write_message\<close>.\<close>

fun text_bytes :: "byte list \<times> bool \<Rightarrow> byte list" where
  "text_bytes (p, delimited) = (if delimited then delimited_bytes p else line_bytes p)"

interpretation lines: framed_codec text_bytes fst "\<lambda>m. line_payload (fst m)" read_line br_bytes br_ok
proof unfold_locales
  fix m s rest
  assume *: "line_payload (fst m)" "br_ok s" "br_bytes s = text_bytes m @ rest"
  then have "br_bytes s = replicate (if snd m then 1 else 0) 0xFF @ fst m @ [10] @ rest"
    by (cases m) (simp add: line_bytes_def delimited_bytes_def)
  then show "\<exists>s'. read_line s = (Inr (fst m), s') \<and> br_bytes s' = rest \<and> br_ok s'"
    using read_line_payload [OF *(1,2)] by metis
qed

end
