(* ===== verification/Transport.thy ===== *)
theory Transport
  imports Frame
begin

text \<open>
  The agent's framed transport, \<^verbatim>\<open>src/agent/transport/mod.rs\<close>, over the framing of \<open>Frame\<close>.

  The channel's read side is the list of chunks its device hands out, one per \<open>read\<close>; the write
  side is a \<open>sink\<close>.  \<open>read_message\<close> of a line-framed channel wraps the device in a fresh \<open>BufReader\<close>
  for every message and drops it, buffer included, when the message has been read; on a
  length-prefixed channel it reads the device directly, where chunk boundaries do not matter.
\<close>

record transport_reader =
  tr_reader :: "byte list list"
  tr_line_framing :: bool

definition read_message ::
  "transport_reader \<Rightarrow> (agent_error, byte list) result \<times> transport_reader" where
  "read_message t =
     (if tr_line_framing t then
        (case read_line \<lparr>br_buf = [], br_src = tr_reader t\<rparr> of
           (res, buf) \<Rightarrow> (res, t\<lparr>tr_reader := br_src buf\<rparr>))
      else
        (case read_frame (concat (tr_reader t)) of
           (res, rest) \<Rightarrow> (res, t\<lparr>tr_reader := [rest]\<rparr>)))"

record 'w shared_writer =
  sw_inner :: 'w
  sw_line_framing :: bool

definition write_message ::
  "'w sink \<Rightarrow> 'w shared_writer \<Rightarrow> byte list \<Rightarrow> bool \<Rightarrow> (agent_error, 'w shared_writer) result" where
  "write_message sk t payload delimited =
     rbind (if sw_line_framing t then
              (if delimited then write_delimited_line sk (sw_inner t) payload
               else write_line sk (sw_inner t) payload)
            else if delimited then write_delimited_line sk (sw_inner t) payload
            else write_frame sk (sw_inner t) payload)
       (\<lambda>w. Inr (t\<lparr>sw_inner := w\<rparr>))"

text \<open>Several messages written one after the other, each whole under the writer's lock.\<close>

fun write_messages ::
  "'w sink \<Rightarrow> 'w shared_writer \<Rightarrow> (byte list \<times> bool) list \<Rightarrow> (agent_error, 'w shared_writer) result" where
  "write_messages sk t [] = Inr t"
| "write_messages sk t ((p, d) # ms) = rbind (write_message sk t p d) (\<lambda>t'. write_messages sk t' ms)"

subsection \<open>Writing\<close>

lemma write_message_line:
  assumes "sw_line_framing t" and "line_payload p"
  shows "write_message vec_sink t p d = Inr (t\<lparr>sw_inner := sw_inner t @ text_bytes (p, d)\<rparr>)"
  using assms by (simp add: write_message_def write_line_vec write_delimited_line_vec)

lemma write_messages_line:
  "sw_line_framing t \<Longrightarrow> \<forall>m \<in> set ms. line_payload (fst m) \<Longrightarrow>
     write_messages vec_sink t ms = Inr (t\<lparr>sw_inner := sw_inner t @ concat (map text_bytes ms)\<rparr>)"
  by (induction ms arbitrary: t) (auto simp: write_message_line)

lemma write_messages_frame:
  "\<not> sw_line_framing t \<Longrightarrow> \<forall>p \<in> set ps. frame_payload p \<Longrightarrow>
     write_messages vec_sink t (map (\<lambda>p. (p, False)) ps) =
       Inr (t\<lparr>sw_inner := sw_inner t @ concat (map frame_bytes ps)\<rparr>)"
  by (induction ps arbitrary: t)
    (auto simp: write_message_def write_frame_vec frame_payload_def)

subsection \<open>Reading\<close>

text \<open>A line whose last chunk ends with its newline leaves the fresh buffer empty.\<close>

lemma read_until_exact:
  assumes "b @ concat cs = p @ [10]" "10 \<notin> set p" "[] \<notin> set cs" "\<forall>c \<in> set cs. length c \<le> 8192"
    "b \<noteq> [] \<or> cs \<noteq> []"
  shows "read_until \<lparr>br_buf = b, br_src = cs @ rest\<rparr> =
    (p @ [10], \<lparr>br_buf = [], br_src = rest\<rparr>)"
  using assms
proof (induction cs arbitrary: b p)
  case Nil
  then show ?case by (subst read_until_found [of _ p "[]"]) (auto simp: fill_buf_def)
next
  case (Cons c cs)
  have step: "read_until \<lparr>br_buf = [], br_src = (c # cs) @ rest\<rparr> =
      read_until \<lparr>br_buf = c, br_src = cs @ rest\<rparr>"
    using Cons.prems(3,4) by (subst (1 2) read_until.simps) (auto simp: fill_buf_def)
  show ?case
  proof (cases "b = []")
    case True
    then show ?thesis using Cons.IH [of c p] Cons.prems step by auto
  next
    case False
    then obtain p' where p': "p = b @ p'"
      using Cons.prems(1,3) by (auto simp: append_eq_append_conv2 append_eq_Cons_conv)
    have "read_until \<lparr>br_buf = b, br_src = (c # cs) @ rest\<rparr> =
      (case read_until \<lparr>br_buf = [], br_src = (c # cs) @ rest\<rparr> of (l, r) \<Rightarrow> (b @ l, r))"
      using False p' Cons.prems(2) by (subst read_until_more) (auto simp: fill_buf_def)
    moreover have "read_until \<lparr>br_buf = c, br_src = cs @ rest\<rparr> =
      (p' @ [10], \<lparr>br_buf = [], br_src = rest\<rparr>)"
      using Cons.IH [of c p'] Cons.prems p' by auto
    ultimately show ?thesis using p' step by simp
  qed
qed

lemma read_line_once:
  assumes "read_until r = (p @ [10], r')" "line_payload p"
  shows "read_line r = (Inr p, r')"
  using assms strip_line_payload [OF assms(2), of 0]
  by (subst read_line.simps) (simp add: line_payload_def)

text \<open>One message that arrives in its own chunks.\<close>

definition arrives :: "byte list list \<Rightarrow> byte list \<Rightarrow> bool" where
  "arrives cs p \<longleftrightarrow> concat cs = line_bytes p \<and> [] \<notin> set cs \<and> (\<forall>c \<in> set cs. length c \<le> 8192)"

lemma read_message_arrives:
  assumes "arrives cs p" "line_payload p" "tr_line_framing t" "tr_reader t = cs @ rest"
  shows "read_message t = (Inr p, t\<lparr>tr_reader := rest\<rparr>)"
proof -
  have "cs \<noteq> []" using assms(1) by (auto simp: arrives_def line_bytes_def)
  then have "read_until \<lparr>br_buf = [], br_src = cs @ rest\<rparr> = (p @ [10], \<lparr>br_buf = [], br_src = rest\<rparr>)"
    using assms(1,2)
    by (intro read_until_exact) (auto simp: arrives_def line_bytes_def line_payload_def)
  with assms show ?thesis by (simp add: read_message_def read_line_once)
qed

lemma read_many_arrives:
  "list_all2 arrives css ps \<Longrightarrow> \<forall>p \<in> set ps. line_payload p \<Longrightarrow> tr_line_framing t \<Longrightarrow>
   tr_reader t = concat css @ rest \<Longrightarrow>
   read_many read_message (length ps) t = (ps, t\<lparr>tr_reader := rest\<rparr>)"
proof (induction css ps arbitrary: t rule: list_all2_induct)
  case (Cons cs css p ps)
  then have "read_message t = (Inr p, t\<lparr>tr_reader := concat css @ rest\<rparr>)"
    by (intro read_message_arrives) auto
  with Cons.IH [of "t\<lparr>tr_reader := concat css @ rest\<rparr>"] Cons.prems show ?case by simp
qed simp

text \<open>A chunk that holds more than the first line: the rest of the chunk is gone.\<close>

lemma read_message_drops:
  assumes "line_payload p" "length (line_bytes p @ tail) \<le> 8192"
    and "tr_line_framing t" "tr_reader t = (line_bytes p @ tail) # rest"
  shows "read_message t = (Inr p, t\<lparr>tr_reader := rest\<rparr>)"
proof -
  have "read_until \<lparr>br_buf = [], br_src = (line_bytes p @ tail) # rest\<rparr> =
      (p @ [10], \<lparr>br_buf = tail, br_src = rest\<rparr>)"
    using assms(1,2)
    by (subst read_until_found [of _ p tail]) (auto simp: fill_buf_def line_bytes_def line_payload_def)
  with assms show ?thesis by (simp add: read_message_def read_line_once)
qed

lemma read_many_frames:
  assumes "\<forall>p \<in> set ps. frame_payload p" "concat (tr_reader t) = concat (map frame_bytes ps) @ rest"
    "\<not> tr_line_framing t"
  shows "\<exists>t'. read_many read_message (length ps) t = (ps, t') \<and> concat (tr_reader t') = rest"
  using assms
proof (induction ps arbitrary: t)
  case (Cons p ps)
  have "read_frame (concat (tr_reader t)) = (Inr p, concat (map frame_bytes ps) @ rest)"
    using read_frame_frame_bytes [of p 0] Cons.prems by simp
  then have "read_message t = (Inr p, t\<lparr>tr_reader := [concat (map frame_bytes ps) @ rest]\<rparr>)"
    using Cons.prems(3) by (simp add: read_message_def)
  with Cons.IH [of "t\<lparr>tr_reader := [concat (map frame_bytes ps) @ rest]\<rparr>"] Cons.prems
  show ?case by auto
qed simp

subsection \<open>Properties\<close>

text \<open>
  Claim C14.  On a length-prefixed channel, any sequence of payloads of 1 byte to 16 MiB that the
  writer sends is read back by the peer in order and unchanged, however the channel splits the
  bytes into reads, and exactly the bytes that follow them stay unread.
\<close>

theorem frame_channel_roundtrip:
  assumes "\<forall>p \<in> set ps. frame_payload p"
    and "\<not> sw_line_framing w" "sw_inner w = []" "\<not> tr_line_framing t"
    and "write_messages vec_sink w (map (\<lambda>p. (p, False)) ps) = Inr w'"
    and "concat (tr_reader t) = sw_inner w' @ rest"
  shows "\<exists>t'. read_many read_message (length ps) t = (ps, t') \<and> concat (tr_reader t') = rest"
  using assms by (intro read_many_frames) (auto simp: write_messages_frame)

theorem frame_channel_roundtrip_witness:
  "\<exists>t'. read_many read_message (length [[7, 8 :: byte], [9]])
      \<lparr>tr_reader = [[0, 0], [0, 2, 7], [8, 0, 0, 0, 1, 9, 255]], tr_line_framing = False\<rparr>
    = ([[7, 8], [9]], t') \<and> concat (tr_reader t') = [255]"
  by (rule frame_channel_roundtrip [where w = "\<lparr>sw_inner = [], sw_line_framing = False\<rparr>"
        and w' = "\<lparr>sw_inner = [0, 0, 0, 2, 7, 8, 0, 0, 0, 1, 9], sw_line_framing = False\<rparr>"])
    (simp_all add: write_message_def write_frame_vec frame_payload_def frame_bytes_def be_bytes_def)

text \<open>
  Claim C20.  On a line-framed channel, any sequence of messages that are not empty, have no newline, do not begin
  with the sync byte \<open>0xFF\<close> and do not end in a carriage return (reading strips both), each sent plain or delimited by a sync byte, is read
  back in order and unchanged by a peer that keeps one \<open>BufReader\<close> for the connection, however the channel splits the
  bytes into non-empty reads.
\<close>

theorem line_channel_roundtrip:
  assumes "\<forall>m \<in> set ms. line_payload (fst m)"
    and "sw_line_framing w" "sw_inner w = []"
    and "write_messages vec_sink w ms = Inr w'"
    and "br_ok r" "br_bytes r = sw_inner w' @ rest"
  shows "\<exists>r'. read_many read_line (length ms) r = (map fst ms, r') \<and> br_bytes r' = rest"
proof -
  have "br_bytes r = concat (map text_bytes ms) @ rest"
    using assms(2,3,4,6) write_messages_line [OF assms(2,1)] by auto
  then show ?thesis using lines.read_many_enc [of ms r rest] assms(1,5) by blast
qed

theorem line_channel_roundtrip_witness:
  "\<exists>r'. read_many read_line (length [([65, 66], True), ([67 :: byte], False)])
      \<lparr>br_buf = [255, 65], br_src = [[66, 10, 67], [10, 9]]\<rparr> =
      (map fst [([65, 66], True), ([67], False)], r') \<and> br_bytes r' = [9]"
  by (rule line_channel_roundtrip [where w = "\<lparr>sw_inner = [], sw_line_framing = True\<rparr>"
        and w' = "\<lparr>sw_inner = [255, 65, 66, 10, 67, 10], sw_line_framing = True\<rparr>"])
    (simp_all add: line_payload_def write_message_def write_line_vec write_delimited_line_vec
      line_bytes_def delimited_bytes_def br_ok_def br_bytes_def)

text \<open>
  The agent's own line-framed \<open>read_message\<close> loses nothing when the host sends in
  lock-step: if every message arrives in chunks of its own, the loop reads them all, in order.
\<close>

theorem line_channel_lockstep:
  assumes "list_all2 arrives css ps" and "\<forall>p \<in> set ps. line_payload p" and "tr_line_framing t"
    and "tr_reader t = concat css @ rest"
  shows "read_many read_message (length ps) t = (ps, t\<lparr>tr_reader := rest\<rparr>)"
  using assms by (rule read_many_arrives)

theorem line_channel_lockstep_witness:
  "read_many read_message (length [[65, 66], [67 :: byte]])
     \<lparr>tr_reader = concat [[[65], [66, 10]], [[67, 10]]] @ [[68]], tr_line_framing = True\<rparr>
   = ([[65, 66], [67]], \<lparr>tr_reader = [[68]], tr_line_framing = True\<rparr>)"
  using line_channel_lockstep [of "[[[65], [66, 10]], [[67, 10]]]" "[[65, 66], [67]]"
      "\<lparr>tr_reader = concat [[[65], [66, 10]], [[67, 10]]] @ [[68]], tr_line_framing = True\<rparr>"
      "[[68]]"]
  by (simp add: arrives_def line_bytes_def line_payload_def)

text \<open>
  Claim C29.  The same \<open>read_message\<close> loses pipelined messages: whatever follows the first line in
  the chunk that completes it, up to whole further requests, is dropped with the temporary
  \<open>BufReader\<close> and no later read returns it.
\<close>

theorem line_channel_pipelined_loss:
  assumes "line_payload p" and "length (line_bytes p @ tail) \<le> 8192"
  shows "read_message \<lparr>tr_reader = (line_bytes p @ tail) # rest, tr_line_framing = True\<rparr> =
    (Inr p, \<lparr>tr_reader = rest, tr_line_framing = True\<rparr>)"
  using read_message_drops [OF assms, of "\<lparr>tr_reader = (line_bytes p @ tail) # rest, tr_line_framing = True\<rparr>"]
  by simp

theorem line_channel_pipelined_loss_witness:
  "read_message \<lparr>tr_reader = (line_bytes [65] @ line_bytes [66]) # [], tr_line_framing = True\<rparr> =
    (Inr [65], \<lparr>tr_reader = [], tr_line_framing = True\<rparr>)"
  by (rule line_channel_pipelined_loss) (simp_all add: line_payload_def line_bytes_def)

text \<open>
  \<open>read_frame\<close> accepts nothing but frames: a payload it returns has 1 to 16 MiB bytes, and
  the stream it came from is sync bytes, the payload's big-endian length, the payload and the
  bytes left unread.
\<close>

theorem read_frame_sound:
  assumes "read_frame s = (Inr p, rest)"
  shows "0 < length p \<and> length p \<le> unat MAX_FRAME_SIZE \<and>
    (\<exists>k. s = replicate k 0xFF @ be_bytes 4 (length p) @ p @ rest)"
  using read_frame_InrD [OF assms] by (simp add: frame_payload_def frame_bytes_def)

theorem read_frame_sound_witness:
  "\<exists>k. [255, 0, 0, 0, 1, 7, 9] = replicate k 0xFF @ be_bytes 4 (length [7 :: byte]) @ [7] @ [9]"
  using read_frame_sound [of "[255, 0, 0, 0, 1, 7, 9]" "[7]" "[9]"]
  by (simp add: read_exact_def be_nat_def MAX_FRAME_SIZE_def)

text \<open>
  The size check of \<open>write_frame\<close> compares the length cut down to 32 bits: a payload of
  \<open>2 ^ 32 + n\<close> bytes with a small positive \<open>n\<close> is written behind a header that announces \<open>n\<close> bytes,
  and the peer takes its first \<open>n\<close> bytes for the whole message.
\<close>

theorem write_frame_truncates:
  assumes "length p = 2 ^ 32 + n" and "0 < n" and "n \<le> 16777216"
  shows "write_frame vec_sink w p = Inr (w @ be_bytes 4 n @ p) \<and>
    read_frame (be_bytes 4 n @ p) = (Inr (take n p), drop n p)"
proof -
  have len: "(word_of_nat (length p) :: u32) = word_of_nat n"
  proof -
    have "(word_of_nat (2 ^ 32) :: u32) = 0" by (simp add: word_of_nat_eq_0_iff)
    then show ?thesis by (simp only: assms(1) of_nat_add add_0)
  qed
  have "write_frame vec_sink w p = Inr (w @ be_bytes 4 n @ p)"
    using assms unfolding write_frame_def len
    by (auto simp: u32_gt_MAX unat_u32_of_nat io_write_def io_flush_def vec_sink_def)
  moreover have "frame_payload (take n p)" "frame_bytes (take n p) @ drop n p = be_bytes 4 n @ p"
    using assms by (simp_all add: frame_payload_def frame_bytes_def)
  ultimately show ?thesis using read_frame_frame_bytes [of "take n p" 0 "drop n p"] by simp
qed

theorem write_frame_truncates_witness:
  "write_frame vec_sink [] (replicate (2 ^ 32 + 1) 7) =
     Inr ([] @ be_bytes 4 1 @ replicate (2 ^ 32 + 1) 7)"
  using write_frame_truncates [of "replicate (2 ^ 32 + 1) 7" 1 "[]"]
  by (simp only: length_replicate refl simp_thms zero_less_one)

end
