(* ===== verification/Bounded_Log.thy ===== *)
theory Bounded_Log
  imports GK_Prelude
begin

text \<open>
  The interface of a log that keeps its most recent entries: the telemetry ring
  (\<open>Ring\<close>) and the nonce window of the replay cache (\<open>Replay\<close>) both provide it.  \<open>push\<close> is partial:
  \<open>None\<close> is a panic of the ring, and a rejected nonce of the cache.
\<close>

fun push_all :: "('a \<Rightarrow> 'l \<Rightarrow> 'l option) \<Rightarrow> 'a list \<Rightarrow> 'l \<Rightarrow> 'l option" where
  "push_all push [] l = Some l"
| "push_all push (x # xs) l = (case push x l of None \<Rightarrow> None | Some l' \<Rightarrow> push_all push xs l')"

locale bounded_log =
  fixes push :: "'a \<Rightarrow> 'l \<Rightarrow> 'l option"
    and contents :: "'l \<Rightarrow> 'a list"
    and bound :: nat
    and inv :: "'l \<Rightarrow> bool"
  assumes push_inv: "inv l \<Longrightarrow> push x l = Some l' \<Longrightarrow> inv l'"
    and push_contents: "inv l \<Longrightarrow> push x l = Some l' \<Longrightarrow>
      contents l' = take_last bound (contents l @ [x])"
begin

lemma push_all_inv: "inv l \<Longrightarrow> push_all push xs l = Some l' \<Longrightarrow> inv l'"
  by (induction xs arbitrary: l) (auto split: option.splits dest: push_inv)

text \<open>After any number of pushes the log holds the last \<open>bound\<close> of all entries it has seen.\<close>

lemma push_all_contents:
  "inv l \<Longrightarrow> push_all push xs l = Some l' \<Longrightarrow> length (contents l) \<le> bound \<Longrightarrow>
     contents l' = take_last bound (contents l @ xs)"
proof (induction xs arbitrary: l)
  case (Cons x xs)
  then obtain l1 where l1: "push x l = Some l1" "push_all push xs l1 = Some l'"
    by (auto split: option.splits)
  have c: "contents l1 = take_last bound (contents l @ [x])"
    using Cons.prems(1) l1(1) by (rule push_contents)
  then have "contents l' = take_last bound (contents l1 @ xs)"
    using Cons.IH [OF push_inv [OF Cons.prems(1) l1(1)] l1(2)] by simp
  then show ?case unfolding c take_last_take_last_append by simp
qed simp

text \<open>An entry stays until \<open>bound\<close> later ones have been pushed.\<close>

lemma push_all_keeps:
  assumes "inv l" "push_all push (x # xs) l = Some l'" "length (contents l) \<le> bound"
    and "length xs < bound"
  shows "x \<in> set (contents l')"
proof -
  have "contents l' = take_last bound (contents l @ x # xs)"
    using push_all_contents [OF assms(1,2,3)] .
  moreover have "take_last bound (contents l @ x # xs) =
      drop (length (contents l @ x # xs) - bound) (contents l) @ x # xs"
    using assms(4) by (simp add: take_last_def)
  ultimately show ?thesis by simp
qed

end

end
