(* ===== verification/Ring.thy ===== *)
theory Ring
  imports Bounded_Log
begin

text \<open>
  The fixed-capacity ring buffer for telemetry samples, \<^verbatim>\<open>src/agent/telemetry/ring.rs\<close>.
  The record has the struct's fields; \<open>None\<close> from \<open>ring_new\<close> is the failed assertion and from
  \<open>ring_push\<close> the index panic.  \<open>ring_ok\<close> is the representation invariant, and the buffer refines
  the list of the last \<open>capacity\<close> pushed values (interface \<open>bounded_log\<close>).
\<close>

record 'a ring =
  buf :: "'a option list"
  head :: nat
  len :: nat

definition ring_new :: "nat \<Rightarrow> 'a ring option" where
  "ring_new capacity =
     (if capacity > 0 then Some \<lparr>buf = replicate capacity None, head = 0, len = 0\<rparr> else None)"

definition ring_capacity :: "'a ring \<Rightarrow> nat" where
  "ring_capacity r = length (buf r)"

definition ring_is_empty :: "'a ring \<Rightarrow> bool" where
  "ring_is_empty r = (len r = 0)"

definition ring_push :: "'a \<Rightarrow> 'a ring \<Rightarrow> 'a ring option" where
  "ring_push x r =
     (if head r < length (buf r) then
        Some \<lparr>buf = (buf r)[head r := Some x],
              head = (head r + 1) mod length (buf r),
              len = min (len r + 1) (length (buf r))\<rparr>
      else None)"

definition ring_iter :: "'a ring \<Rightarrow> 'a list" where
  "ring_iter r =
     (let cap = length (buf r); start = (head r + cap - len r) mod cap
      in List.map_filter (\<lambda>i. buf r ! ((start + i) mod cap)) [0..<len r])"

definition ring_latest :: "'a ring \<Rightarrow> 'a option" where
  "ring_latest r =
     (if len r = 0 then None
      else (let cap = length (buf r) in buf r ! ((head r + cap - 1) mod cap)))"

definition ring_last_n :: "nat \<Rightarrow> 'a ring \<Rightarrow> 'a list" where
  "ring_last_n n r = (let tk = min n (len r) in drop (len r - tk) (ring_iter r))"

subsection \<open>Invariant and refinement\<close>

text \<open>The slot of the \<open>i\<close>-th oldest element.\<close>

definition slot :: "'a ring \<Rightarrow> nat \<Rightarrow> nat" where
  "slot r i = (head r + (length (buf r) - len r) + i) mod length (buf r)"

definition ring_ok :: "'a ring \<Rightarrow> bool" where
  "ring_ok r \<longleftrightarrow> 0 < length (buf r) \<and> head r < length (buf r) \<and> len r \<le> length (buf r) \<and>
     (\<forall>i < len r. buf r ! slot r i \<noteq> None)"

lemma map_filter_all_Some:
  "(\<And>x. x \<in> set xs \<Longrightarrow> f x \<noteq> None) \<Longrightarrow> List.map_filter f xs = map (\<lambda>x. the (f x)) xs"
  by (induction xs) (auto simp: List.map_filter_def)

lemma ring_iter_slots:
  assumes "ring_ok r"
  shows "ring_iter r = map (\<lambda>i. the (buf r ! slot r i)) [0..<len r]"
proof -
  have "((head r + length (buf r) - len r) mod length (buf r) + i) mod length (buf r) = slot r i" for i
    using assms by (simp add: slot_def ring_ok_def mod_simps)
  then have "ring_iter r = List.map_filter (\<lambda>i. buf r ! slot r i) [0..<len r]"
    by (simp add: ring_iter_def Let_def)
  also have "\<dots> = map (\<lambda>i. the (buf r ! slot r i)) [0..<len r]"
    using assms by (intro map_filter_all_Some) (simp add: ring_ok_def)
  finally show ?thesis .
qed

lemma slot_not_head:
  assumes "ring_ok r" "i < len r" "len r < length (buf r)"
  shows "slot r i \<noteq> head r"
proof
  let ?c = "length (buf r)" and ?d = "length (buf r) - len r + i"
  assume eq: "slot r i = head r"
  have "head r < ?c" using assms(1) by (simp add: ring_ok_def)
  then have "(head r + ?d) mod ?c = head r mod ?c" using eq by (simp only: slot_def add.assoc mod_less)
  then have "?c dvd ?d" using mod_eq_dvd_iff_nat [of "head r" "head r + ?d" ?c] by simp
  moreover have "0 < ?d" "?d < ?c" using assms(2,3) by linarith+
  ultimately show False using nat_dvd_not_less [of ?d ?c] by simp
qed

text \<open>Pushing into a ring that is not full keeps every slot and adds one at the head.\<close>

lemma ring_push_grow:
  assumes "ring_ok r" "len r < length (buf r)" "ring_push x r = Some r'"
  shows "len r' = Suc (len r)" "i \<le> len r \<Longrightarrow> slot r' i = slot r i"
    "i < len r \<Longrightarrow> buf r' ! slot r' i = buf r ! slot r i" "buf r' ! slot r' (len r) = Some x"
proof -
  let ?c = "length (buf r)"
  have r': "r' = \<lparr>buf = (buf r)[head r := Some x], head = (head r + 1) mod ?c, len = Suc (len r)\<rparr>"
    using assms(2,3) by (auto simp: ring_push_def split: if_splits)
  show "len r' = Suc (len r)" by (simp add: r')
  have s: "slot r' i = slot r i" for i
  proof -
    have "slot r' i = (((head r + 1) mod ?c + (?c - Suc (len r))) + i) mod ?c"
      by (simp add: slot_def r')
    also have "\<dots> = ((head r + 1 + (?c - Suc (len r))) + i) mod ?c" by (simp only: mod_add_left_eq add.assoc)
    also have "head r + 1 + (?c - Suc (len r)) = head r + (?c - len r)" using assms(2) by linarith
    finally show ?thesis by (simp add: slot_def)
  qed
  have "slot r (len r) = head r" using assms(1) by (simp add: slot_def ring_ok_def)
  then show "buf r' ! slot r' (len r) = Some x" using assms(1) s by (simp add: r' ring_ok_def)
  show "slot r' i = slot r i" by (rule s)
  show "i < len r \<Longrightarrow> buf r' ! slot r' i = buf r ! slot r i"
    using slot_not_head [OF assms(1) _ assms(2), of i] unfolding s by (simp add: r')
qed

text \<open>Pushing into a full ring replaces the oldest slot and shifts the others.\<close>

lemma ring_push_full:
  assumes "ring_ok r" "len r = length (buf r)" "ring_push x r = Some r'"
  shows "len r' = len r" "Suc i < len r \<Longrightarrow> buf r' ! slot r' i = buf r ! slot r (Suc i)"
    "buf r' ! slot r' (len r - 1) = Some x"
proof -
  let ?c = "length (buf r)"
  have h: "head r < ?c" "0 < ?c" using assms(1) by (auto simp: ring_ok_def)
  have r': "r' = \<lparr>buf = (buf r)[head r := Some x], head = (head r + 1) mod ?c, len = ?c\<rparr>"
    using assms(2,3) by (auto simp: ring_push_def split: if_splits)
  show "len r' = len r" by (simp add: r' assms(2))
  have s: "slot r' i = (head r + Suc i) mod ?c" for i by (simp add: slot_def r' mod_simps)
  show "buf r' ! slot r' (len r - 1) = Some x" using h by (simp add: s assms(2)) (simp add: r')
  assume i: "Suc i < len r"
  have "(head r + Suc i) mod ?c \<noteq> head r"
  proof
    assume "(head r + Suc i) mod ?c = head r"
    then have "(head r + Suc i) mod ?c = head r mod ?c" using h by simp
    then have "?c dvd Suc i" using mod_eq_dvd_iff_nat [of "head r" "head r + Suc i" ?c] by simp
    then show False using i assms(2) by (auto dest: nat_dvd_not_less)
  qed
  moreover have "slot r (Suc i) = (head r + Suc i) mod ?c" by (simp add: slot_def assms(2))
  ultimately show "buf r' ! slot r' i = buf r ! slot r (Suc i)" by (simp only: s) (simp add: r')
qed

lemma ring_push_length: "ring_push x r = Some r' \<Longrightarrow> length (buf r') = length (buf r)"
  by (auto simp: ring_push_def split: if_splits)

lemma ring_push_total: "ring_ok r \<Longrightarrow> \<exists>r'. ring_push x r = Some r'"
  by (simp add: ring_push_def ring_ok_def)

lemma ring_push_ok:
  assumes "ring_ok r" "ring_push x r = Some r'"
  shows "ring_ok r'"
proof -
  have h: "head r' < length (buf r')" "0 < length (buf r')"
    using assms by (auto simp: ring_push_def ring_ok_def split: if_splits)
  show ?thesis
  proof (cases "len r < length (buf r)")
    case True
    note g = ring_push_grow [OF assms(1) True assms(2)]
    have "buf r' ! slot r' i \<noteq> None" if "i < len r'" for i
      using that g(1,4) g(3) [of i] assms(1) by (cases "i = len r") (simp_all add: ring_ok_def)
    then show ?thesis using h g(1) True ring_push_length [OF assms(2)] by (auto simp: ring_ok_def)
  next
    case False
    then have f: "len r = length (buf r)" using assms(1) by (simp add: ring_ok_def)
    note g = ring_push_full [OF assms(1) f assms(2)]
    have "buf r' ! slot r' i \<noteq> None" if "i < len r'" for i
      using that g(1,3) g(2) [of i] assms(1)
      by (cases "i = len r - 1") (simp_all add: ring_ok_def)
    then show ?thesis using h g(1) f ring_push_length [OF assms(2)] by (auto simp: ring_ok_def)
  qed
qed

lemma length_ring_iter: "ring_ok r \<Longrightarrow> length (ring_iter r) = len r"
  by (simp add: ring_iter_slots)

lemma ring_push_iter:
  assumes "ring_ok r" "ring_push x r = Some r'"
  shows "ring_iter r' = take_last (length (buf r)) (ring_iter r @ [x])"
proof (cases "len r < length (buf r)")
  case True
  note g = ring_push_grow [OF assms(1) True assms(2)]
  have "ring_iter r' = map (\<lambda>i. the (buf r' ! slot r' i)) [0..<len r] @ [x]"
    using ring_iter_slots [OF ring_push_ok [OF assms]] g(1,4) by simp
  also have "\<dots> = ring_iter r @ [x]" using ring_iter_slots [OF assms(1)] g(3) by simp
  finally show ?thesis using True length_ring_iter [OF assms(1)] by simp
next
  case False
  then have f: "len r = length (buf r)" using assms(1) by (simp add: ring_ok_def)
  note g = ring_push_full [OF assms(1) f assms(2)]
  obtain c where c: "length (buf r) = Suc c" using assms(1) by (cases "buf r") (auto simp: ring_ok_def)
  have "ring_iter r' = map (\<lambda>i. the (buf r' ! slot r' i)) [0..<c] @ [x]"
    using ring_iter_slots [OF ring_push_ok [OF assms]] g(1,3) f c by simp
  also have "map (\<lambda>i. the (buf r' ! slot r' i)) [0..<c] = map (\<lambda>i. the (buf r ! slot r (Suc i))) [0..<c]"
    using g(2) f c by simp
  also have "\<dots> = drop 1 (ring_iter r)"
    using ring_iter_slots [OF assms(1)] f c by (simp add: upt_conv_Cons map_Suc_upt [symmetric] del: upt_Suc)
  finally show ?thesis
    using length_ring_iter [OF assms(1)] f c by (simp add: take_last_def)
qed

lemma ring_latest_last:
  assumes "ring_ok r"
  shows "ring_latest r = (if ring_iter r = [] then None else Some (last (ring_iter r)))"
proof (cases "len r")
  case (Suc n)
  have "slot r n = (head r + length (buf r) - 1) mod length (buf r)"
    using assms Suc by (simp add: slot_def ring_ok_def)
  moreover have "buf r ! slot r n \<noteq> None" using assms Suc by (simp add: ring_ok_def)
  ultimately show ?thesis
    using ring_iter_slots [OF assms] Suc by (simp add: ring_latest_def Let_def)
qed (use ring_iter_slots [OF assms] in \<open>simp add: ring_latest_def\<close>)

lemma ring_last_n_take_last: "ring_ok r \<Longrightarrow> ring_last_n n r = take_last n (ring_iter r)"
  using length_ring_iter [of r]
  by (cases "n \<le> len r") (simp_all add: ring_last_n_def Let_def take_last_def)

lemma ring_new_ok: "ring_new c = Some r \<Longrightarrow> ring_ok r \<and> ring_iter r = [] \<and> length (buf r) = c"
  by (auto simp: ring_new_def ring_ok_def ring_iter_def split: if_splits)

interpretation ring_log:
  bounded_log ring_push ring_iter c "\<lambda>r. ring_ok r \<and> length (buf r) = c" for c
  by unfold_locales (auto simp: ring_push_ok ring_push_length ring_push_iter)

lemma ring_push_all_total: "ring_ok r \<Longrightarrow> \<exists>r'. push_all ring_push xs r = Some r'"
proof (induction xs arbitrary: r)
  case (Cons x xs)
  obtain r1 where r1: "ring_push x r = Some r1" using ring_push_total [OF Cons.prems] by blast
  have "ring_ok r1" using ring_push_ok [OF Cons.prems r1] .
  then obtain r2 where "push_all ring_push xs r1 = Some r2" using Cons.IH by metis
  with r1 have "push_all ring_push (x # xs) r = Some r2" by simp
  then show ?case ..
qed simp

subsection \<open>Properties\<close>

text \<open>
  Claim C34.  A ring of positive capacity \<open>c\<close> never panics on a push, and after any sequence of
  pushes its iterator yields the last \<open>c\<close> pushed values from oldest to newest, its length is
  their number, \<open>latest\<close> is the last value pushed, and \<open>last_n n\<close> is the last \<open>n\<close> of them.
\<close>

theorem ring_refines_log:
  fixes xs :: "'a list"
  assumes "0 < c"
  shows "\<exists>r0 r. ring_new c = Some r0 \<and> push_all ring_push xs r0 = Some r \<and>
    ring_iter r = take_last c xs \<and> len r = min c (length xs) \<and>
    ring_latest r = (if xs = [] then None else Some (last xs)) \<and>
    ring_last_n n r = take_last n (take_last c xs)"
proof -
  obtain r0 :: "'a ring" where r0: "ring_new c = Some r0" using assms by (simp add: ring_new_def)
  note ok0 = ring_new_ok [OF r0]
  then obtain r where r: "push_all ring_push xs r0 = Some r" using ring_push_all_total by blast
  then have ok: "ring_ok r" using ring_log.push_all_inv [of r0 c xs r] ok0 by blast
  have it: "ring_iter r = take_last c xs"
    using ring_log.push_all_contents [of r0 c xs r] r ok0 by simp
  moreover have "ring_latest r = (if xs = [] then None else Some (last xs))"
    using ring_latest_last [OF ok] assms unfolding it by simp
  moreover have "len r = min c (length xs)" using length_ring_iter [OF ok] unfolding it by simp
  moreover have "ring_last_n n r = take_last n (take_last c xs)"
    using ring_last_n_take_last [OF ok, of n] unfolding it .
  ultimately show ?thesis using r0 r by blast
qed

theorem ring_refines_log_witness:
  "\<exists>r0 r. ring_new 3 = Some r0 \<and> push_all ring_push [1 :: nat, 2, 3, 4] r0 = Some r \<and>
    ring_iter r = take_last 3 [1, 2, 3, 4] \<and> len r = min 3 (length [1 :: nat, 2, 3, 4]) \<and>
    ring_latest r = (if [1 :: nat, 2, 3, 4] = [] then None else Some (last [1, 2, 3, 4])) \<and>
    ring_last_n 2 r = take_last 2 (take_last 3 [1, 2, 3, 4])"
  by (rule ring_refines_log) simp

end
