(* ===== verification/Job_Spec.thy ===== *)
theory Job_Spec
  imports GK_Prelude
begin

text \<open>
  The job protocol of \<^verbatim>\<open>crates/guestkit-job-spec\<close>: the document types (\<^verbatim>\<open>types.rs\<close>), the
  validator (\<^verbatim>\<open>validation.rs\<close>) and the fluent builder (\<^verbatim>\<open>builder.rs\<close>).

  Records carry the struct fields with a prefix that names the struct.  Timestamps are integers;
  the current time is an argument where the code reads the clock.  Free-form JSON is the type
  parameter \<open>'j\<close>.  The builder's calls are also a datatype, so that a chain of calls is a list.
\<close>

subsection \<open>Types\<close>

record job_metadata =
  jm_name :: "string option"
  jm_namespace :: "string option"
  jm_labels :: "(string \<rightharpoonup> string) option"
  jm_annotations :: "(string \<rightharpoonup> string) option"

definition job_metadata_default :: job_metadata where
  "job_metadata_default =
     \<lparr>jm_name = None, jm_namespace = None, jm_labels = None, jm_annotations = None\<rparr>"

record execution_policy =
  ep_idempotency_key :: "string option"
  ep_attempt :: u32
  ep_max_attempts :: u32
  ep_timeout_seconds :: u64
  ep_deadline :: "int option"
  ep_priority :: u8
  ep_cancellable :: bool

definition execution_policy_default :: execution_policy where
  "execution_policy_default =
     \<lparr>ep_idempotency_key = None, ep_attempt = 1, ep_max_attempts = 1, ep_timeout_seconds = 3600,
      ep_deadline = None, ep_priority = 5, ep_cancellable = True\<rparr>"

record constraints =
  cn_required_capabilities :: "string list option"
  cn_required_features :: "string list option"
  cn_minimum_worker_version :: "string option"
  cn_maximum_disk_size_gb :: "u64 option"
  cn_require_privileged :: "bool option"
  cn_allowed_worker_pools :: "string list option"

definition constraints_default :: constraints where
  "constraints_default =
     \<lparr>cn_required_capabilities = None, cn_required_features = None,
      cn_minimum_worker_version = None, cn_maximum_disk_size_gb = None,
      cn_require_privileged = None, cn_allowed_worker_pools = None\<rparr>"

record routing =
  rt_worker_id :: "string option"
  rt_worker_pool :: "string option"
  rt_affinity :: "(string \<rightharpoonup> string) option"
  rt_anti_affinity :: "(string \<rightharpoonup> string list) option"

definition routing_default :: routing where
  "routing_default =
     \<lparr>rt_worker_id = None, rt_worker_pool = None, rt_affinity = None, rt_anti_affinity = None\<rparr>"

record 'j payload =
  py_type :: string
  py_data :: 'j

record observability =
  ob_trace_id :: "string option"
  ob_span_id :: "string option"
  ob_parent_span_id :: "string option"
  ob_correlation_id :: "string option"

definition observability_default :: observability where
  "observability_default =
     \<lparr>ob_trace_id = None, ob_span_id = None, ob_parent_span_id = None, ob_correlation_id = None\<rparr>"

record authorization =
  az_method :: string
  az_subject :: string

record audit =
  au_submitted_by :: "string option"
  au_submitted_from :: "string option"
  au_authorization :: "authorization option"

definition audit_default :: audit where
  "audit_default = \<lparr>au_submitted_by = None, au_submitted_from = None, au_authorization = None\<rparr>"

record 'j job_document =
  jd_schema :: "string option"
  jd_version :: string
  jd_job_id :: string
  jd_created_at :: int
  jd_kind :: string
  jd_operation :: string
  jd_metadata :: "job_metadata option"
  jd_execution :: "execution_policy option"
  jd_constraints :: "constraints option"
  jd_routing :: "routing option"
  jd_payload :: "'j payload"
  jd_observability :: "observability option"
  jd_audit :: "audit option"

datatype job_error =
    InvalidSpec string
  | ValidationError string
  | UnsupportedVersion string
  | UnsupportedOperation string
  | MissingField string
  | InvalidField string string
  | SerializationError string
  | IoError string
  | InvalidUlid string
  | InvalidTimestamp string
  | CapabilityMismatch "string list" "string list"

definition PROTOCOL_VERSION :: string where
  "PROTOCOL_VERSION = ''1.0''"

subsection \<open>Validation\<close>

definition validate_version :: "string \<Rightarrow> (job_error, unit) result" where
  "validate_version version =
     (if version \<noteq> PROTOCOL_VERSION then Inl (UnsupportedVersion version) else Inr ())"

definition validate_job_id :: "string \<Rightarrow> (job_error, unit) result" where
  "validate_job_id job_id =
     (if job_id = [] then Inl (MissingField ''job_id'')
      else if length job_id < 8 then
        Inl (InvalidField ''job_id'' ''must be at least 8 characters'')
      else Inr ())"

definition validate_kind :: "string \<Rightarrow> (job_error, unit) result" where
  "validate_kind kind =
     (if kind \<noteq> ''VMOperation'' then
        Inl (InvalidField ''kind'' (''must be 'VMOperation', got '' @ quoted kind))
      else Inr ())"

definition validate_operation :: "string \<Rightarrow> (job_error, unit) result" where
  "validate_operation operation =
     (if operation = [] then Inl (MissingField ''operation'')
      else if CHR ''.'' \<notin> set operation then
        Inl (InvalidField ''operation'' ''must be namespaced (e.g., 'guestkit.inspect')'')
      else Inr ())"

definition validate_payload :: "'j payload \<Rightarrow> (job_error, unit) result" where
  "validate_payload payload =
     (if py_type payload = [] then Inl (MissingField ''payload.type'')
      else (let parts = split_on (CHR ''.'') (py_type payload) in
        if length parts < 3 then
          Inl (InvalidField ''payload.type''
                 ''must be namespaced with version (e.g., 'guestkit.inspect.v1')'')
        else if \<not> starts_with (last parts) ''v'' then
          Inl (InvalidField ''payload.type''
                 (''version part must start with 'v', got '' @ quoted (last parts)))
        else Inr ()))"

definition validate_execution_policy :: "execution_policy \<Rightarrow> (job_error, unit) result" where
  "validate_execution_policy p =
     (if ep_priority p < 1 \<or> ep_priority p > 10 then
        Inl (InvalidField ''execution.priority''
               (''must be 1-10, got '' @ show_nat (unat (ep_priority p))))
      else if ep_max_attempts p < 1 then
        Inl (InvalidField ''execution.max_attempts'' ''must be at least 1'')
      else if ep_attempt p > ep_max_attempts p then
        Inl (InvalidField ''execution.attempt''
               (''attempt ('' @ show_nat (unat (ep_attempt p)) @ '') cannot exceed max_attempts (''
                @ show_nat (unat (ep_max_attempts p)) @ '')''))
      else Inr ())"

definition validate_constraints :: "constraints \<Rightarrow> (job_error, unit) result" where
  "validate_constraints c =
     (case cn_minimum_worker_version c of
        Some version \<Rightarrow>
          (if version = [] then
             Inl (InvalidField ''constraints.minimum_worker_version'' ''cannot be empty'')
           else Inr ())
      | None \<Rightarrow> Inr ())"

definition validate :: "'j job_document \<Rightarrow> (job_error, unit) result" where
  "validate job =
     rbind (validate_version (jd_version job)) (\<lambda>_.
     rbind (validate_job_id (jd_job_id job)) (\<lambda>_.
     rbind (validate_kind (jd_kind job)) (\<lambda>_.
     rbind (validate_operation (jd_operation job)) (\<lambda>_.
     rbind (validate_payload (jd_payload job)) (\<lambda>_.
     rbind (case jd_execution job of Some e \<Rightarrow> validate_execution_policy e | None \<Rightarrow> Inr ()) (\<lambda>_.
     rbind (case jd_constraints job of Some c \<Rightarrow> validate_constraints c | None \<Rightarrow> Inr ()) (\<lambda>_.
     Inr ())))))))"

definition check_capabilities :: "string list \<Rightarrow> string list \<Rightarrow> (job_error, unit) result" where
  "check_capabilities required available =
     (let missing = filter (\<lambda>r. r \<notin> set available) required in
      if missing \<noteq> [] then Inl (CapabilityMismatch required available) else Inr ())"

subsection \<open>Builder\<close>

record 'j job_builder =
  jb_job_id :: "string option"
  jb_operation :: "string option"
  jb_payload_type :: "string option"
  jb_payload_data :: "'j option"
  jb_metadata :: job_metadata
  jb_execution :: execution_policy
  jb_constraints :: constraints
  jb_routing :: routing
  jb_observability :: observability
  jb_audit :: audit

definition builder_new :: "'j job_builder" where
  "builder_new =
     \<lparr>jb_job_id = None, jb_operation = None, jb_payload_type = None, jb_payload_data = None,
      jb_metadata = job_metadata_default, jb_execution = execution_policy_default,
      jb_constraints = constraints_default, jb_routing = routing_default,
      jb_observability = observability_default, jb_audit = audit_default\<rparr>"

definition map_insert :: "('k \<rightharpoonup> 'v) option \<Rightarrow> 'k \<Rightarrow> 'v \<Rightarrow> ('k \<rightharpoonup> 'v) option" where
  "map_insert m k v = Some ((case m of Some f \<Rightarrow> f | None \<Rightarrow> Map.empty)(k \<mapsto> v))"

definition vec_push :: "'a list option \<Rightarrow> 'a \<Rightarrow> 'a list option" where
  "vec_push xs x = Some ((case xs of Some ys \<Rightarrow> ys | None \<Rightarrow> []) @ [x])"

definition clamp_u8 :: "u8 \<Rightarrow> u8 \<Rightarrow> u8 \<Rightarrow> u8" where
  "clamp_u8 lo hi x = (if x < lo then lo else if x > hi then hi else x)"

text \<open>One constructor per builder method; the identifier of \<open>generate_job_id\<close> comes from the ULID
  library and is its argument here.\<close>

datatype 'j builder_call =
    JobId string
  | GenerateJobId string
  | Operation string
  | PayloadCall string 'j
  | Name string
  | Namespace string
  | Label string string
  | Annotation string string
  | IdempotencyKey string
  | Priority u8
  | TimeoutSeconds u64
  | MaxAttempts u32
  | RequireCapability string
  | RequireFeature string
  | WorkerPool string
  | TraceId string
  | CorrelationId string
  | SubmittedBy string

fun apply_call :: "'j builder_call \<Rightarrow> 'j job_builder \<Rightarrow> 'j job_builder" where
  "apply_call (JobId i) b = b\<lparr>jb_job_id := Some i\<rparr>"
| "apply_call (GenerateJobId ulid) b = b\<lparr>jb_job_id := Some (''job-'' @ ulid)\<rparr>"
| "apply_call (Operation oper) b = b\<lparr>jb_operation := Some oper\<rparr>"
| "apply_call (PayloadCall ty d) b = b\<lparr>jb_payload_type := Some ty, jb_payload_data := Some d\<rparr>"
| "apply_call (Name n) b = b\<lparr>jb_metadata := (jb_metadata b)\<lparr>jm_name := Some n\<rparr>\<rparr>"
| "apply_call (Namespace n) b = b\<lparr>jb_metadata := (jb_metadata b)\<lparr>jm_namespace := Some n\<rparr>\<rparr>"
| "apply_call (Label k v) b =
     b\<lparr>jb_metadata := (jb_metadata b)\<lparr>jm_labels := map_insert (jm_labels (jb_metadata b)) k v\<rparr>\<rparr>"
| "apply_call (Annotation k v) b =
     b\<lparr>jb_metadata :=
        (jb_metadata b)\<lparr>jm_annotations := map_insert (jm_annotations (jb_metadata b)) k v\<rparr>\<rparr>"
| "apply_call (IdempotencyKey k) b =
     b\<lparr>jb_execution := (jb_execution b)\<lparr>ep_idempotency_key := Some k\<rparr>\<rparr>"
| "apply_call (Priority p) b =
     b\<lparr>jb_execution := (jb_execution b)\<lparr>ep_priority := clamp_u8 1 10 p\<rparr>\<rparr>"
| "apply_call (TimeoutSeconds n) b =
     b\<lparr>jb_execution := (jb_execution b)\<lparr>ep_timeout_seconds := n\<rparr>\<rparr>"
| "apply_call (MaxAttempts n) b = b\<lparr>jb_execution := (jb_execution b)\<lparr>ep_max_attempts := n\<rparr>\<rparr>"
| "apply_call (RequireCapability c) b =
     b\<lparr>jb_constraints := (jb_constraints b)
        \<lparr>cn_required_capabilities := vec_push (cn_required_capabilities (jb_constraints b)) c\<rparr>\<rparr>"
| "apply_call (RequireFeature f) b =
     b\<lparr>jb_constraints := (jb_constraints b)
        \<lparr>cn_required_features := vec_push (cn_required_features (jb_constraints b)) f\<rparr>\<rparr>"
| "apply_call (WorkerPool p) b = b\<lparr>jb_routing := (jb_routing b)\<lparr>rt_worker_pool := Some p\<rparr>\<rparr>"
| "apply_call (TraceId t) b =
     b\<lparr>jb_observability := (jb_observability b)\<lparr>ob_trace_id := Some t\<rparr>\<rparr>"
| "apply_call (CorrelationId t) b =
     b\<lparr>jb_observability := (jb_observability b)\<lparr>ob_correlation_id := Some t\<rparr>\<rparr>"
| "apply_call (SubmittedBy s) b = b\<lparr>jb_audit := (jb_audit b)\<lparr>au_submitted_by := Some s\<rparr>\<rparr>"

definition ok_or :: "'a option \<Rightarrow> 'e \<Rightarrow> ('e, 'a) result" where
  "ok_or x e = (case x of Some v \<Rightarrow> Inr v | None \<Rightarrow> Inl e)"

definition unless_default :: "'a \<Rightarrow> 'a \<Rightarrow> 'a option" where
  "unless_default d x = (if x \<noteq> d then Some x else None)"

definition build_document ::
  "int \<Rightarrow> 'j job_builder \<Rightarrow> string \<Rightarrow> string \<Rightarrow> string \<Rightarrow> 'j \<Rightarrow> 'j job_document" where
  "build_document now b job_id operation payload_type payload_data =
     \<lparr>jd_schema = Some ''https://guestkit.dev/schemas/job-v1.json'',
      jd_version = PROTOCOL_VERSION,
      jd_job_id = job_id,
      jd_created_at = now,
      jd_kind = ''VMOperation'',
      jd_operation = operation,
      jd_metadata = unless_default job_metadata_default (jb_metadata b),
      jd_execution = Some (jb_execution b),
      jd_constraints = unless_default constraints_default (jb_constraints b),
      jd_routing = unless_default routing_default (jb_routing b),
      jd_payload = \<lparr>py_type = payload_type, py_data = payload_data\<rparr>,
      jd_observability = unless_default observability_default (jb_observability b),
      jd_audit = unless_default audit_default (jb_audit b)\<rparr>"

definition build :: "int \<Rightarrow> 'j job_builder \<Rightarrow> (job_error, 'j job_document) result" where
  "build now b =
     rbind (ok_or (jb_job_id b) (MissingField ''job_id'')) (\<lambda>job_id.
     rbind (ok_or (jb_operation b) (MissingField ''operation'')) (\<lambda>operation.
     rbind (ok_or (jb_payload_type b) (MissingField ''payload.type'')) (\<lambda>payload_type.
     rbind (ok_or (jb_payload_data b) (MissingField ''payload.data'')) (\<lambda>payload_data.
     let job = build_document now b job_id operation payload_type payload_data in
     rbind (validate job) (\<lambda>_. Inr job)))))"

subsection \<open>What validation accepts\<close>

definition policy_wf :: "execution_policy \<Rightarrow> bool" where
  "policy_wf p \<longleftrightarrow> 1 \<le> unat (ep_priority p) \<and> unat (ep_priority p) \<le> 10 \<and>
     1 \<le> unat (ep_max_attempts p) \<and> unat (ep_attempt p) \<le> unat (ep_max_attempts p)"

definition payload_type_wf :: "string \<Rightarrow> bool" where
  "payload_type_wf ty \<longleftrightarrow> 2 \<le> count_list ty (CHR ''.'') \<and>
     (\<exists>v. last (split_on (CHR ''.'') ty) = CHR ''v'' # v)"

definition job_wf :: "'j job_document \<Rightarrow> bool" where
  "job_wf j \<longleftrightarrow> jd_version j = ''1.0'' \<and> 8 \<le> length (jd_job_id j) \<and> jd_kind j = ''VMOperation'' \<and>
     CHR ''.'' \<in> set (jd_operation j) \<and> payload_type_wf (py_type (jd_payload j)) \<and>
     (\<forall>e. jd_execution j = Some e \<longrightarrow> policy_wf e) \<and>
     (\<forall>c. jd_constraints j = Some c \<longrightarrow> cn_minimum_worker_version c \<noteq> Some [])"

lemma validate_execution_policy_ok: "validate_execution_policy p = Inr () \<longleftrightarrow> policy_wf p"
  by (auto simp: validate_execution_policy_def policy_wf_def word_less_nat_alt)

lemma validate_payload_ok: "validate_payload p = Inr () \<longleftrightarrow> payload_type_wf (py_type p)"
  by (cases "last (split_on (CHR ''.'') (py_type p))")
    (auto simp: validate_payload_def payload_type_wf_def Let_def length_split_on starts_with_def)

lemma validate_constraints_ok:
  "validate_constraints c = Inr () \<longleftrightarrow> cn_minimum_worker_version c \<noteq> Some []"
  by (auto simp: validate_constraints_def split: option.splits)

lemmas validate_parts =
  validate_execution_policy_ok validate_payload_ok validate_constraints_ok
  validate_version_def validate_job_id_def validate_kind_def validate_operation_def

lemma validate_ok_wf: "validate j = Inr () \<longleftrightarrow> job_wf j"
  unfolding validate_def job_wf_def
  by (auto simp: rbind_eq_Inr validate_parts PROTOCOL_VERSION_def split: option.splits if_splits)

subsection \<open>What the builder can produce\<close>

text \<open>No chain of builder calls can set an attempt, an out-of-range priority or a minimum worker
  version, and a payload comes with its type.\<close>

definition builder_ok :: "'j job_builder \<Rightarrow> bool" where
  "builder_ok b \<longleftrightarrow> 1 \<le> ep_priority (jb_execution b) \<and> ep_priority (jb_execution b) \<le> 10 \<and>
     ep_attempt (jb_execution b) = 1 \<and> cn_minimum_worker_version (jb_constraints b) = None \<and>
     (jb_payload_type b = None \<longleftrightarrow> jb_payload_data b = None)"

lemma builder_new_ok: "builder_ok builder_new"
  by (simp add: builder_ok_def builder_new_def execution_policy_default_def constraints_default_def)

lemma clamp_u8_bounds: "lo \<le> hi \<Longrightarrow> lo \<le> clamp_u8 lo hi x \<and> clamp_u8 lo hi x \<le> hi"
  by (auto simp: clamp_u8_def)

lemma apply_call_ok: "builder_ok b \<Longrightarrow> builder_ok (apply_call c b)"
  using clamp_u8_bounds [of 1 10] by (cases c) (simp_all add: builder_ok_def)

lemma apply_calls_ok: "builder_ok b \<Longrightarrow> builder_ok (fold apply_call cs b)"
  by (induction cs arbitrary: b) (simp_all add: apply_call_ok)

lemma build_Inr:
  "build now b = Inr j \<longleftrightarrow>
     (\<exists>i oper ty d. jb_job_id b = Some i \<and> jb_operation b = Some oper \<and> jb_payload_type b = Some ty \<and>
        jb_payload_data b = Some d \<and> j = build_document now b i oper ty d \<and> job_wf j)"
  by (auto simp: build_def rbind_eq_Inr ok_or_def Let_def validate_ok_wf split: option.splits)

lemma build_document_wf:
  assumes "builder_ok b"
  shows "job_wf (build_document now b i oper ty d) \<longleftrightarrow>
    8 \<le> length i \<and> CHR ''.'' \<in> set oper \<and> payload_type_wf ty \<and> 1 \<le> ep_max_attempts (jb_execution b)"
  using assms
  by (auto simp: job_wf_def build_document_def PROTOCOL_VERSION_def builder_ok_def policy_wf_def
      unless_default_def word_le_nat_alt split: if_splits)

subsection \<open>Properties\<close>

text \<open>
  Claim C26.  What the validator accepts, exactly, which in places is more than its comments and messages say: protocol version 1.0, a job
  id of at least eight bytes, kind \<open>VMOperation\<close>, an operation with a dot, a payload type of at
  least three dot-separated parts whose last one starts with \<open>v\<close>, a priority of 1 to 10, at least
  one allowed attempt and no attempt beyond it, and no empty minimum worker version.
\<close>

theorem validate_exact:
  "validate j = Inr () \<longleftrightarrow>
     jd_version j = ''1.0'' \<and> 8 \<le> length (jd_job_id j) \<and> jd_kind j = ''VMOperation'' \<and>
     CHR ''.'' \<in> set (jd_operation j) \<and>
     2 \<le> count_list (py_type (jd_payload j)) (CHR ''.'') \<and>
     (\<exists>v. last (split_on (CHR ''.'') (py_type (jd_payload j))) = CHR ''v'' # v) \<and>
     (case jd_execution j of None \<Rightarrow> True | Some e \<Rightarrow>
        unat (ep_priority e) \<in> {1..10} \<and> 1 \<le> unat (ep_max_attempts e) \<and>
        unat (ep_attempt e) \<le> unat (ep_max_attempts e)) \<and>
     (case jd_constraints j of None \<Rightarrow> True | Some c \<Rightarrow> cn_minimum_worker_version c \<noteq> Some [])"
  unfolding validate_ok_wf job_wf_def payload_type_wf_def
  by (auto simp: policy_wf_def split: option.splits)

text \<open>
  Building after any chain of builder calls succeeds exactly when an identifier of at
  least eight bytes, a dotted operation, a well-formed payload type and a positive number of
  attempts have been set last; no priority, timeout, label, capability or routing call can make it
  fail, and what it returns passes validation.
\<close>

theorem build_exact:
  fixes calls :: "'j builder_call list"
  shows "(is_ok (build now (fold apply_call calls builder_new :: 'j job_builder)) \<longleftrightarrow>
    (\<exists>i oper ty. jb_job_id (fold apply_call calls builder_new :: 'j job_builder) = Some i \<and> 8 \<le> length i \<and>
       jb_operation (fold apply_call calls builder_new :: 'j job_builder) = Some oper \<and> CHR ''.'' \<in> set oper \<and>
       jb_payload_type (fold apply_call calls builder_new :: 'j job_builder) = Some ty \<and> payload_type_wf ty \<and>
       1 \<le> ep_max_attempts (jb_execution (fold apply_call calls builder_new :: 'j job_builder)))) \<and>
    (case build now (fold apply_call calls builder_new :: 'j job_builder) of
       Inl e \<Rightarrow> True | Inr j \<Rightarrow> validate j = Inr ())"
proof -
  let ?b = "fold apply_call calls builder_new :: 'j job_builder"
  have ok: "builder_ok ?b" using apply_calls_ok builder_new_ok by blast
  have val: "case build now ?b of Inl e \<Rightarrow> True | Inr j \<Rightarrow> validate j = Inr ()"
    using build_Inr [of now ?b] by (auto simp: validate_ok_wf split: sum.splits)
  have "is_ok (build now ?b) \<longleftrightarrow>
    (\<exists>i oper ty d. jb_job_id ?b = Some i \<and> jb_operation ?b = Some oper \<and> jb_payload_type ?b = Some ty \<and>
        jb_payload_data ?b = Some d \<and> job_wf (build_document now ?b i oper ty d))"
    by (auto simp: is_ok_iff build_Inr)
  moreover have "jb_payload_type ?b = Some ty \<Longrightarrow> \<exists>d. jb_payload_data ?b = Some d" for ty
    using ok by (auto simp: builder_ok_def)
  ultimately show ?thesis using val by (auto simp: build_document_wf [OF ok])
qed

text \<open>A job passes capability matching exactly when all it requires is available.\<close>

lemma check_capabilities_exact:
  "check_capabilities required available = Inr () \<longleftrightarrow> set required \<subseteq> set available"
  by (auto simp: check_capabilities_def Let_def filter_empty_conv)

end
