(* ===== verification/Job_State.thy ===== *)
theory Job_State
  imports Job_Spec
begin

text \<open>
  The worker's job state machine, \<^verbatim>\<open>crates/guestkit-worker/src/state.rs\<close>, and the worker's errors,
  \<^verbatim>\<open>error.rs\<close>.  \<open>transition\<close> is the executable function; \<open>job_step\<close> is the step relation it induces,
  over which reachability is stated.
\<close>

datatype worker_error =
    WJobError job_error
  | WTransportError string
  | WExecutionError string
  | WHandlerNotFound string
  | WCapabilityMismatch string
  | WInvalidStateTransition string string
  | WTimeout nat
  | WShutdownRequested
  | WIoError string
  | WSerializationError string
  | WWatchError string
  | WDuplicateIdempotencyKey string
  | WInvalidConfig string
  | WOther string

datatype job_state =
    Pending | Queued | Assigned | Running | Completed | Failed | Cancelled | Timeout

fun job_state_str :: "job_state \<Rightarrow> string" where
  "job_state_str Pending = ''pending''"
| "job_state_str Queued = ''queued''"
| "job_state_str Assigned = ''assigned''"
| "job_state_str Running = ''running''"
| "job_state_str Completed = ''completed''"
| "job_state_str Failed = ''failed''"
| "job_state_str Cancelled = ''cancelled''"
| "job_state_str Timeout = ''timeout''"

definition is_terminal :: "job_state \<Rightarrow> bool" where
  "is_terminal s \<longleftrightarrow> s \<in> {Completed, Failed, Cancelled, Timeout}"

definition is_active :: "job_state \<Rightarrow> bool" where
  "is_active s \<longleftrightarrow> s = Running"

definition is_valid_transition :: "job_state \<Rightarrow> job_state \<Rightarrow> bool" where
  "is_valid_transition current target =
     (if is_terminal current then False
      else (case (current, target) of
          (Pending, Queued) \<Rightarrow> True
        | (Pending, Failed) \<Rightarrow> True
        | (Queued, Assigned) \<Rightarrow> True
        | (Queued, Cancelled) \<Rightarrow> True
        | (Queued, Failed) \<Rightarrow> True
        | (Assigned, Running) \<Rightarrow> True
        | (Assigned, Cancelled) \<Rightarrow> True
        | (Assigned, Failed) \<Rightarrow> True
        | (Running, Completed) \<Rightarrow> True
        | (Running, Failed) \<Rightarrow> True
        | (Running, Cancelled) \<Rightarrow> True
        | (Running, Timeout) \<Rightarrow> True
        | _ \<Rightarrow> False))"

definition transition :: "job_state \<Rightarrow> job_state \<Rightarrow> (worker_error, job_state) result" where
  "transition current target =
     (if is_valid_transition current target then Inr target
      else Inl (WInvalidStateTransition (job_state_str current) (job_state_str target)))"

subsection \<open>Steps and runs\<close>

inductive job_step :: "job_state \<Rightarrow> job_state \<Rightarrow> bool" where
  step: "transition s t = Inr t \<Longrightarrow> job_step s t"

inductive_cases job_stepE: "job_step s t"

inductive job_run :: "job_state \<Rightarrow> job_state list \<Rightarrow> bool" where
  run_start: "job_run s [s]"
| run_step: "job_step s t \<Longrightarrow> job_run t ts \<Longrightarrow> job_run s (s # ts)"

inductive_cases job_runE: "job_run s ts"

lemma job_step_iff: "job_step s t \<longleftrightarrow> is_valid_transition s t"
  by (auto simp: job_step.simps transition_def)

lemma terminal_stuck: "is_terminal s \<longleftrightarrow> (\<forall>t. \<not> job_step s t)"
proof (cases "is_terminal s")
  case True
  then show ?thesis by (simp add: job_step_iff is_valid_transition_def)
next
  case False
  then have "job_step s Failed"
    by (cases s) (simp_all add: job_step_iff is_valid_transition_def is_terminal_def)
  with False show ?thesis by blast
qed

lemma job_run_hd: "job_run s ts \<Longrightarrow> ts \<noteq> [] \<and> hd ts = s"
  by (induction rule: job_run.induct) auto

lemma job_step_from:
  "job_step Pending t \<longleftrightarrow> t = Queued \<or> t = Failed"
  "job_step Queued t \<longleftrightarrow> t = Assigned \<or> t = Cancelled \<or> t = Failed"
  "job_step Assigned t \<longleftrightarrow> t = Running \<or> t = Cancelled \<or> t = Failed"
  "job_step Running t \<longleftrightarrow> t = Completed \<or> t = Failed \<or> t = Cancelled \<or> t = Timeout"
  by (cases t; simp add: job_step_iff is_valid_transition_def is_terminal_def)+

lemma job_run_terminal: "is_terminal s \<Longrightarrow> job_run s ts \<longleftrightarrow> ts = [s]"
  using terminal_stuck [of s] by (subst job_run.simps) auto

lemma job_run_terminals:
  "job_run Completed ts \<longleftrightarrow> ts = [Completed]" "job_run Failed ts \<longleftrightarrow> ts = [Failed]"
  "job_run Cancelled ts \<longleftrightarrow> ts = [Cancelled]" "job_run Timeout ts \<longleftrightarrow> ts = [Timeout]"
  by (simp_all add: job_run_terminal is_terminal_def)

lemma job_run_unfold: "job_run s ts \<longleftrightarrow> ts = [s] \<or> (\<exists>us. ts = s # us \<and> (\<exists>t. job_step s t \<and> job_run t us))"
  by (subst job_run.simps) blast

lemmas job_run_steps =
  job_step_from job_run_terminals conj_disj_distribR conj_disj_distribL ex_disj_distrib

text \<open>All complete runs from each state.\<close>

lemma job_run_Running:
  "job_run Running ts \<longleftrightarrow> ts = [Running] \<or> (\<exists>t \<in> {Completed, Failed, Cancelled, Timeout}. ts = [Running, t])"
  by (subst job_run_unfold) (auto simp: job_run_steps)

lemma job_run_Assigned:
  "job_run Assigned ts \<longleftrightarrow> ts = [Assigned] \<or> (\<exists>t \<in> {Cancelled, Failed}. ts = [Assigned, t]) \<or>
     (\<exists>us. ts = Assigned # us \<and> job_run Running us)"
  by (subst job_run_unfold) (auto simp: job_run_steps)

lemma job_run_Queued:
  "job_run Queued ts \<longleftrightarrow> ts = [Queued] \<or> (\<exists>t \<in> {Cancelled, Failed}. ts = [Queued, t]) \<or>
     (\<exists>us. ts = Queued # us \<and> job_run Assigned us)"
  by (subst job_run_unfold) (auto simp: job_run_steps)

lemma job_run_Pending:
  "job_run Pending ts \<longleftrightarrow> ts = [Pending] \<or> ts = [Pending, Failed] \<or>
     (\<exists>us. ts = Pending # us \<and> job_run Queued us)"
  by (subst job_run_unfold) (auto simp: job_run_steps)

subsection \<open>Properties\<close>

text \<open>
  Claim C22.  Every run of the job state machine from \<open>Pending\<close> has at most five states, only its
  last one can be terminal, and a run that ends completed or timed out went through
  \<open>Pending\<close>, \<open>Queued\<close>, \<open>Assigned\<close> and \<open>Running\<close> in this order.
\<close>

theorem job_lifecycle:
  assumes "job_run Pending ts"
  shows "length ts \<le> 5 \<and> (\<forall>s \<in> set (butlast ts). \<not> is_terminal s) \<and>
    (last ts \<in> {Completed, Timeout} \<longrightarrow> butlast ts = [Pending, Queued, Assigned, Running])"
  using assms
  by (auto simp: job_run_Pending job_run_Queued job_run_Assigned job_run_Running is_terminal_def)

theorem job_lifecycle_witness:
  "length [Pending, Queued, Assigned, Running, Timeout] \<le> 5 \<and> \<not> is_terminal Running \<and>
    butlast [Pending, Queued, Assigned, Running, Timeout] = [Pending, Queued, Assigned, Running]"
proof -
  have "job_run Pending [Pending, Queued, Assigned, Running, Timeout]"
    by (simp add: job_run_Pending job_run_Queued job_run_Assigned job_run_Running)
  from job_lifecycle [OF this] show ?thesis by simp
qed

text \<open>
  The terminal states are exactly the states no transition leaves, and no state is a
  dead end: from every other state some sequence of transitions ends in a terminal state.
\<close>

theorem terminal_iff_stuck:
  "(is_terminal s \<longleftrightarrow> (\<forall>t. \<not> is_ok (transition s t))) \<and>
   (\<exists>ts. job_run s ts \<and> is_terminal (last ts))"
proof -
  have 1: "is_ok (transition s t) \<longleftrightarrow> job_step s t" for t
    by (simp add: job_step_iff transition_def)
  have "\<exists>ts. job_run s ts \<and> is_terminal (last ts)"
  proof (cases "is_terminal s")
    case True
    then show ?thesis using run_start [of s] by force
  next
    case False
    then have "job_step s Failed"
      by (cases s) (simp_all add: job_step_from is_terminal_def)
    then have "job_run s [s, Failed]" by (rule run_step [OF _ run_start])
    then show ?thesis by (force simp: is_terminal_def)
  qed
  with 1 terminal_stuck [of s] show ?thesis by simp
qed

end
