(* ===== verification/Executor.thy ===== *)
theory Executor
  imports Job_State
begin

text \<open>
  The worker's job executor: \<^verbatim>\<open>crates/guestkit-worker/src/executor.rs\<close> with the handler registry
  (\<^verbatim>\<open>handler.rs\<close>), the result documents (\<^verbatim>\<open>result.rs\<close>) and the metrics it touches (\<^verbatim>\<open>metrics.rs\<close>).

  A handler is a record of the trait's methods; what its \<open>execute\<close> returns and how long it takes
  are its own.  The environment of one execution fixes what the code reads from outside: the two
  clock readings and the outcome of writing the result file.  Operations are functions from the
  executor state to a result and a new state, composed with \<open>ebind\<close> as the code composes them with
  the question-mark operator; \<open>ex_job\<close> is the local state machine of the running job, and \<open>ex_results\<close>,
  \<open>ex_cleanups\<close> and \<open>ex_runs\<close> record the result files written, the cleanups run and the handler
  calls made.
\<close>

record 'j handler_result =
  hr_output_file :: "string option"
  hr_artifacts :: "string list"
  hr_data :: 'j

record 'j handler =
  hd_name :: string
  hd_operations :: "string list"
  hd_validate :: "'j payload \<Rightarrow> (worker_error, unit) result"
  hd_execute :: "string \<Rightarrow> 'j payload \<Rightarrow> (worker_error, 'j handler_result) result"
  hd_duration :: "string \<Rightarrow> 'j payload \<Rightarrow> nat"

type_synonym 'j registry = "string \<rightharpoonup> 'j handler"

definition register :: "'j handler \<Rightarrow> 'j registry \<Rightarrow> 'j registry" where
  "register h reg = fold (\<lambda>oper m. m(oper \<mapsto> h)) (hd_operations h) reg"

definition supports :: "'j registry \<Rightarrow> string \<Rightarrow> bool" where
  "supports reg oper \<longleftrightarrow> reg oper \<noteq> None"

subsection \<open>Results\<close>

datatype job_status = SPending | SAssigned | SRunning | SCompleted | SFailed | SCancelled | STimeout

record execution_summary =
  es_started_at :: int
  es_duration_seconds :: u64
  es_attempt :: u32
  es_idempotency_key :: "string option"

record job_outputs =
  jo_primary :: "string option"
  jo_artifacts :: "string list option"

record job_execution_error =
  je_code :: string
  je_message :: string
  je_phase :: "string option"
  je_recoverable :: bool
  je_retry_recommended :: bool

record 'j job_result =
  jr_job_id :: string
  jr_status :: job_status
  jr_completed_at :: "int option"
  jr_failed_at :: "int option"
  jr_worker_id :: string
  jr_execution_summary :: execution_summary
  jr_outputs :: "job_outputs option"
  jr_error :: "job_execution_error option"
  jr_data :: "'j option"

text \<open>\<open>TimeDelta::num_seconds\<close> of a difference in milliseconds, cast to \<open>u64\<close>.\<close>

definition num_seconds :: "int \<Rightarrow> u64" where
  "num_seconds ms = word_of_int (if 0 \<le> ms then ms div 1000 else - ((- ms) div 1000))"

definition success_result ::
  "int \<Rightarrow> string \<Rightarrow> string \<Rightarrow> int \<Rightarrow> u32 \<Rightarrow> string option \<Rightarrow> string option \<Rightarrow> string list \<Rightarrow> 'j option
     \<Rightarrow> 'j job_result" where
  "success_result now job_id worker_id started_at attempt key output_file artifacts data =
     \<lparr>jr_job_id = job_id, jr_status = SCompleted, jr_completed_at = Some now, jr_failed_at = None,
      jr_worker_id = worker_id,
      jr_execution_summary =
        \<lparr>es_started_at = started_at, es_duration_seconds = num_seconds (now - started_at),
         es_attempt = attempt, es_idempotency_key = key\<rparr>,
      jr_outputs = Some
        \<lparr>jo_primary = output_file,
         jo_artifacts = (if artifacts = [] then None else Some artifacts)\<rparr>,
      jr_error = None, jr_data = data\<rparr>"

definition failure_result ::
  "int \<Rightarrow> string \<Rightarrow> string \<Rightarrow> int \<Rightarrow> u32 \<Rightarrow> string \<Rightarrow> string \<Rightarrow> string option \<Rightarrow> bool \<Rightarrow> 'j job_result" where
  "failure_result now job_id worker_id started_at attempt code message phase recoverable =
     \<lparr>jr_job_id = job_id, jr_status = SFailed, jr_completed_at = None, jr_failed_at = Some now,
      jr_worker_id = worker_id,
      jr_execution_summary =
        \<lparr>es_started_at = started_at, es_duration_seconds = num_seconds (now - started_at),
         es_attempt = attempt, es_idempotency_key = None\<rparr>,
      jr_outputs = None,
      jr_error = Some
        \<lparr>je_code = code, je_message = message, je_phase = phase, je_recoverable = recoverable,
         je_retry_recommended = recoverable\<rparr>,
      jr_data = None\<rparr>"

subsection \<open>Executor state\<close>

record metrics =
  mx_active_jobs :: int
  mx_jobs :: "(string \<times> string) list"
  mx_handlers :: "(string \<times> string) list"

record 'j executor =
  ex_worker_id :: string
  ex_cache :: "string \<rightharpoonup> string"
  ex_metrics :: "metrics option"
  ex_job :: job_state
  ex_results :: "'j job_result list"
  ex_cleanups :: "string list"
  ex_runs :: "string list"

record 'j env =
  en_started :: int
  en_now :: int
  en_write :: "'j job_result \<Rightarrow> (worker_error, string) result"
  en_is_null :: "'j \<Rightarrow> bool"
  en_message :: "worker_error \<Rightarrow> string"

type_synonym ('j, 'a) exec = "'j executor \<Rightarrow> (worker_error, 'a) result \<times> 'j executor"

definition ebind :: "('j, 'a) exec \<Rightarrow> ('a \<Rightarrow> ('j, 'b) exec) \<Rightarrow> ('j, 'b) exec" where
  "ebind m k ex = (case m ex of (Inl e, ex') \<Rightarrow> (Inl e, ex') | (Inr x, ex') \<Rightarrow> k x ex')"

definition eret :: "'a \<Rightarrow> ('j, 'a) exec" where
  "eret x ex = (Inr x, ex)"

definition ethrow :: "worker_error \<Rightarrow> ('j, 'a) exec" where
  "ethrow e ex = (Inl e, ex)"

definition emodify :: "('j executor \<Rightarrow> 'j executor) \<Rightarrow> ('j, unit) exec" where
  "emodify f ex = (Inr (), f ex)"

definition on_metrics :: "(metrics \<Rightarrow> metrics) \<Rightarrow> ('j, unit) exec" where
  "on_metrics f = emodify (\<lambda>ex. ex\<lparr>ex_metrics := map_option f (ex_metrics ex)\<rparr>)"

definition inc_active_jobs :: "metrics \<Rightarrow> metrics" where
  "inc_active_jobs m = m\<lparr>mx_active_jobs := mx_active_jobs m + 1\<rparr>"

definition dec_active_jobs :: "metrics \<Rightarrow> metrics" where
  "dec_active_jobs m = m\<lparr>mx_active_jobs := mx_active_jobs m - 1\<rparr>"

definition record_job_completion :: "string \<Rightarrow> string \<Rightarrow> metrics \<Rightarrow> metrics" where
  "record_job_completion operation status m = m\<lparr>mx_jobs := mx_jobs m @ [(operation, status)]\<rparr>"

definition record_handler_execution :: "string \<Rightarrow> string \<Rightarrow> metrics \<Rightarrow> metrics" where
  "record_handler_execution h status m = m\<lparr>mx_handlers := mx_handlers m @ [(h, status)]\<rparr>"

definition go :: "job_state \<Rightarrow> ('j, unit) exec" where
  "go target ex = (case transition (ex_job ex) target of
      Inl e \<Rightarrow> (Inl e, ex) | Inr s \<Rightarrow> (Inr (), ex\<lparr>ex_job := s\<rparr>))"

definition write_result :: "'j env \<Rightarrow> 'j job_result \<Rightarrow> ('j, string) exec" where
  "write_result en r ex = (case en_write en r of
      Inl e \<Rightarrow> (Inl e, ex) | Inr path \<Rightarrow> (Inr path, ex\<lparr>ex_results := ex_results ex @ [r]\<rparr>))"

subsection \<open>Executing a job\<close>

definition validate_job :: "'j registry \<Rightarrow> 'j job_document \<Rightarrow> (worker_error, unit) result" where
  "validate_job reg job =
     (case validate job of
        Inl e \<Rightarrow> Inl (WJobError e)
      | Inr _ \<Rightarrow>
          (if \<not> supports reg (jd_operation job) then Inl (WHandlerNotFound (jd_operation job))
           else (case reg (jd_operation job) of
                   Some h \<Rightarrow> hd_validate h (jd_payload job)
                 | None \<Rightarrow> Inr ())))"

text \<open>A handler call under a timeout.  The outer \<open>None\<close> is the elapsed timer: the future of
  \<open>execute_with_handler\<close> is dropped where it waits for the handler, so nothing after that point runs.\<close>

definition execute_with_handler ::
  "'j registry \<Rightarrow> nat \<Rightarrow> 'j job_document \<Rightarrow> ('j, (worker_error, 'j handler_result) result option) exec" where
  "execute_with_handler reg timeout_ms job ex =
     (case reg (jd_operation job) of
        None \<Rightarrow> (Inr (Some (Inl (WHandlerNotFound (jd_operation job)))), ex)
      | Some h \<Rightarrow>
          (let ex1 = ex\<lparr>ex_runs := ex_runs ex @ [jd_job_id job]\<rparr> in
           if timeout_ms < hd_duration h (jd_job_id job) (jd_payload job) then (Inr None, ex1)
           else
             (let res = hd_execute h (jd_job_id job) (jd_payload job);
                  status = (if is_ok res then ''success'' else ''error'');
                  ex2 = snd (on_metrics (record_handler_execution (hd_name h) status) ex1);
                  ex3 = ex2\<lparr>ex_cleanups := ex_cleanups ex2 @ [jd_job_id job]\<rparr>
              in (Inr (Some res), ex3))))"

definition job_key :: "'j job_document \<Rightarrow> string option" where
  "job_key job = (case jd_execution job of Some e \<Rightarrow> ep_idempotency_key e | None \<Rightarrow> None)"

definition cache_hit :: "'j job_document \<Rightarrow> 'j executor \<Rightarrow> bool" where
  "cache_hit job ex = (case job_key job of
      Some key \<Rightarrow> (case ex_cache ex key of Some path \<Rightarrow> True | None \<Rightarrow> False)
    | None \<Rightarrow> False)"

definition job_attempt :: "'j job_document \<Rightarrow> u32" where
  "job_attempt job = (case jd_execution job of Some e \<Rightarrow> ep_attempt e | None \<Rightarrow> 1)"

definition job_timeout :: "'j job_document \<Rightarrow> nat" where
  "job_timeout job = (case jd_execution job of Some e \<Rightarrow> unat (ep_timeout_seconds e) | None \<Rightarrow> 3600)"

definition write_failure ::
  "'j env \<Rightarrow> 'j job_document \<Rightarrow> u32 \<Rightarrow> string \<Rightarrow> string \<Rightarrow> string \<Rightarrow> bool \<Rightarrow> ('j, string) exec" where
  "write_failure en job attempt code message phase recoverable ex =
     write_result en (failure_result (en_now en) (jd_job_id job) (ex_worker_id ex) (en_started en)
       attempt code message (Some phase) recoverable) ex"

definition write_success ::
  "'j env \<Rightarrow> 'j job_document \<Rightarrow> 'j handler_result \<Rightarrow> ('j, string) exec" where
  "write_success en job r ex =
     write_result en (success_result (en_now en) (jd_job_id job) (ex_worker_id ex) (en_started en)
       (job_attempt job) (job_key job) (hr_output_file r) (hr_artifacts r)
       (if en_is_null en (hr_data r) then None else Some (hr_data r))) ex"

definition cache_result :: "'j job_document \<Rightarrow> string \<Rightarrow> ('j, unit) exec" where
  "cache_result job path = (case job_key job of
      Some key \<Rightarrow> emodify (\<lambda>ex. ex\<lparr>ex_cache := (ex_cache ex)(key \<mapsto> path)\<rparr>)
    | None \<Rightarrow> eret ())"

definition finish ::
  "'j env \<Rightarrow> 'j job_document \<Rightarrow> (worker_error, 'j handler_result) result option \<Rightarrow> ('j, unit) exec" where
  "finish en job outcome =
     (case outcome of
        Some (Inr handler_result) \<Rightarrow>
          ebind (go Completed) (\<lambda>_.
          ebind (on_metrics (\<lambda>m. dec_active_jobs
                  (record_job_completion (jd_operation job) ''completed'' m))) (\<lambda>_.
          ebind (write_success en job handler_result) (\<lambda>path.
          cache_result job path)))
      | Some (Inl e) \<Rightarrow>
          ebind (go Failed) (\<lambda>_.
          ebind (on_metrics (\<lambda>m. dec_active_jobs
                  (record_job_completion (jd_operation job) ''failed'' m))) (\<lambda>_.
          ebind (write_failure en job (job_attempt job) ''EXECUTION_ERROR'' (en_message en e)
                  ''execution'' True) (\<lambda>_.
          ethrow e)))
      | None \<Rightarrow>
          ebind (go Timeout) (\<lambda>_.
          ebind (on_metrics (\<lambda>m. dec_active_jobs
                  (record_job_completion (jd_operation job) ''timeout'' m))) (\<lambda>_.
          ebind (write_failure en job (job_attempt job) ''TIMEOUT''
                  (''Job exceeded timeout of '' @ show_nat (job_timeout job) @ ''s'') ''execution'' True) (\<lambda>_.
          ethrow (WTimeout (job_timeout job))))))"

definition execute :: "'j registry \<Rightarrow> 'j env \<Rightarrow> 'j job_document \<Rightarrow> ('j, unit) exec" where
  "execute reg en job =
     ebind (on_metrics inc_active_jobs) (\<lambda>_.
     ebind (emodify (\<lambda>ex. ex\<lparr>ex_job := Pending\<rparr>)) (\<lambda>_ ex.
     if cache_hit job ex then eret () ex
     else
       ebind (go Queued) (\<lambda>_.
       case validate_job reg job of
         Inl e \<Rightarrow>
           ebind (write_failure en job 1 ''VALIDATION_ERROR'' (en_message en e) ''validation'' False) (\<lambda>_.
           ethrow e)
       | Inr _ \<Rightarrow>
           ebind (go Assigned) (\<lambda>_.
           ebind (go Running) (\<lambda>_.
           ebind (execute_with_handler reg (1000 * job_timeout job) job) (\<lambda>outcome.
           finish en job outcome)))) ex))"

subsection \<open>Behaviour on every branch\<close>

named_theorems exec_simps \<open>unfolding of executor steps\<close>

lemma ebind_simps [exec_simps]:
  "m ex = (Inl e, ex') \<Longrightarrow> ebind m k ex = (Inl e, ex')"
  "m ex = (Inr x, ex') \<Longrightarrow> ebind m k ex = k x ex'"
  by (simp_all add: ebind_def)

lemma ebind_emodify [exec_simps]: "ebind (emodify f) k ex = k () (f ex)"
  by (simp add: ebind_def emodify_def)

lemma go_ok [exec_simps]:
  "is_valid_transition (ex_job ex) target \<Longrightarrow> go target ex = (Inr (), ex\<lparr>ex_job := target\<rparr>)"
  by (simp add: go_def transition_def)

lemma valid_path [exec_simps]:
  "is_valid_transition Pending Queued" "is_valid_transition Queued Assigned"
  "is_valid_transition Assigned Running" "is_valid_transition Running Completed"
  "is_valid_transition Running Failed" "is_valid_transition Running Timeout"
  by (simp_all add: is_valid_transition_def is_terminal_def)

text \<open>The state after the metrics and the state machine have been set up, and the state in which
  the handler is called.\<close>

definition begun :: "'j executor \<Rightarrow> 'j executor" where
  "begun ex = ex\<lparr>ex_metrics := map_option inc_active_jobs (ex_metrics ex), ex_job := Pending\<rparr>"

definition called :: "'j job_document \<Rightarrow> 'j executor \<Rightarrow> 'j executor" where
  "called job ex = (begun ex)\<lparr>ex_job := Running, ex_runs := ex_runs ex @ [jd_job_id job]\<rparr>"

lemma cache_hit_begun [simp]: "cache_hit job (begun ex) = cache_hit job ex"
  by (simp add: cache_hit_def begun_def split: option.split)

lemma execute_begun:
  "execute reg en job ex =
     (if cache_hit job ex then (Inr (), begun ex)
      else case validate_job reg job of
         Inl e \<Rightarrow> ebind (write_failure en job 1 ''VALIDATION_ERROR'' (en_message en e) ''validation'' False)
                   (\<lambda>_. ethrow e) ((begun ex)\<lparr>ex_job := Queued\<rparr>)
       | Inr _ \<Rightarrow> ebind (execute_with_handler reg (1000 * job_timeout job) job) (finish en job)
                   ((begun ex)\<lparr>ex_job := Running\<rparr>))"
proof -
  have "ex\<lparr>ex_metrics := map_option inc_active_jobs (ex_metrics ex)\<rparr>\<lparr>ex_job := Pending\<rparr> = begun ex"
    by (simp add: begun_def)
  moreover have "ex_job (begun ex) = Pending" by (simp add: begun_def)
  ultimately show ?thesis
    unfolding execute_def on_metrics_def
    by (simp add: exec_simps eret_def split: sum.split)
qed

lemma execute_invalid:
  assumes "\<not> cache_hit job ex" "validate_job reg job = Inl e"
    and "r = failure_result (en_now en) (jd_job_id job) (ex_worker_id ex) (en_started en) 1
      ''VALIDATION_ERROR'' (en_message en e) (Some ''validation'') False"
  shows "execute reg en job ex =
    (case en_write en r of
       Inl we \<Rightarrow> (Inl we, (begun ex)\<lparr>ex_job := Queued\<rparr>)
     | Inr _ \<Rightarrow> (Inl e, (begun ex)\<lparr>ex_job := Queued, ex_results := ex_results ex @ [r]\<rparr>))"
  using assms unfolding execute_begun
  by (simp add: ebind_def write_failure_def write_result_def ethrow_def begun_def split: sum.split)

lemma validate_job_handler:
  assumes "validate_job reg job = Inr ()"
  obtains h where "reg (jd_operation job) = Some h" "validate job = Inr ()"
    "hd_validate h (jd_payload job) = Inr ()"
  using assms by (auto simp: validate_job_def supports_def split: sum.splits if_splits option.splits)

text \<open>The state a handler leaves that returned in time.\<close>

definition returned :: "'j handler \<Rightarrow> 'j job_document \<Rightarrow> 'j executor \<Rightarrow> 'j executor" where
  "returned h job ex = (called job ex)
     \<lparr>ex_metrics := map_option (record_handler_execution (hd_name h)
          (if is_ok (hd_execute h (jd_job_id job) (jd_payload job)) then ''success'' else ''error''))
          (ex_metrics (called job ex)),
      ex_cleanups := ex_cleanups ex @ [jd_job_id job]\<rparr>"

lemma execute_ran:
  assumes "\<not> cache_hit job ex" "validate_job reg job = Inr ()" "reg (jd_operation job) = Some h"
  shows "execute reg en job ex =
    (if 1000 * job_timeout job < hd_duration h (jd_job_id job) (jd_payload job)
     then finish en job None (called job ex)
     else finish en job (Some (hd_execute h (jd_job_id job) (jd_payload job))) (returned h job ex))"
  using assms unfolding execute_begun
  by (simp add: ebind_def execute_with_handler_def Let_def on_metrics_def emodify_def called_def
      returned_def begun_def)

lemma write_result_frame:
  "snd (write_result en r ex) = ex \<or> snd (write_result en r ex) = ex\<lparr>ex_results := ex_results ex @ [r]\<rparr>"
  by (simp add: write_result_def split: sum.split)

text \<open>The parts of the state that the end of an execution decides alone.\<close>

definition core :: "'j executor \<Rightarrow> job_state \<times> string list \<times> string list \<times> metrics option" where
  "core ex = (ex_job ex, ex_runs ex, ex_cleanups ex, ex_metrics ex)"

definition final_state :: "(worker_error, 'j handler_result) result option \<Rightarrow> job_state" where
  "final_state outcome = (case outcome of
      None \<Rightarrow> Timeout | Some (Inl _) \<Rightarrow> Failed | Some (Inr _) \<Rightarrow> Completed)"

lemma core_write_result [simp]: "core (snd (write_result en r ex)) = core ex"
  by (simp add: write_result_def core_def split: sum.split)

lemma core_write_failure [simp]: "core (snd (write_failure en job n c m p b ex)) = core ex"
  by (simp add: write_failure_def)

lemma core_write_success [simp]: "core (snd (write_success en job r ex)) = core ex"
  by (simp add: write_success_def)

lemma core_cache_result [simp]: "core (snd (cache_result job path ex)) = core ex"
  by (simp add: cache_result_def emodify_def eret_def core_def split: option.split)

lemma core_ebind:
  assumes "core (snd (m ex)) = c" "\<And>x ex'. core ex' = c \<Longrightarrow> core (snd (k x ex')) = c"
  shows "core (snd (ebind m k ex)) = c"
  using assms by (cases "m ex") (auto simp: ebind_def split: sum.split)

lemma core_finish:
  assumes "ex_job ex = Running"
  shows "core (snd (finish en job outcome ex)) =
    (final_state outcome, ex_runs ex, ex_cleanups ex,
     map_option (\<lambda>m. dec_active_jobs (record_job_completion (jd_operation job)
       (job_state_str (final_state outcome)) m)) (ex_metrics ex))"
proof (cases outcome)
  case None
  then show ?thesis
    using assms unfolding finish_def on_metrics_def
    by (simp add: exec_simps, intro core_ebind)
      (simp_all add: final_state_def ethrow_def, simp_all add: core_def)
next
  case (Some res)
  then show ?thesis
    using assms unfolding finish_def on_metrics_def
    by (cases res; simp add: exec_simps; intro core_ebind)
      (simp_all add: final_state_def ethrow_def, simp_all add: core_def)
qed

text \<open>Whether an execution gets as far as calling its handler, and whether that returns in time.\<close>

definition reaches_handler :: "'j registry \<Rightarrow> 'j job_document \<Rightarrow> 'j executor \<Rightarrow> bool" where
  "reaches_handler reg job ex \<longleftrightarrow> \<not> cache_hit job ex \<and> validate_job reg job = Inr ()"

definition outcome_of :: "'j handler \<Rightarrow> 'j job_document \<Rightarrow> (worker_error, 'j handler_result) result option" where
  "outcome_of h job =
     (if 1000 * job_timeout job < hd_duration h (jd_job_id job) (jd_payload job) then None
      else Some (hd_execute h (jd_job_id job) (jd_payload job)))"

definition after_handler :: "'j handler \<Rightarrow> 'j job_document \<Rightarrow> 'j executor \<Rightarrow> 'j executor" where
  "after_handler h job ex = (if outcome_of h job = None then called job ex else returned h job ex)"

lemma execute_reaches:
  assumes "reaches_handler reg job ex"
  obtains h where "reg (jd_operation job) = Some h"
    "execute reg en job ex = finish en job (outcome_of h job) (after_handler h job ex)"
    "ex_job (after_handler h job ex) = Running"
proof -
  obtain h where h: "reg (jd_operation job) = Some h"
    using assms validate_job_handler by (metis reaches_handler_def)
  have "execute reg en job ex = finish en job (outcome_of h job) (after_handler h job ex)"
    using assms h execute_ran [of job ex reg h en]
    by (auto simp: reaches_handler_def outcome_of_def after_handler_def)
  moreover have "ex_job (after_handler h job ex) = Running"
    by (simp add: after_handler_def called_def returned_def)
  ultimately show ?thesis using h that by blast
qed

lemma core_execute_early:
  assumes "\<not> reaches_handler reg job ex"
  shows "core (snd (execute reg en job ex)) =
    (if cache_hit job ex then Pending else Queued, ex_runs ex, ex_cleanups ex,
     map_option inc_active_jobs (ex_metrics ex))"
proof (cases "cache_hit job ex")
  case True
  then show ?thesis by (simp add: execute_begun core_def begun_def)
next
  case False
  then obtain e where "validate_job reg job = Inl e"
    using assms by (cases "validate_job reg job") (auto simp: reaches_handler_def)
  with False show ?thesis
    by (simp add: execute_invalid core_def begun_def split: sum.split)
qed

text \<open>With a working result directory, a finished job has one more result, and its status says
  whether the call succeeded.\<close>

definition matching_result :: "'j job_document \<Rightarrow> bool \<Rightarrow> 'j job_result \<Rightarrow> bool" where
  "matching_result job success r \<longleftrightarrow> jr_job_id r = jd_job_id job \<and>
     jr_status r = (if success then SCompleted else SFailed) \<and> (jr_error r = None \<longleftrightarrow> success) \<and>
     (jr_completed_at r = None \<longleftrightarrow> \<not> success) \<and> (jr_failed_at r = None \<longleftrightarrow> success)"

lemma matching_failure: "matching_result job False (failure_result now (jd_job_id job) w st n c m p b)"
  by (simp add: matching_result_def failure_result_def)

lemma matching_success: "matching_result job True (success_result now (jd_job_id job) w st n k f a d)"
  by (simp add: matching_result_def success_result_def)

lemma write_result_ok:
  assumes "\<forall>r. is_ok (en_write en r)"
  obtains path where "write_result en r ex = (Inr path, ex\<lparr>ex_results := ex_results ex @ [r]\<rparr>)"
proof -
  obtain path where "en_write en r = Inr path" using assms by (auto simp: is_ok_iff)
  then show ?thesis using that by (simp add: write_result_def)
qed

definition settled :: "'j job_document \<Rightarrow> job_state \<Rightarrow> 'j executor \<Rightarrow> 'j executor" where
  "settled job st ex = ex\<lparr>ex_job := st, ex_metrics := map_option (\<lambda>m. dec_active_jobs
      (record_job_completion (jd_operation job) (job_state_str st) m)) (ex_metrics ex)\<rparr>"

lemma finish_settled:
  assumes "ex_job ex = Running"
  shows "finish en job (Some (Inr r)) ex =
      ebind (write_success en job r) (cache_result job) (settled job Completed ex)"
    and "finish en job (Some (Inl e)) ex =
      ebind (write_failure en job (job_attempt job) ''EXECUTION_ERROR'' (en_message en e) ''execution'' True)
        (\<lambda>_. ethrow e) (settled job Failed ex)"
    and "finish en job None ex =
      ebind (write_failure en job (job_attempt job) ''TIMEOUT''
          (''Job exceeded timeout of '' @ show_nat (job_timeout job) @ ''s'') ''execution'' True)
        (\<lambda>_. ethrow (WTimeout (job_timeout job))) (settled job Timeout ex)"
  using assms unfolding finish_def on_metrics_def settled_def
  by (simp_all add: exec_simps)

lemma settled_results [simp]: "ex_results (settled job st ex) = ex_results ex"
  by (simp add: settled_def)

lemma failure_written:
  assumes "\<forall>r. is_ok (en_write en r)"
    and "m = ebind (write_failure en job n c msg p b) (\<lambda>_. ethrow e)"
  shows "\<exists>r. ex_results (snd (m ex)) = ex_results ex @ [r] \<and> matching_result job (is_ok (fst (m ex))) r"
proof -
  let ?r = "failure_result (en_now en) (jd_job_id job) (ex_worker_id ex) (en_started en) n c msg (Some p) b"
  obtain path where "write_result en ?r ex = (Inr path, ex\<lparr>ex_results := ex_results ex @ [?r]\<rparr>)"
    using write_result_ok [OF assms(1)] by blast
  then have "m ex = (Inl e, ex\<lparr>ex_results := ex_results ex @ [?r]\<rparr>)"
    by (simp add: assms(2) ebind_def write_failure_def ethrow_def)
  then show ?thesis using matching_failure by auto
qed

lemma success_written:
  assumes "\<forall>r. is_ok (en_write en r)"
  shows "\<exists>r path. ebind (write_success en job hr) (cache_result job) ex =
      cache_result job path (ex\<lparr>ex_results := ex_results ex @ [r]\<rparr>) \<and> matching_result job True r"
proof -
  let ?r = "success_result (en_now en) (jd_job_id job) (ex_worker_id ex) (en_started en)
       (job_attempt job) (job_key job) (hr_output_file hr) (hr_artifacts hr)
       (if en_is_null en (hr_data hr) then None else Some (hr_data hr))"
  obtain path where "write_result en ?r ex = (Inr path, ex\<lparr>ex_results := ex_results ex @ [?r]\<rparr>)"
    using write_result_ok [OF assms(1)] by blast
  then have "ebind (write_success en job hr) (cache_result job) ex =
      cache_result job path (ex\<lparr>ex_results := ex_results ex @ [?r]\<rparr>)"
    by (simp add: ebind_def write_success_def)
  then show ?thesis using matching_success by blast
qed

lemma cache_result_ok [simp]:
  "fst (cache_result job path ex) = Inr ()" "ex_results (snd (cache_result job path ex)) = ex_results ex"
  by (simp_all add: cache_result_def emodify_def eret_def split: option.split)

lemma finish_result:
  assumes "\<forall>r. is_ok (en_write en r)" "ex_job ex = Running"
  shows "\<exists>r. ex_results (snd (finish en job outcome ex)) = ex_results ex @ [r] \<and>
    matching_result job (is_ok (fst (finish en job outcome ex))) r"
proof (cases outcome)
  case None
  show ?thesis unfolding None finish_settled(3) [OF assms(2)]
    by (rule failure_written [OF assms(1) refl, where ex = "settled job Timeout ex",
          unfolded settled_results])
next
  case (Some res)
  show ?thesis
  proof (cases res)
    case (Inl e)
    show ?thesis unfolding Some Inl finish_settled(2) [OF assms(2)]
      by (rule failure_written [OF assms(1) refl, where ex = "settled job Failed ex",
            unfolded settled_results])
  next
    case (Inr hr)
    obtain r path where r: "ebind (write_success en job hr) (cache_result job) (settled job Completed ex) =
        cache_result job path ((settled job Completed ex)\<lparr>ex_results := ex_results ex @ [r]\<rparr>)"
        "matching_result job True r"
      using success_written [OF assms(1), of job hr "settled job Completed ex"] by auto
    then show ?thesis unfolding Some Inr finish_settled(1) [OF assms(2)] by auto
  qed
qed

subsection \<open>Properties\<close>

lemma core_after_handler:
  "ex_runs (after_handler h job ex) = ex_runs ex @ [jd_job_id job]"
  "ex_cleanups (after_handler h job ex) =
     ex_cleanups ex @ (if outcome_of h job = None then [] else [jd_job_id job])"
  by (simp_all add: after_handler_def called_def returned_def begun_def)

lemma active_after_handler:
  assumes "ex_metrics ex = Some m"
  shows "\<exists>m'. ex_metrics (after_handler h job ex) = Some m' \<and> mx_active_jobs m' = mx_active_jobs m + 1"
  using assms
  by (simp add: after_handler_def called_def returned_def begun_def inc_active_jobs_def
      record_handler_execution_def)

lemma core_execute_reaches:
  assumes "reaches_handler reg job ex" "reg (jd_operation job) = Some h"
  shows "core (snd (execute reg en job ex)) =
    (final_state (outcome_of h job), ex_runs (after_handler h job ex), ex_cleanups (after_handler h job ex),
     map_option (\<lambda>m. dec_active_jobs (record_job_completion (jd_operation job)
       (job_state_str (final_state (outcome_of h job))) m)) (ex_metrics (after_handler h job ex)))"
proof -
  obtain h' where "reg (jd_operation job) = Some h'"
    "execute reg en job ex = finish en job (outcome_of h' job) (after_handler h' job ex)"
    "ex_job (after_handler h' job ex) = Running"
    using execute_reaches [OF assms(1)] by blast
  with assms(2) show ?thesis by (simp add: core_finish)
qed

text \<open>
  Claim C2.  What one execution does, on every branch: on a cached idempotency key the handler is
  not called and the job stays pending; on a validation error it is not called and the job stays
  queued; otherwise the handler of the operation is called exactly once, and the job ends timed
  out, completed or failed according to whether it returned in time and successfully.
\<close>

theorem execute_final_state:
  "ex_job (snd (execute reg en job ex)) =
     (if cache_hit job ex then Pending
      else if validate_job reg job \<noteq> Inr () then Queued
      else case reg (jd_operation job) of None \<Rightarrow> Queued
        | Some h \<Rightarrow>
            if 1000 * job_timeout job < hd_duration h (jd_job_id job) (jd_payload job) then Timeout
            else if is_ok (hd_execute h (jd_job_id job) (jd_payload job)) then Completed else Failed) \<and>
   ex_runs (snd (execute reg en job ex)) =
     ex_runs ex @ (if cache_hit job ex then []
       else if validate_job reg job = Inr () then [jd_job_id job] else [])"
proof (cases "reaches_handler reg job ex")
  case True
  then obtain h where h: "reg (jd_operation job) = Some h"
    using execute_reaches by blast
  have "final_state (outcome_of h job) =
      (if 1000 * job_timeout job < hd_duration h (jd_job_id job) (jd_payload job) then Timeout
       else if is_ok (hd_execute h (jd_job_id job) (jd_payload job)) then Completed else Failed)"
    by (simp add: final_state_def outcome_of_def is_ok_def split: sum.split)
  with True h core_execute_reaches [OF True h, of en] show ?thesis
    by (simp add: core_def reaches_handler_def core_after_handler)
next
  case False
  then show ?thesis
    using core_execute_early [OF False, of en] by (auto simp: core_def reaches_handler_def)
qed

text \<open>
  Claim C21.  With a working result directory, an execution that is not answered from the
  idempotency cache writes exactly one result, for this job, and the result is marked completed
  without an error exactly when the execution returns success, failed with an error otherwise.
\<close>

theorem execute_one_result:
  assumes "\<forall>r. is_ok (en_write en r)" and "\<not> cache_hit job ex"
  shows "\<exists>r. ex_results (snd (execute reg en job ex)) = ex_results ex @ [r] \<and>
    jr_job_id r = jd_job_id job \<and>
    (if is_ok (fst (execute reg en job ex))
     then jr_status r = SCompleted \<and> jr_error r = None
     else jr_status r = SFailed \<and> jr_error r \<noteq> None)"
proof -
  have "\<exists>r. ex_results (snd (execute reg en job ex)) = ex_results ex @ [r] \<and>
      matching_result job (is_ok (fst (execute reg en job ex))) r"
  proof (cases "reaches_handler reg job ex")
    case True
    then obtain h where h: "execute reg en job ex = finish en job (outcome_of h job) (after_handler h job ex)"
      "ex_job (after_handler h job ex) = Running"
      using execute_reaches by blast
    have "ex_results (after_handler h job ex) = ex_results ex"
      by (simp add: after_handler_def called_def returned_def begun_def)
    then show ?thesis using finish_result [OF assms(1) h(2), of job "outcome_of h job"] h(1) by simp
  next
    case False
    then obtain e where e: "validate_job reg job = Inl e"
      using assms(2) by (cases "validate_job reg job") (auto simp: reaches_handler_def)
    have "ex_results ((begun ex)\<lparr>ex_job := Queued\<rparr>) = ex_results ex" by (simp add: begun_def)
    moreover have "execute reg en job ex =
        ebind (write_failure en job 1 ''VALIDATION_ERROR'' (en_message en e) ''validation'' False)
                   (\<lambda>_. ethrow e) ((begun ex)\<lparr>ex_job := Queued\<rparr>)"
      using assms(2) e by (simp add: execute_begun)
    ultimately show ?thesis
      using failure_written [OF assms(1) refl, where ex = "(begun ex)\<lparr>ex_job := Queued\<rparr>"] by metis
  qed
  then show ?thesis by (auto simp: matching_result_def)
qed

text \<open>
  The active-jobs gauge is balanced only when the handler is reached: an execution
  answered from the idempotency cache, and one that fails validation, raise it by one for good.
\<close>

theorem active_jobs_gauge:
  assumes "ex_metrics ex = Some m"
  shows "\<exists>m'. ex_metrics (snd (execute reg en job ex)) = Some m' \<and>
    mx_active_jobs m' =
      mx_active_jobs m + (if cache_hit job ex \<or> validate_job reg job \<noteq> Inr () then 1 else 0)"
proof (cases "reaches_handler reg job ex")
  case True
  then obtain h where h: "reg (jd_operation job) = Some h" using execute_reaches by blast
  obtain m1 where m1: "ex_metrics (after_handler h job ex) = Some m1"
    "mx_active_jobs m1 = mx_active_jobs m + 1"
    using active_after_handler [OF assms] by blast
  have "ex_metrics (snd (execute reg en job ex)) = map_option (\<lambda>m. dec_active_jobs
      (record_job_completion (jd_operation job) (job_state_str (final_state (outcome_of h job))) m)) (Some m1)"
    using core_execute_reaches [OF True h, of en] m1(1) by (simp add: core_def)
  then show ?thesis
    using True m1(2) by (simp add: dec_active_jobs_def record_job_completion_def reaches_handler_def)
next
  case False
  then show ?thesis
    using core_execute_early [OF False, of en] assms
    by (auto simp: core_def reaches_handler_def inc_active_jobs_def)
qed

lemma ethrow_not_ok: "fst (ebind m (\<lambda>_. ethrow e) ex) \<noteq> Inr x"
  by (cases "m ex") (auto simp: ebind_def ethrow_def split: sum.split)

lemma finish_ok_cached:
  assumes "ex_job ex = Running" "fst (finish en job outcome ex) = Inr ()" "job_key job = Some key"
  shows "ex_cache (snd (finish en job outcome ex)) key \<noteq> None"
proof -
  obtain r where r: "outcome = Some (Inr r)"
  proof (cases outcome)
    case None
    then show ?thesis using assms(2) by (simp add: finish_settled(3) [OF assms(1)] ethrow_not_ok)
  next
    case (Some res)
    show ?thesis
    proof (cases res)
      case (Inl e)
      then show ?thesis
        using assms(2) Some by (simp add: finish_settled(2) [OF assms(1)] ethrow_not_ok)
    next
      case (Inr r)
      then show ?thesis using Some that by blast
    qed
  qed
  show ?thesis
    using assms(2) unfolding r finish_settled(1) [OF assms(1)]
    by (cases "write_success en job r (settled job Completed ex)")
      (auto simp: ebind_def cache_result_def assms(3) emodify_def split: sum.splits)
qed

text \<open>
  Claim C35.  Idempotency: once a job with a key has been executed successfully, executing any
  job with the same key again, with whatever handlers and environment, returns success without
  calling a handler, writing a result or changing the cache.
\<close>

theorem execute_idempotent:
  assumes "job_key job = Some key" and "fst (execute reg en job ex) = Inr ()"
    and "job_key job' = Some key"
  shows "execute reg' en' job' (snd (execute reg en job ex)) = (Inr (), begun (snd (execute reg en job ex)))"
proof -
  have "ex_cache (snd (execute reg en job ex)) key \<noteq> None"
  proof (cases "reaches_handler reg job ex")
    case True
    then obtain h where h: "execute reg en job ex = finish en job (outcome_of h job) (after_handler h job ex)"
      "ex_job (after_handler h job ex) = Running"
      using execute_reaches by blast
    then show ?thesis using finish_ok_cached [OF h(2) _ assms(1)] assms(2) by simp
  next
    case False
    have "cache_hit job ex"
    proof (rule ccontr)
      assume n: "\<not> cache_hit job ex"
      then obtain e where "validate_job reg job = Inl e"
        using False by (cases "validate_job reg job") (auto simp: reaches_handler_def)
      then show False using n assms(2) by (simp add: execute_begun ethrow_not_ok)
    qed
    then show ?thesis
      using assms(1) by (auto simp: execute_begun begun_def cache_hit_def split: option.splits)
  qed
  then have "cache_hit job' (snd (execute reg en job ex))"
    using assms(3) by (auto simp: cache_hit_def)
  then show ?thesis by (subst execute_begun) simp
qed

text \<open>
  Cleanup after a handler is not unconditional: it runs exactly when the handler
  returned before the timeout, with or without an error; a timed-out job is never cleaned up.
\<close>

theorem cleanup_only_in_time:
  assumes "reaches_handler reg job ex" and "reg (jd_operation job) = Some h"
  shows "ex_cleanups (snd (execute reg en job ex)) = ex_cleanups ex @
    (if 1000 * job_timeout job < hd_duration h (jd_job_id job) (jd_payload job) then [] else [jd_job_id job])"
  using core_execute_reaches [OF assms, of en]
  by (simp add: core_def core_after_handler outcome_of_def)

subsection \<open>A concrete worker\<close>

definition demo_job :: "nat job_document" where
  "demo_job = build_document 0
     (builder_new\<lparr>jb_execution := execution_policy_default\<lparr>ep_idempotency_key := Some ''k''\<rparr>\<rparr>)
     ''job-00000001'' ''guestkit.inspect'' ''guestkit.inspect.v1'' 0"

definition demo_handler :: "nat \<Rightarrow> nat handler" where
  "demo_handler ms =
     \<lparr>hd_name = ''inspect'', hd_operations = [''guestkit.inspect''], hd_validate = (\<lambda>_. Inr ()),
      hd_execute = (\<lambda>_ _. Inr \<lparr>hr_output_file = None, hr_artifacts = [], hr_data = 1\<rparr>),
      hd_duration = (\<lambda>_ _. ms)\<rparr>"

definition demo_registry :: "nat \<Rightarrow> nat registry" where
  "demo_registry ms = register (demo_handler ms) Map.empty"

definition demo_env :: "nat env" where
  "demo_env = \<lparr>en_started = 0, en_now = 5000, en_write = (\<lambda>r. Inr (jr_job_id r)),
     en_is_null = (\<lambda>j. j = 0), en_message = (\<lambda>_. ''error'')\<rparr>"

definition demo_executor :: "nat executor" where
  "demo_executor = \<lparr>ex_worker_id = ''w'', ex_cache = Map.empty,
     ex_metrics = Some \<lparr>mx_active_jobs = 0, mx_jobs = [], mx_handlers = []\<rparr>,
     ex_job = Pending, ex_results = [], ex_cleanups = [], ex_runs = []\<rparr>"

lemmas demo_defs = demo_job_def demo_handler_def demo_registry_def demo_env_def demo_executor_def
  register_def build_document_def builder_new_def job_key_def job_timeout_def
  execution_policy_default_def

lemma demo_not_cached: "\<not> cache_hit demo_job demo_executor"
  by (simp add: cache_hit_def demo_defs)

lemma demo_job_valid: "validate demo_job = Inr ()"
  by (simp add: validate_def validate_version_def validate_job_id_def validate_kind_def
      validate_operation_def validate_payload_def validate_execution_policy_def
      validate_constraints_def demo_defs PROTOCOL_VERSION_def unless_default_def
      constraints_default_def starts_with_def)

lemma demo_validates: "validate_job (demo_registry ms) demo_job = Inr ()"
  using demo_job_valid by (simp add: validate_job_def supports_def) (simp add: demo_defs)

lemma demo_reaches: "reaches_handler (demo_registry ms) demo_job demo_executor"
  by (simp add: reaches_handler_def demo_not_cached demo_validates)

lemma demo_handler_simps [simp]:
  "hd_duration (demo_handler ms) i p = ms"
  "hd_execute (demo_handler ms) i p = Inr \<lparr>hr_output_file = None, hr_artifacts = [], hr_data = 1\<rparr>"
  "jd_operation demo_job = ''guestkit.inspect''" "job_timeout demo_job = 3600"
  "demo_registry ms ''guestkit.inspect'' = Some (demo_handler ms)"
  by (simp_all add: demo_defs)

lemma demo_ok: "fst (execute (demo_registry 10) demo_env demo_job demo_executor) = Inr ()"
proof -
  have "execute (demo_registry 10) demo_env demo_job demo_executor =
      finish demo_env demo_job (Some (Inr \<lparr>hr_output_file = None, hr_artifacts = [], hr_data = 1\<rparr>))
        (returned (demo_handler 10) demo_job demo_executor)"
    using execute_ran [OF demo_not_cached demo_validates, of 10 "demo_handler 10" demo_env] by simp
  moreover have "ex_job (returned (demo_handler 10) demo_job demo_executor) = Running"
    by (simp add: returned_def called_def)
  ultimately show ?thesis
    by (simp add: finish_settled ebind_def write_success_def write_result_def)
      (simp add: demo_env_def)
qed

theorem execute_one_result_witness:
  "\<exists>r. ex_results (snd (execute (demo_registry 10) demo_env demo_job demo_executor)) =
      ex_results demo_executor @ [r] \<and> jr_job_id r = jd_job_id demo_job \<and>
    (if is_ok (fst (execute (demo_registry 10) demo_env demo_job demo_executor))
     then jr_status r = SCompleted \<and> jr_error r = None
     else jr_status r = SFailed \<and> jr_error r \<noteq> None)"
  by (rule execute_one_result) (simp add: demo_env_def, rule demo_not_cached)

theorem active_jobs_gauge_witness:
  "\<exists>m'. ex_metrics (snd (execute Map.empty demo_env demo_job demo_executor)) = Some m' \<and>
    mx_active_jobs m' = mx_active_jobs \<lparr>mx_active_jobs = 0, mx_jobs = [], mx_handlers = []\<rparr> +
      (if cache_hit demo_job demo_executor \<or> validate_job Map.empty demo_job \<noteq> Inr () then 1 else 0)"
  by (rule active_jobs_gauge) (simp add: demo_executor_def)

theorem execute_idempotent_witness:
  "execute Map.empty demo_env demo_job
      (snd (execute (demo_registry 10) demo_env demo_job demo_executor)) =
    (Inr (), begun (snd (execute (demo_registry 10) demo_env demo_job demo_executor)))"
  by (rule execute_idempotent [where key = "''k''"])
    (simp add: demo_defs, rule demo_ok, simp add: demo_defs)

theorem cleanup_only_in_time_witness:
  "ex_cleanups (snd (execute (demo_registry 3600001) demo_env demo_job demo_executor)) =
    ex_cleanups demo_executor @
    (if 1000 * job_timeout demo_job <
        hd_duration (demo_handler 3600001) (jd_job_id demo_job) (jd_payload demo_job)
     then [] else [jd_job_id demo_job])"
  by (rule cleanup_only_in_time [OF demo_reaches]) simp

end
