(* ===== verification/Disk_Reader.thy ===== *)
theory Disk_Reader
  imports GK_Prelude
begin

text \<open>
  Reading disk images, \<^verbatim>\<open>src/disk/reader.rs\<close>, with the crate's error type and \<open>DiskFormat\<close>
  (\<^verbatim>\<open>src/core/error.rs\<close>, \<^verbatim>\<open>src/core/types.rs\<close>).

  An open image is its bytes together with what the operating system does on each call: \<open>dv_seek pos\<close> is the
  error of a seek, if it fails; \<open>dv_fault pos want\<close> the error of a \<open>read\<close> of \<open>want\<close> bytes at a position, if it fails
  or is interrupted; \<open>dv_short pos want\<close> how many bytes a \<open>read\<close> that succeeds returns, brought into the range the
  call guarantees, at least one byte if any is left and never more than asked for.  \<open>read_exact_at\<close> is the code's
  loop; it is shown to be the plain slice of the image, or the first error it meets, whatever those choices are.
\<close>

datatype gk_error =
    EIo string
  | EConversion string
  | EDetection string
  | ECommandFailed string
  | EInvalidFormat string
  | ENotFound string
  | EPermissionDenied string
  | EUnsupported string
  | EConfig string
  | EFfi string
  | EInvalidState string
  | EInvalidOperation string
  | ESecurityViolation string
  | EPathValidation string
  | EInputValidation string
  | EResourceLimit string
  | EUnknown string

datatype disk_format = Qcow2 | Raw | Vmdk | Vhd | Vhdx | Vdi | UnknownFormat

fun disk_format_str :: "disk_format \<Rightarrow> string" where
  "disk_format_str Qcow2 = ''qcow2''"
| "disk_format_str Raw = ''raw''"
| "disk_format_str Vmdk = ''vmdk''"
| "disk_format_str Vhd = ''vhd''"
| "disk_format_str Vhdx = ''vhdx''"
| "disk_format_str Vdi = ''vdi''"
| "disk_format_str UnknownFormat = ''unknown''"

record device =
  dv_bytes :: "byte list"
  dv_short :: "nat \<Rightarrow> nat \<Rightarrow> nat"
  dv_seek :: "nat \<Rightarrow> string option"
  dv_fault :: "nat \<Rightarrow> nat \<Rightarrow> string option"

text \<open>The bytes of an ASCII literal.\<close>

definition ascii :: "string \<Rightarrow> byte list" where
  "ascii s = map (\<lambda>c. word_of_nat (of_char c)) s"

definition seg :: "nat \<Rightarrow> nat \<Rightarrow> 'a list \<Rightarrow> 'a list" where
  "seg off n xs = take n (drop off xs)"

text \<open>The number of bytes of one successful \<open>read\<close>, and the call itself.\<close>

definition read_count :: "device \<Rightarrow> nat \<Rightarrow> nat \<Rightarrow> nat" where
  "read_count d pos want =
     (let avail = min want (length (dv_bytes d) - pos) in
      if avail = 0 then 0 else max 1 (min avail (dv_short d pos want)))"

definition dev_read :: "device \<Rightarrow> nat \<Rightarrow> nat \<Rightarrow> (gk_error, byte list) result" where
  "dev_read d pos want =
     (case dv_fault d pos want of
        Some e \<Rightarrow> Inl (EIo e)
      | None \<Rightarrow> Inr (seg pos (read_count d pos want) (dv_bytes d)))"

definition dev_seek :: "device \<Rightarrow> nat \<Rightarrow> (gk_error, unit) result" where
  "dev_seek d pos = (case dv_seek d pos of Some e \<Rightarrow> Inl (EIo e) | None \<Rightarrow> Inr ())"

definition read_at :: "device \<Rightarrow> u64 \<Rightarrow> nat \<Rightarrow> (gk_error, byte list) result" where
  "read_at d offset n = rbind (dev_seek d (unat offset)) (\<lambda>_. dev_read d (unat offset) n)"

lemma length_seg [simp]: "length (seg off n xs) = min n (length xs - off)"
  by (simp add: seg_def)

lemma seg_append: "seg off m xs @ seg (off + m) n xs = seg off (m + n) xs"
  by (simp add: seg_def take_add add.commute)

lemma read_count_le: "read_count d pos want \<le> want" "read_count d pos want \<le> length (dv_bytes d) - pos"
  by (auto simp: read_count_def Let_def)

lemma read_count_0: "0 < want \<Longrightarrow> read_count d pos want = 0 \<longleftrightarrow> length (dv_bytes d) \<le> pos"
  by (auto simp: read_count_def Let_def)

lemma length_dev_read: "dev_read d pos want = Inr bs \<Longrightarrow> length bs = read_count d pos want"
  using read_count_le [where d = d] by (auto simp: dev_read_def split: option.splits)

definition eof_message :: "nat \<Rightarrow> nat \<Rightarrow> nat \<Rightarrow> string" where
  "eof_message n off got = ''Failed to read '' @ show_nat n @ '' bytes at offset '' @ show_nat off
     @ '', only got '' @ show_nat got @ '' bytes''"

text \<open>The loop of \<open>read_exact_at\<close>: \<open>n\<close> is the buffer size, \<open>got\<close> what has been read so far.\<close>

function read_loop :: "device \<Rightarrow> nat \<Rightarrow> nat \<Rightarrow> byte list \<Rightarrow> (gk_error, byte list) result" where
  "read_loop d off n got =
     (if length got < n then
        (case dev_read d (off + length got) (n - length got) of
           Inl e \<Rightarrow> Inl e
         | Inr bs \<Rightarrow>
             if bs = [] then Inl (EIo (eof_message n off (length got)))
             else read_loop d off n (got @ bs))
      else Inr got)"
  by pat_completeness auto
termination by (relation "measure (\<lambda>(d, off, n, got). n - length got)") (auto intro!: diff_less_mono2)

declare read_loop.simps [simp del]

definition read_exact_at :: "device \<Rightarrow> u64 \<Rightarrow> nat \<Rightarrow> (gk_error, byte list) result" where
  "read_exact_at d offset n = rbind (dev_seek d (unat offset)) (\<lambda>_. read_loop d (unat offset) n [])"

definition detect_format :: "device \<Rightarrow> (gk_error, disk_format) result" where
  "detect_format d =
     rbind (dev_seek d 0) (\<lambda>_. rbind (dev_read d 0 4) (\<lambda>magic.
       Inr (if length magic < 4 then Raw
            else if magic = ascii ''QFI'' @ [0xfb] then Qcow2
            else if take 3 magic = ascii ''KDM'' \<or> take 3 magic = ascii ''COW'' then Vmdk
            else Raw)))"

subsection \<open>The loop reads the slice\<close>

text \<open>The error of the first call that fails, among the calls that reading \<open>n\<close> bytes makes after \<open>k\<close> of them.\<close>

function loop_fault :: "device \<Rightarrow> nat \<Rightarrow> nat \<Rightarrow> nat \<Rightarrow> string option" where
  "loop_fault d off n k =
     (if k < n then
        (case dv_fault d (off + k) (n - k) of
           Some e \<Rightarrow> Some e
         | None \<Rightarrow>
             if read_count d (off + k) (n - k) = 0 then None
             else loop_fault d off n (k + read_count d (off + k) (n - k)))
      else None)"
  by pat_completeness auto
termination by (relation "measure (\<lambda>(d, off, n, k). n - k)") auto

declare loop_fault.simps [simp del]

definition first_fault :: "device \<Rightarrow> nat \<Rightarrow> nat \<Rightarrow> string option" where
  "first_fault d off n = (case dv_seek d off of Some e \<Rightarrow> Some e | None \<Rightarrow> loop_fault d off n 0)"

text \<open>Only the seek and reads inside the requested range are asked.\<close>

lemma first_fault_cause:
  assumes "first_fault d off n = Some e"
  shows "dv_seek d off = Some e \<or> (\<exists>k < n. dv_fault d (off + k) (n - k) = Some e)"
proof -
  have "loop_fault d off n k = Some e \<Longrightarrow> \<exists>k < n. dv_fault d (off + k) (n - k) = Some e" for k
  proof (induction d off n k rule: loop_fault.induct)
    case (1 d off n k)
    note IH = 1(1) and f = 1(2) [unfolded loop_fault.simps [of d off n k]]
    show ?case using IH f by (auto split: if_splits option.splits)
  qed
  then show ?thesis using assms by (auto simp: first_fault_def split: option.splits)
qed

lemma read_loop_slice:
  assumes "got = seg off (length got) (dv_bytes d)" "length got \<le> n" "length got \<le> length (dv_bytes d) - off"
  shows "read_loop d off n got =
    (case loop_fault d off n (length got) of
       Some e \<Rightarrow> Inl (EIo e)
     | None \<Rightarrow> if n \<le> length (dv_bytes d) - off then Inr (seg off n (dv_bytes d))
               else Inl (EIo (eof_message n off (length (dv_bytes d) - off))))"
  using assms
proof (induction d off n got rule: read_loop.induct)
  case (1 d off n got)
  let ?k = "length got" and ?b = "dv_bytes d"
  let ?c = "read_count d (off + ?k) (n - ?k)"
  let ?bs = "seg (off + ?k) ?c ?b"
  show ?case
  proof (cases "?k < n \<and> dv_fault d (off + ?k) (n - ?k) = None")
    case False
    then show ?thesis using "1.prems"
      by (subst read_loop.simps, subst loop_fault.simps) (auto simp: dev_read_def split: option.splits)
  next
    case True
    then have rd: "dev_read d (off + ?k) (n - ?k) = Inr ?bs" by (simp add: dev_read_def)
    have len: "length ?bs = ?c" using length_dev_read [OF rd] .
    show ?thesis
    proof (cases "?c = 0")
      case c: True
      then have "length ?b - off = ?k" using read_count_0 [of "n - ?k" d "off + ?k"] True "1.prems"(3) by simp
      then show ?thesis using True c rd
        by (subst read_loop.simps, subst loop_fault.simps) (simp add: seg_def)
    next
      case c: False
      have ne: "?bs \<noteq> []" using len c by (metis list.size(3))
      have "seg off (?k + ?c) ?b = seg off ?k ?b @ ?bs" by (simp only: seg_append)
      then have g: "got @ ?bs = seg off (length (got @ ?bs)) ?b" using "1.prems"(1) len by (simp only: length_append)
      have b: "?k + ?c \<le> n" "?k + ?c \<le> length ?b - off"
        using read_count_le [of d "off + ?k" "n - ?k"] True "1.prems"(3) by auto
      have "read_loop d off n got = read_loop d off n (got @ ?bs)"
        using True rd ne by (subst read_loop.simps) simp
      moreover have "loop_fault d off n ?k = loop_fault d off n (length (got @ ?bs))"
        using True c len by (subst loop_fault.simps) (simp only: length_append, simp)
      ultimately show ?thesis
        using "1.IH" [OF _ rd ne g] True b len by (simp only: length_append)
    qed
  qed
qed

text \<open>What can be read, and the error otherwise.\<close>

definition can_read :: "device \<Rightarrow> nat \<Rightarrow> nat \<Rightarrow> bool" where
  "can_read d off n \<longleftrightarrow> first_fault d off n = None \<and> n \<le> length (dv_bytes d) - off"

definition read_error :: "device \<Rightarrow> nat \<Rightarrow> nat \<Rightarrow> gk_error" where
  "read_error d off n =
     EIo (case first_fault d off n of Some e \<Rightarrow> e | None \<Rightarrow> eof_message n off (length (dv_bytes d) - off))"

lemma can_readD: "can_read d off n \<Longrightarrow> n \<le> length (dv_bytes d) - off"
  by (simp add: can_read_def)

lemma read_exact_at_seg:
  "read_exact_at d offset n =
     (if can_read d (unat offset) n then Inr (seg (unat offset) n (dv_bytes d)) else Inl (read_error d (unat offset) n))"
proof -
  have "read_loop d (unat offset) n [] =
    (case loop_fault d (unat offset) n 0 of
       Some e \<Rightarrow> Inl (EIo e)
     | None \<Rightarrow> if n \<le> length (dv_bytes d) - unat offset then Inr (seg (unat offset) n (dv_bytes d))
               else Inl (EIo (eof_message n (unat offset) (length (dv_bytes d) - unat offset))))"
    using read_loop_slice [of "[]" "unat offset" d n] by (simp add: seg_def)
  then show ?thesis
    by (simp add: read_exact_at_def dev_seek_def can_read_def read_error_def first_fault_def split: option.split)
qed

lemma read_exact_at_InrD: "read_exact_at d offset n = Inr bs \<Longrightarrow> length bs = n"
  by (auto simp: read_exact_at_seg can_read_def split: if_splits)

subsection \<open>Properties\<close>

text \<open>
  Claim C38.  However the operating system splits the transfer into short reads, reading \<open>n\<close> bytes at an offset gives,
  when the seek or one of the reads it makes fails, the error of the first call that does; otherwise exactly
  the \<open>n\<close> bytes of the image at that offset when it has them, and when it ends before, an error with the number of
  bytes that were there.  The loop always terminates.
\<close>

theorem read_exact_at_equiv:
  "read_exact_at d offset n =
     (case first_fault d (unat offset) n of
        Some e \<Rightarrow> Inl (EIo e)
      | None \<Rightarrow>
          if n \<le> length (dv_bytes d) - unat offset
          then Inr (take n (drop (unat offset) (dv_bytes d)))
          else Inl (EIo (eof_message n (unat offset) (length (dv_bytes d) - unat offset))))"
  by (auto simp: read_exact_at_seg can_read_def read_error_def seg_def split: option.split)

end
