(* ===== verification/Partition_Table.thy ===== *)
theory Partition_Table
  imports Disk_Reader
begin

text \<open>
  The MBR and GPT partition table parser, \<^verbatim>\<open>src/disk/partition.rs\<close>.  Arithmetic on sector numbers is
  on 64-bit words and wraps, as in the release build the crate ships.  \<open>gpt_loop\<close> is the loop over the
  GPT entries, which stops at the first entry that cannot be read.
\<close>

datatype partition_type = MBR | GPT | UnknownTable

record partition =
  pt_number :: u32
  pt_start_lba :: u64
  pt_size_sectors :: u64
  pt_type_id :: u8
  pt_bootable :: bool
  pt_type_guid :: "string option"

record partition_table =
  tb_partitions :: "partition list"
  tb_type :: partition_type

definition is_mbr :: "byte list \<Rightarrow> bool" where
  "is_mbr mbr = (if length mbr < 512 then False else mbr ! 510 = 0x55 \<and> mbr ! 511 = 0xAA)"

definition is_gpt :: "byte list \<Rightarrow> bool" where
  "is_gpt mbr =
     (if length mbr < 512 then False
      else if mbr ! 510 \<noteq> 0x55 \<or> mbr ! 511 \<noteq> 0xAA then False
      else (\<exists>i \<in> set [0..<4]. mbr ! (446 + i * 16 + 4) = 0xEE))"

definition u32_le :: "byte list \<Rightarrow> u32" where
  "u32_le bs = word_of_nat (le_nat bs)"

definition u64_le :: "byte list \<Rightarrow> u64" where
  "u64_le bs = word_of_nat (le_nat bs)"

definition mbr_entry :: "byte list \<Rightarrow> nat \<Rightarrow> partition option" where
  "mbr_entry mbr i =
     (let entry = seg (446 + i * 16) 16 mbr in
      if entry ! 4 = 0 then None
      else Some
        \<lparr>pt_number = word_of_nat (i + 1),
         pt_start_lba = ucast (u32_le (seg 8 4 entry)),
         pt_size_sectors = ucast (u32_le (seg 12 4 entry)),
         pt_type_id = entry ! 4,
         pt_bootable = (entry ! 0 = 0x80),
         pt_type_guid = None\<rparr>)"

definition parse_mbr :: "byte list \<Rightarrow> partition_table" where
  "parse_mbr mbr = \<lparr>tb_partitions = List.map_filter (mbr_entry mbr) [0..<4], tb_type = MBR\<rparr>"

text \<open>Lower-case hexadecimal, two digits per byte.\<close>

definition hex_digit :: "nat \<Rightarrow> char" where
  "hex_digit n = (if n < 10 then char_of (48 + n) else char_of (87 + n))"

definition hex2 :: "byte \<Rightarrow> string" where
  "hex2 b = [hex_digit (unat b div 16), hex_digit (unat b mod 16)]"

definition hex_bytes :: "byte list \<Rightarrow> string" where
  "hex_bytes bs = concat (map hex2 bs)"

text \<open>Sixteen bytes in the 8-4-4-4-12 layout.\<close>

definition uuid_format :: "byte list \<Rightarrow> string" where
  "uuid_format bs = hex_bytes (seg 0 4 bs) @ ''-'' @ hex_bytes (seg 4 2 bs) @ ''-''
     @ hex_bytes (seg 6 2 bs) @ ''-'' @ hex_bytes (seg 8 2 bs) @ ''-'' @ hex_bytes (seg 10 6 bs)"

definition guid_format :: "byte list \<Rightarrow> string" where
  "guid_format e = hex_bytes (rev (seg 0 4 e)) @ ''-'' @ hex_bytes (rev (seg 4 2 e)) @ ''-''
     @ hex_bytes (rev (seg 6 2 e)) @ ''-'' @ hex_bytes (seg 8 2 e) @ ''-'' @ hex_bytes (seg 10 6 e)"

definition gpt_entry :: "nat \<Rightarrow> byte list \<Rightarrow> partition option" where
  "gpt_entry i entry =
     (if \<forall>b \<in> set (take 16 entry). b = 0 then None
      else
        (let start_lba = u64_le (seg 32 8 entry); end_lba = u64_le (seg 40 8 entry) in
         if start_lba = 0 \<and> end_lba = 0 then None
         else if end_lba < start_lba then None
         else Some
           \<lparr>pt_number = word_of_nat (i + 1), pt_start_lba = start_lba,
            pt_size_sectors = end_lba - start_lba + 1, pt_type_id = 0, pt_bootable = False,
            pt_type_guid = Some (guid_format entry)\<rparr>))"

fun gpt_loop :: "device \<Rightarrow> u64 \<Rightarrow> u32 \<Rightarrow> nat list \<Rightarrow> (gk_error, partition list) result" where
  "gpt_loop d entries_offset entry_size [] = Inr []"
| "gpt_loop d entries_offset entry_size (i # is) =
     rbind (read_exact_at d (entries_offset + word_of_nat i * ucast entry_size) (unat entry_size))
       (\<lambda>entry. rbind (gpt_loop d entries_offset entry_size is)
       (\<lambda>ps. Inr (case gpt_entry i entry of None \<Rightarrow> ps | Some p \<Rightarrow> p # ps)))"

definition parse_gpt :: "device \<Rightarrow> (gk_error, partition_table) result" where
  "parse_gpt d =
     rbind (read_exact_at d 512 512) (\<lambda>gpt_header.
     if seg 0 8 gpt_header \<noteq> ascii ''EFI PART'' then Inl (EDetection ''Invalid GPT signature'')
     else
       (let partition_entries_lba = u64_le (seg 72 8 gpt_header);
            num_entries = u32_le (seg 80 4 gpt_header);
            entry_size = u32_le (seg 84 4 gpt_header) in
        if \<not> (48 \<le> entry_size \<and> entry_size \<le> 8192) then
          Inl (EDetection (''Invalid GPT entry size: '' @ show_nat (unat entry_size)))
        else
          rbind (gpt_loop d (partition_entries_lba * 512) entry_size [0..<unat (min num_entries 128)])
            (\<lambda>ps. Inr \<lparr>tb_partitions = ps, tb_type = GPT\<rparr>)))"

definition parse :: "device \<Rightarrow> (gk_error, partition_table) result" where
  "parse d =
     rbind (read_exact_at d 0 512) (\<lambda>mbr_sector.
     if is_gpt mbr_sector then parse_gpt d
     else if is_mbr mbr_sector then Inr (parse_mbr mbr_sector)
     else Inr \<lparr>tb_partitions = [], tb_type = UnknownTable\<rparr>)"

subsection \<open>The loops in closed form\<close>

definition gpt_entry_bytes :: "device \<Rightarrow> u64 \<Rightarrow> u32 \<Rightarrow> nat \<Rightarrow> byte list" where
  "gpt_entry_bytes d entries_offset entry_size i =
     seg (unat (entries_offset + word_of_nat i * ucast entry_size)) (unat entry_size) (dv_bytes d)"

definition gpt_readable :: "device \<Rightarrow> u64 \<Rightarrow> u32 \<Rightarrow> nat \<Rightarrow> bool" where
  "gpt_readable d entries_offset entry_size i \<longleftrightarrow>
     can_read d (unat (entries_offset + word_of_nat i * ucast entry_size)) (unat entry_size)"

lemma map_filter_Cons:
  "List.map_filter f (x # xs) = (case f x of None \<Rightarrow> List.map_filter f xs | Some y \<Rightarrow> y # List.map_filter f xs)"
  by (simp add: List.map_filter_def split: option.split)

lemma map_filter_Nil [simp]: "List.map_filter f [] = []"
  by (simp add: List.map_filter_def)

lemma map_filter_map: "List.map_filter g (map h xs) = List.map_filter (\<lambda>x. g (h x)) xs"
  by (simp add: List.map_filter_def comp_def filter_map)

lemma map_filter_cong:
  "(\<And>x. x \<in> set xs \<Longrightarrow> f x = g x) \<Longrightarrow> List.map_filter f xs = List.map_filter g xs"
  by (simp add: List.map_filter_def cong: filter_cong)

lemma set_map_filter: "set (List.map_filter f xs) = {y. \<exists>x \<in> set xs. f x = Some y}"
  by (induction xs) (auto simp: map_filter_Cons split: option.split)

lemma gpt_loop_Inr:
  "gpt_loop d off es is = Inr ps \<longleftrightarrow>
     (\<forall>i \<in> set is. gpt_readable d off es i) \<and>
     ps = List.map_filter (\<lambda>i. gpt_entry i (gpt_entry_bytes d off es i)) is"
  by (induction "is" arbitrary: ps)
    (auto simp: rbind_eq_Inr read_exact_at_seg gpt_readable_def gpt_entry_bytes_def map_filter_Cons
      split: option.splits)

text \<open>Numbers taken from increasing indices increase.\<close>

lemma sorted_map_filter:
  assumes "sorted_wrt (<) xs" "\<And>x y. x \<in> set xs \<Longrightarrow> f x = Some y \<Longrightarrow> n y = Suc x"
  shows "sorted_wrt (<) (map n (List.map_filter f xs))"
  using assms
proof (induction xs)
  case (Cons x xs)
  have IH: "sorted_wrt (<) (map n (List.map_filter f xs))"
    using Cons.IH Cons.prems by auto
  show ?case
  proof (cases "f x")
    case None
    then show ?thesis using IH by (simp add: map_filter_Cons)
  next
    case (Some y)
    have "n y < n z" if "z \<in> set (List.map_filter f xs)" for z
      using that Some Cons.prems by (fastforce simp: set_map_filter)
    then show ?thesis using IH Some by (simp add: map_filter_Cons)
  qed
qed simp

lemma unat_u32_Suc: "i < 1000 \<Longrightarrow> unat (1 + word_of_nat i :: u32) = Suc i"
proof -
  assume "i < 1000"
  then have "unat (word_of_nat (Suc i) :: u32) = Suc i" by (simp only: unat_of_nat) simp
  then show ?thesis by (simp only: of_nat_Suc)
qed

lemma mbr_entry_number: "i < 4 \<Longrightarrow> mbr_entry mbr i = Some p \<Longrightarrow> unat (pt_number p) = Suc i"
  by (auto simp: mbr_entry_def Let_def unat_u32_Suc split: if_splits)

lemma gpt_entry_number: "i < 128 \<Longrightarrow> gpt_entry i e = Some p \<Longrightarrow> unat (pt_number p) = Suc i"
  by (auto simp: gpt_entry_def Let_def unat_u32_Suc split: if_splits)

lemma length_hex_bytes [simp]: "length (hex_bytes bs) = 2 * length bs"
  by (induction bs) (simp_all add: hex_bytes_def hex2_def)

lemma length_guid_format: "16 \<le> length e \<Longrightarrow> length (guid_format e) = 36"
  by (simp add: guid_format_def)

subsection \<open>What a parsed table looks like\<close>

definition mbr_partition_ok :: "partition \<Rightarrow> bool" where
  "mbr_partition_ok p \<longleftrightarrow> unat (pt_number p) \<in> {1..4} \<and> pt_type_id p \<noteq> 0 \<and> pt_type_guid p = None \<and>
     unat (pt_start_lba p) < 2 ^ 32 \<and> unat (pt_size_sectors p) < 2 ^ 32"

definition gpt_partition_ok :: "partition \<Rightarrow> bool" where
  "gpt_partition_ok p \<longleftrightarrow> unat (pt_number p) \<in> {1..128} \<and> pt_type_id p = 0 \<and> \<not> pt_bootable p \<and>
     (\<exists>g. pt_type_guid p = Some g \<and> length g = 36) \<and>
     unat (pt_start_lba p) + unat (pt_size_sectors p) \<le> 2 ^ 64 \<and>
     (pt_size_sectors p = 0 \<longrightarrow> pt_start_lba p = 0)"

lemma mbr_entry_ok:
  assumes "i < 4" "mbr_entry mbr i = Some p"
  shows "mbr_partition_ok p"
proof -
  have "unat (ucast (w :: u32) :: u64) < 2 ^ 32" for w
  proof -
    have "unat w < 2 ^ LENGTH(32)" by (rule unsigned_less)
    then show ?thesis
      unfolding unsigned_ucast_eq by (intro le_less_trans [OF take_bit_nat_less_eq_self]) simp
  qed
  with assms show ?thesis
    using mbr_entry_number [OF assms]
    by (auto simp: mbr_partition_ok_def mbr_entry_def Let_def split: if_splits)
qed

text \<open>The size of a range of sectors, with the one case in which it does not fit 64 bits.\<close>

lemma range_size:
  fixes a b :: u64
  assumes "a \<le> b"
  shows "unat a + unat (b - a + 1) \<le> 2 ^ 64 \<and> (b - a + 1 = 0 \<longrightarrow> a = 0)"
proof -
  have sub: "unat (b - a) = unat b - unat a" using assms by (simp add: unat_sub)
  have b: "unat b < 2 ^ 64" using unsigned_less [of b] by simp
  show ?thesis
  proof (cases "b - a + 1 = 0")
    case True
    then have "b - a = - 1" by (simp add: eq_neg_iff_add_eq_0)
    then have "unat b - unat a = 2 ^ 64 - 1" using sub by (simp add: unsigned_minus_1_eq_mask mask_eq_exp_minus_1)
    then have "unat b - unat a = 18446744073709551615" "unat b < 18446744073709551616"
      using b by simp_all
    then have "unat a = 0" by arith
    then show ?thesis using True by (simp add: unsigned_eq_0_iff)
  next
    case False
    then have "unat (b - a + 1) = Suc (unat (b - a))" by (simp add: unatSuc add.commute)
    then show ?thesis using False sub b assms by (simp add: word_le_nat_alt)
  qed
qed

lemma gpt_entry_ok:
  assumes "i < 128" "gpt_entry i e = Some p" "16 \<le> length e"
  shows "gpt_partition_ok p"
proof -
  let ?a = "u64_le (seg 32 8 e)" and ?b = "u64_le (seg 40 8 e)"
  have "?a \<le> ?b" "p = \<lparr>pt_number = word_of_nat (i + 1), pt_start_lba = ?a,
      pt_size_sectors = ?b - ?a + 1, pt_type_id = 0, pt_bootable = False,
      pt_type_guid = Some (guid_format e)\<rparr>"
    using assms(2) by (auto simp: gpt_entry_def Let_def split: if_splits)
  then show ?thesis
    using gpt_entry_number [OF assms(1,2)] range_size [of ?a ?b] length_guid_format [OF assms(3)] assms(1)
    by (simp add: gpt_partition_ok_def)
qed

definition table_ok :: "partition_table \<Rightarrow> bool" where
  "table_ok t \<longleftrightarrow> sorted_wrt (<) (map (\<lambda>p. unat (pt_number p)) (tb_partitions t)) \<and>
     (case tb_type t of
        MBR \<Rightarrow> length (tb_partitions t) \<le> 4 \<and> (\<forall>p \<in> set (tb_partitions t). mbr_partition_ok p)
      | GPT \<Rightarrow> length (tb_partitions t) \<le> 128 \<and> (\<forall>p \<in> set (tb_partitions t). gpt_partition_ok p)
      | UnknownTable \<Rightarrow> tb_partitions t = [])"

lemma length_map_filter: "length (List.map_filter f xs) \<le> length xs"
  by (simp add: List.map_filter_def)

lemma parse_mbr_ok: "table_ok (parse_mbr mbr)"
proof -
  have "sorted_wrt (<) (map (\<lambda>p. unat (pt_number p)) (List.map_filter (mbr_entry mbr) [0..<4]))"
    by (rule sorted_map_filter) (auto simp: mbr_entry_number sorted_wrt_upt)
  moreover have "length (List.map_filter (mbr_entry mbr) [0..<4]) \<le> 4"
    using length_map_filter [of "mbr_entry mbr" "[0..<4]"] by simp
  ultimately show ?thesis
    by (auto simp: table_ok_def parse_mbr_def set_map_filter mbr_entry_ok)
qed

lemma gpt_loop_table_ok:
  assumes "gpt_loop d off es [0..<n] = Inr ps" "n \<le> 128" "48 \<le> unat es"
  shows "table_ok \<lparr>tb_partitions = ps, tb_type = GPT\<rparr>"
proof -
  let ?f = "\<lambda>i. gpt_entry i (gpt_entry_bytes d off es i)"
  have ps: "ps = List.map_filter ?f [0..<n]" and rd: "\<forall>i \<in> set [0..<n]. gpt_readable d off es i"
    using assms(1) by (simp_all add: gpt_loop_Inr)
  have "sorted_wrt (<) (map (\<lambda>p. unat (pt_number p)) ps)"
    unfolding ps by (rule sorted_map_filter) (use assms(2) in \<open>auto simp: gpt_entry_number sorted_wrt_upt\<close>)
  moreover have "length ps \<le> 128" using length_map_filter [of ?f "[0..<n]"] assms(2) ps by simp
  moreover have "gpt_partition_ok p" if "p \<in> set ps" for p
  proof -
    have "\<exists>i \<in> set [0..<n]. ?f i = Some p" using that unfolding ps set_map_filter by simp
    then obtain i where i: "i < n" "?f i = Some p" by auto
    then have "16 \<le> length (gpt_entry_bytes d off es i)"
      using rd assms(3) can_readD [of d "unat (off + word_of_nat i * ucast es)" "unat es"]
      by (auto simp: gpt_entry_bytes_def gpt_readable_def)
    moreover have "i < 128" using i(1) assms(2) by simp
    ultimately show ?thesis using gpt_entry_ok i(2) by blast
  qed
  ultimately show ?thesis by (simp add: table_ok_def)
qed

lemma entry_size_range: "48 \<le> (es :: u32) \<longleftrightarrow> 48 \<le> unat es" "es \<le> 8192 \<longleftrightarrow> unat es \<le> 8192"
  by (simp_all add: word_le_nat_alt)

lemma unat_min_128: "unat (min (n :: u32) 128) = min (unat n) 128"
  by (simp add: min_def word_le_nat_alt)

text \<open>The header fields, and what \<open>parse_gpt\<close> needs of the image.\<close>

definition gpt_header :: "device \<Rightarrow> byte list" where
  "gpt_header d = seg 512 512 (dv_bytes d)"

definition gpt_offset :: "device \<Rightarrow> u64" where
  "gpt_offset d = u64_le (seg 72 8 (gpt_header d)) * 512"

definition gpt_count :: "device \<Rightarrow> nat" where
  "gpt_count d = min (unat (u32_le (seg 80 4 (gpt_header d)))) 128"

definition gpt_entry_size :: "device \<Rightarrow> u32" where
  "gpt_entry_size d = u32_le (seg 84 4 (gpt_header d))"

lemma parse_gpt_Inr:
  "parse_gpt d = Inr t \<longleftrightarrow>
     can_read d 512 512 \<and> seg 0 8 (gpt_header d) = ascii ''EFI PART'' \<and>
     unat (gpt_entry_size d) \<in> {48..8192} \<and>
     (\<exists>ps. gpt_loop d (gpt_offset d) (gpt_entry_size d) [0..<gpt_count d] = Inr ps \<and>
       t = \<lparr>tb_partitions = ps, tb_type = GPT\<rparr>)"
  unfolding parse_gpt_def
  by (auto simp: rbind_eq_Inr read_exact_at_seg gpt_header_def [symmetric] Let_def
      gpt_offset_def gpt_count_def gpt_entry_size_def entry_size_range unat_min_128
      split: if_splits)

lemma parse_cases:
  "parse d = Inr t \<longleftrightarrow> can_read d 0 512 \<and>
     (let mbr = seg 0 512 (dv_bytes d) in
      if is_gpt mbr then parse_gpt d = Inr t
      else if is_mbr mbr then t = parse_mbr mbr
      else t = \<lparr>tb_partitions = [], tb_type = UnknownTable\<rparr>)"
  unfolding parse_def
  by (auto simp: rbind_eq_Inr read_exact_at_seg Let_def split: if_splits)

text \<open>The offset of an entry, with the wrap-around of the release build.\<close>

lemma entry_offset_wraps:
  "unat (start * 512 + word_of_nat i * ucast (es :: u32) :: u64) = (unat start * 512 + i * unat es) mod 2 ^ 64"
proof -
  have es: "unat (ucast es :: u64) = unat es"
  proof -
    have "unat es < 2 ^ LENGTH(32)" by (rule unsigned_less)
    then have "unat es < 2 ^ 64" by simp
    then show ?thesis by (simp add: unsigned_ucast_eq take_bit_nat_eq_self)
  qed
  have "(start * 512 + word_of_nat i * ucast es :: u64) = word_of_nat (unat start * 512 + i * unat (ucast es :: u64))"
    by simp
  then show ?thesis by (simp only: es unat_of_nat) simp
qed

subsection \<open>The MBR layout\<close>

text \<open>A boot sector as the MBR format lays it out: boot code, four slots of flag, type, start and
  size, and the signature.\<close>

type_synonym mbr_slot = "bool \<times> u8 \<times> u32 \<times> u32"

fun slot_bytes :: "mbr_slot \<Rightarrow> byte list" where
  "slot_bytes (boot, ty, start, sz) =
     [if boot then 0x80 else 0, 0, 0, 0, ty, 0, 0, 0] @ le_bytes 4 (unat start) @ le_bytes 4 (unat sz)"

definition mbr_image :: "byte list \<Rightarrow> mbr_slot list \<Rightarrow> byte list" where
  "mbr_image code slots = code @ concat (map slot_bytes slots) @ [0x55, 0xAA]"

fun slot_partition :: "nat \<times> mbr_slot \<Rightarrow> partition option" where
  "slot_partition (i, boot, ty, start, sz) =
     (if ty = 0 then None
      else Some \<lparr>pt_number = word_of_nat (i + 1), pt_start_lba = ucast start,
        pt_size_sectors = ucast sz, pt_type_id = ty, pt_bootable = boot, pt_type_guid = None\<rparr>)"

lemma seg_skip: "length xs = m \<Longrightarrow> seg (m + k) n (xs @ ys) = seg k n ys"
  by (simp add: seg_def)

lemma seg_head: "length xs = n \<Longrightarrow> seg 0 n (xs @ ys) = xs"
  by (simp add: seg_def)

lemma length_slot_bytes [simp]: "length (slot_bytes s) = 16"
  by (cases s) simp

lemma u32_le_bytes: "u32_le (le_bytes 4 (unat (w :: u32))) = w"
proof -
  have "unat w < 2 ^ LENGTH(32)" by (rule unsigned_less)
  then show ?thesis by (simp only: u32_le_def le_nat_le_bytes) simp
qed

lemma mbr_image_slot:
  assumes "length code = 446" "i < length slots"
  shows "seg (446 + i * 16) 16 (mbr_image code slots) = slot_bytes (slots ! i)"
proof -
  have sp: "slots = take i slots @ slots ! i # drop (Suc i) slots"
    using assms(2) by (simp add: id_take_nth_drop)
  have "concat (map slot_bytes slots) =
      concat (map slot_bytes (take i slots)) @ slot_bytes (slots ! i) @
      concat (map slot_bytes (drop (Suc i) slots))"
    by (subst (1) sp) (simp only: map_append concat_append list.map concat.simps)
  moreover have "length (concat (map slot_bytes (take i slots))) = i * 16"
    using assms(2) by (simp add: length_concat comp_def sum_list_triv)
  ultimately have "mbr_image code slots =
      (code @ concat (map slot_bytes (take i slots))) @ slot_bytes (slots ! i) @
        concat (map slot_bytes (drop (Suc i) slots)) @ [0x55, 0xAA]"
    and "length (code @ concat (map slot_bytes (take i slots))) = 446 + i * 16"
    using assms(1) by (simp_all add: mbr_image_def)
  then show ?thesis
    using seg_skip [of "code @ concat (map slot_bytes (take i slots))" "446 + i * 16" 0 16]
    by (simp only: add_0_right) (simp only: seg_head length_slot_bytes)
qed

lemma slot_bytes_fields:
  "slot_bytes (boot, ty, start, sz) ! 0 = (if boot then 0x80 else 0)"
  "slot_bytes (boot, ty, start, sz) ! 4 = ty"
  "seg 8 4 (slot_bytes (boot, ty, start, sz)) = le_bytes 4 (unat start)"
  "seg 12 4 (slot_bytes (boot, ty, start, sz)) = le_bytes 4 (unat sz)"
  by (simp_all add: seg_def)

lemma slot_bytes_type: "slot_bytes s ! 4 = fst (snd s)"
  by (cases s) simp

lemma mbr_entry_slot:
  assumes "length code = 446" "i < length slots"
  shows "mbr_entry (mbr_image code slots) i = slot_partition (i, slots ! i)"
proof (cases "slots ! i")
  case (fields boot ty start sz)
  then have "seg (446 + i * 16) 16 (mbr_image code slots) = slot_bytes (boot, ty, start, sz)"
    using mbr_image_slot [OF assms] by simp
  then show ?thesis
    by (simp add: mbr_entry_def Let_def fields slot_bytes_fields u32_le_bytes
        del: slot_bytes.simps le_bytes_numeral)
qed

lemma nth_mbr_image:
  assumes "length code = 446" "i < length slots" "j < 16"
  shows "mbr_image code slots ! (446 + i * 16 + j) = slot_bytes (slots ! i) ! j"
proof -
  have "seg (446 + i * 16) 16 (mbr_image code slots) ! j = mbr_image code slots ! (446 + i * 16 + j)"
    unfolding seg_def using assms(3)
    by (subst nth_take, simp, subst nth_drop) (use assms in \<open>simp_all add: mbr_image_def
        length_concat comp_def sum_list_triv\<close>)
  then show ?thesis using mbr_image_slot [OF assms(1,2)] by simp
qed

lemma mbr_image_signature:
  assumes "length code = 446" "length slots = 4"
  shows "length (mbr_image code slots) = 512" "mbr_image code slots ! 510 = 0x55"
    "mbr_image code slots ! 511 = 0xAA"
  using assms
  by (simp_all add: mbr_image_def length_concat comp_def sum_list_triv nth_append)

lemma mbr_parse:
  assumes "length code = 446" and "length slots = 4"
    and "\<forall>s \<in> set slots. fst (snd s) \<noteq> 0xEE"
    and "dv_bytes d = mbr_image code slots @ rest" and "first_fault d 0 512 = None"
  shows "parse d = Inr \<lparr>tb_partitions = List.map_filter slot_partition (zip [0..<4] slots), tb_type = MBR\<rparr>"
proof -
  let ?m = "mbr_image code slots"
  have seg: "seg 0 512 (dv_bytes d) = ?m"
    using mbr_image_signature(1) [OF assms(1,2)] assms(4) by (simp add: seg_head)
  have "?m ! (446 + i * 16 + 4) \<noteq> 0xEE" if "i < 4" for i
  proof -
    have "slots ! i \<in> set slots" using that assms(2) by simp
    then have "slot_bytes (slots ! i) ! 4 \<noteq> 0xEE" using assms(3) unfolding slot_bytes_type by blast
    then show ?thesis using nth_mbr_image [OF assms(1), of i slots 4] that assms(2) by simp
  qed
  then have "\<not> is_gpt ?m" by (auto simp: is_gpt_def)
  moreover have "is_mbr ?m" using mbr_image_signature [OF assms(1,2)] by (simp add: is_mbr_def)
  moreover have "List.map_filter (mbr_entry ?m) [0..<4] = List.map_filter slot_partition (zip [0..<4] slots)"
  proof -
    have "zip [0..<4] slots = map (\<lambda>i. (i, slots ! i)) [0..<4]"
      using assms(2) by (intro nth_equalityI) simp_all
    then show ?thesis
      using mbr_entry_slot [OF assms(1)] assms(2)
      by (simp only: map_filter_map) (intro map_filter_cong, simp)
  qed
  ultimately show ?thesis
    using mbr_image_signature(1) [OF assms(1,2)] assms(4) seg
    by (simp add: parse_cases Let_def parse_mbr_def can_read_def assms(5))
qed

subsection \<open>Properties\<close>

text \<open>
  Claim C4.  Every table the parser returns is well-formed: partition numbers strictly increase;
  an MBR table has at most four partitions, numbered 1 to 4, none empty, with 32-bit bounds; a
  GPT table has at most 128, numbered 1 to 128, each with a 36-character type GUID and a sector
  range inside 64 bits, of size zero only for the range of all sectors, whose size wraps; an
  unknown table has no partitions.
\<close>

theorem parse_well_formed:
  assumes "parse d = Inr t"
  shows "table_ok t"
proof (cases "is_gpt (seg 0 512 (dv_bytes d))")
  case True
  then have "parse_gpt d = Inr t" using assms by (simp add: parse_cases Let_def)
  then show ?thesis
    using gpt_loop_table_ok [of d "gpt_offset d" "gpt_entry_size d" "gpt_count d"]
    by (auto simp: parse_gpt_Inr gpt_count_def)
next
  case False
  then show ?thesis
    using assms parse_mbr_ok by (auto simp: parse_cases Let_def table_ok_def split: if_splits)
qed

text \<open>
  Claim C36.  Where the parser succeeds, exactly: the first sector can be read without an error, and, if it is a protective
  MBR, so can the second; that has the GPT signature and an entry size of 48 to 8192 bytes; and as many entries as it
  announces, but at most the first 128, can be read at the offsets the code computes, which are the announced start and
  the position of the entry reduced modulo \<open>2\<^sup>6\<^sup>4\<close>.
\<close>

theorem parse_succeeds_iff:
  "is_ok (parse d) \<longleftrightarrow> can_read d 0 512 \<and>
     (if is_gpt (seg 0 512 (dv_bytes d))
      then can_read d 512 512 \<and> seg 0 8 (gpt_header d) = ascii ''EFI PART'' \<and>
        unat (gpt_entry_size d) \<in> {48..8192} \<and>
        list_all (\<lambda>i. can_read d
            ((unat (u64_le (seg 72 8 (gpt_header d))) * 512 + i * unat (gpt_entry_size d)) mod 2 ^ 64) (unat (gpt_entry_size d)))
          [0..<gpt_count d]
      else True)"
proof -
  have "unat (gpt_offset d + word_of_nat i * ucast (gpt_entry_size d)) =
      (unat (u64_le (seg 72 8 (gpt_header d))) * 512 + i * unat (gpt_entry_size d)) mod 2 ^ 64" for i
    unfolding gpt_offset_def by (rule entry_offset_wraps)
  then show ?thesis
    by (auto simp: is_ok_iff parse_cases Let_def parse_gpt_Inr gpt_loop_Inr list_all_iff gpt_readable_def)
qed

text \<open>
  Claim C27.  Parsing inverts the MBR layout: an image whose first sector is read without an error and lays out four slots,
  none of the protective type \<open>0xEE\<close>, parses to exactly the non-empty slots, with their numbers,
  types, boot flags, starts and sizes.
\<close>

theorem mbr_roundtrip:
  assumes "length code = 446" and "length slots = 4"
    and "\<forall>s \<in> set slots. fst (snd s) \<noteq> 0xEE"
    and "dv_bytes d = mbr_image code slots @ rest" and "first_fault d 0 512 = None"
  shows "parse d = Inr \<lparr>tb_partitions = List.map_filter slot_partition (zip [0..<4] slots), tb_type = MBR\<rparr>"
  using assms by (rule mbr_parse)

definition demo_slots :: "mbr_slot list" where
  "demo_slots = [(True, 0x83, 2048, 4096), (False, 0, 0, 0), (False, 0x82, 6144, 512), (False, 0, 0, 0)]"

definition demo_disk :: device where
  "demo_disk = \<lparr>dv_bytes = mbr_image (replicate 446 0) demo_slots @ [7], dv_short = (\<lambda>_ _. 1),
     dv_seek = (\<lambda>_. None), dv_fault = (\<lambda>_ _. None)\<rparr>"

lemma no_fault:
  assumes "dv_seek d = (\<lambda>_. None)" "dv_fault d = (\<lambda>_ _. None)"
  shows "first_fault d off n = None"
proof (cases "first_fault d off n")
  case (Some e)
  then show ?thesis using first_fault_cause [OF Some] assms by simp
qed

lemma demo_disk_no_fault: "first_fault demo_disk off n = None"
  by (rule no_fault) (simp_all add: demo_disk_def)

theorem parse_well_formed_witness:
  "table_ok \<lparr>tb_partitions = List.map_filter slot_partition (zip [0..<4] demo_slots), tb_type = MBR\<rparr>"
  by (rule parse_well_formed [of demo_disk], rule mbr_parse)
    (simp_all add: demo_slots_def demo_disk_no_fault, simp_all add: demo_disk_def demo_slots_def)

theorem mbr_roundtrip_witness:
  "parse demo_disk =
     Inr \<lparr>tb_partitions = List.map_filter slot_partition (zip [0..<4] demo_slots), tb_type = MBR\<rparr>"
  by (rule mbr_roundtrip [where code = "replicate 446 0" and rest = "[7]"])
    (simp_all add: demo_slots_def demo_disk_no_fault, simp_all add: demo_disk_def demo_slots_def)

end
