(* ===== verification/Utf8.thy ===== *)
theory Utf8
  imports GK_Prelude
begin

text \<open>
  UTF-8 as the standard library treats it: \<open>String::from_utf8_lossy\<close>, which replaces each maximal
  malformed piece, and the check \<open>String::from_utf8\<close> and \<open>fs::read_to_string\<close> make.  Text operations
  of \<open>str\<close> that the components share are here too: lines and trimming.
\<close>

definition is_cont :: "byte \<Rightarrow> bool" where
  "is_cont b \<longleftrightarrow> 0x80 \<le> b \<and> b \<le> 0xBF"

text \<open>The allowed second byte after the lead byte of a three- or four-byte sequence.\<close>

definition second_ok :: "byte \<Rightarrow> byte \<Rightarrow> bool" where
  "second_ok lead b =
     (if lead = 0xE0 then 0xA0 \<le> b \<and> b \<le> 0xBF
      else if lead = 0xED then 0x80 \<le> b \<and> b \<le> 0x9F
      else if lead = 0xF0 then 0x90 \<le> b \<and> b \<le> 0xBF
      else if lead = 0xF4 then 0x80 \<le> b \<and> b \<le> 0x8F
      else is_cont b)"

definition seq_len :: "byte \<Rightarrow> nat" where
  "seq_len b = (if b < 0x80 then 1 else if 0xC2 \<le> b \<and> b \<le> 0xDF then 2
     else if 0xE0 \<le> b \<and> b \<le> 0xEF then 3 else if 0xF0 \<le> b \<and> b \<le> 0xF4 then 4 else 0)"

text \<open>The longest prefix of the input that is a prefix of one well-formed sequence.\<close>

definition good_prefix :: "byte \<Rightarrow> byte list \<Rightarrow> byte list" where
  "good_prefix lead rest =
     (case take (seq_len lead - 1) rest of
        [] \<Rightarrow> [lead]
      | b # bs \<Rightarrow>
          if (if seq_len lead = 2 then is_cont b else second_ok lead b)
          then lead # b # takeWhile is_cont bs else [lead])"

function utf8_lossy :: "byte list \<Rightarrow> byte list" where
  "utf8_lossy [] = []"
| "utf8_lossy (lead # rest) =
     (let p = (if seq_len lead = 0 then [lead] else good_prefix lead rest) in
      (if length p = seq_len lead then p else [0xEF, 0xBF, 0xBD]) @ utf8_lossy (drop (length p) (lead # rest)))"
  by pat_completeness auto
termination
proof (relation "measure length", goal_cases)
  case (2 lead rest p)
  then have "0 < length p" by (auto simp: good_prefix_def split: list.splits)
  then show ?case by simp
qed simp

definition to_string :: "byte list \<Rightarrow> string" where
  "to_string bs = map (\<lambda>b. char_of (unat b)) bs"

definition of_string :: "string \<Rightarrow> byte list" where
  "of_string s = map (\<lambda>c. word_of_nat (of_char c)) s"

text \<open>Well-formed text is what the lossy reading leaves alone.\<close>

definition is_utf8 :: "string \<Rightarrow> bool" where
  "is_utf8 s \<longleftrightarrow> utf8_lossy (of_string s) = of_string s"

subsection \<open>Lines and trimming\<close>

definition strip_cr :: "string \<Rightarrow> string" where
  "strip_cr l = (if l \<noteq> [] \<and> last l = CHR 0x0D then butlast l else l)"

text \<open>\<open>str::lines\<close>: a final newline does not start another line, and a carriage return before a
  newline is dropped; one at the very end of the text, without a newline, stays.\<close>

definition lines :: "string \<Rightarrow> string list" where
  "lines s =
     (let ps = split_on (CHR 0x0A) s in
      map strip_cr (butlast ps) @ (if last ps = [] then [] else [last ps]))"

definition is_space :: "char \<Rightarrow> bool" where
  "is_space c \<longleftrightarrow> c \<in> {CHR 0x20, CHR 0x09, CHR 0x0A, CHR 0x0B, CHR 0x0C, CHR 0x0D}"

definition trim_start :: "string \<Rightarrow> string" where
  "trim_start s = dropWhile is_space s"

definition trim :: "string \<Rightarrow> string" where
  "trim s = rev (dropWhile is_space (rev (trim_start s)))"

fun words_from :: "string \<Rightarrow> string \<Rightarrow> string list" where
  "words_from w [] = (if w = [] then [] else [w])"
| "words_from w (c # cs) =
     (if is_space c then (if w = [] then words_from [] cs else w # words_from [] cs)
      else words_from (w @ [c]) cs)"

definition split_whitespace :: "string \<Rightarrow> string list" where
  "split_whitespace s = words_from [] s"

end
