(* ===== verification/File_System.thy ===== *)
theory File_System
  imports Partition_Table Utf8
begin

text \<open>
  Filesystem detection by superblock signatures, \<^verbatim>\<open>src/disk/filesystem.rs\<close>: one definition per detector
  and the dispatch loop, which takes the first detector that succeeds and ignores the errors of the
  others.  \<open>utf8_lossy\<close> is the standard library's \<open>String::from_utf8_lossy\<close>, which the ext detector
  applies to the volume label.  The table \<open>signatures\<close> is the reference the twelve detectors are
  compared with.
\<close>

datatype fs_type =
    Ext | Ntfs | Fat32 | ExFat | Xfs | Btrfs | Zfs | Ufs | HfsPlus | Apfs | Iso9660 | Swap | UnknownFs

record file_system =
  fs_kind :: fs_type
  fs_label :: "string option"
  fs_uuid :: "string option"

definition plain_fs :: "fs_type \<Rightarrow> file_system" where
  "plain_fs t = \<lparr>fs_kind = t, fs_label = None, fs_uuid = None\<rparr>"

subsection \<open>Decoding the label\<close>

definition trim_nul :: "byte list \<Rightarrow> byte list" where
  "trim_nul bs = rev (dropWhile (\<lambda>b. b = 0) (rev bs))"

subsection \<open>Detectors\<close>

definition detect_ext :: "device \<Rightarrow> u64 \<Rightarrow> (gk_error, file_system) result" where
  "detect_ext d off =
     rbind (read_exact_at d (off + 1024) 264) (\<lambda>superblock.
     if superblock ! 56 = 0x53 \<and> superblock ! 57 = 0xEF then
       (let label = to_string (trim_nul (utf8_lossy (seg 120 16 superblock))) in
        Inr \<lparr>fs_kind = Ext, fs_label = (if label = [] then None else Some label),
             fs_uuid = Some (uuid_format (seg 104 16 superblock))\<rparr>)
     else Inl (EDetection ''Not an ext filesystem''))"

definition detect_ntfs :: "device \<Rightarrow> u64 \<Rightarrow> (gk_error, file_system) result" where
  "detect_ntfs d off =
     rbind (read_exact_at d off 512) (\<lambda>boot_sector.
     if seg 3 8 boot_sector = ascii ''NTFS    '' then Inr (plain_fs Ntfs)
     else Inl (EDetection ''Not an NTFS filesystem''))"

definition detect_fat32 :: "device \<Rightarrow> u64 \<Rightarrow> (gk_error, file_system) result" where
  "detect_fat32 d off =
     rbind (read_exact_at d off 512) (\<lambda>boot_sector.
     if 90 \<le> length boot_sector \<and> seg 82 8 boot_sector = ascii ''FAT32   '' then Inr (plain_fs Fat32)
     else Inl (EDetection ''Not a FAT32 filesystem''))"

definition detect_xfs :: "device \<Rightarrow> u64 \<Rightarrow> (gk_error, file_system) result" where
  "detect_xfs d off =
     rbind (read_exact_at d off 512) (\<lambda>superblock.
     if seg 0 4 superblock = ascii ''XFSB'' then Inr (plain_fs Xfs)
     else Inl (EDetection ''Not an XFS filesystem''))"

definition detect_btrfs :: "device \<Rightarrow> u64 \<Rightarrow> (gk_error, file_system) result" where
  "detect_btrfs d off =
     rbind (read_exact_at d (off + 65536) 512) (\<lambda>superblock.
     if seg 64 8 superblock = ascii ''_BHRfS_M'' then Inr (plain_fs Btrfs)
     else Inl (EDetection ''Not a Btrfs filesystem''))"

definition ZFS_UBERBLOCK_MAGIC :: "byte list" where
  "ZFS_UBERBLOCK_MAGIC = [0x0c, 0xb1, 0xba, 0x00]"

definition detect_zfs :: "device \<Rightarrow> u64 \<Rightarrow> (gk_error, file_system) result" where
  "detect_zfs d off =
     rbind (read_exact_at d (off + 131072) 4) (\<lambda>buffer.
     if seg 0 4 buffer = ZFS_UBERBLOCK_MAGIC then Inr (plain_fs Zfs)
     else Inl (EDetection ''Not a ZFS filesystem''))"

definition detect_ufs :: "device \<Rightarrow> u64 \<Rightarrow> (gk_error, file_system) result" where
  "detect_ufs d off =
     rbind (read_exact_at d (off + 65536) 1376) (\<lambda>superblock.
     if 1376 \<le> length superblock \<and> u32_le (seg 1372 4 superblock) = 0x19540119 then Inr (plain_fs Ufs)
     else
       rbind (read_exact_at d (off + 8192) 1376) (\<lambda>superblock1.
       if 1376 \<le> length superblock1 \<and>
          (u32_le (seg 1372 4 superblock1) = 0x011954 \<or> u32_le (seg 1372 4 superblock1) = 0x19540119)
       then Inr (plain_fs Ufs)
       else Inl (EDetection ''Not a UFS filesystem'')))"

definition detect_hfsplus :: "device \<Rightarrow> u64 \<Rightarrow> (gk_error, file_system) result" where
  "detect_hfsplus d off =
     rbind (read_exact_at d (off + 1024) 512) (\<lambda>header.
     if 2 \<le> length header \<and> header ! 0 = 0x48 \<and> (header ! 1 = 0x2B \<or> header ! 1 = 0x58)
     then Inr (plain_fs HfsPlus)
     else Inl (EDetection ''Not an HFS+ filesystem''))"

definition detect_apfs :: "device \<Rightarrow> u64 \<Rightarrow> (gk_error, file_system) result" where
  "detect_apfs d off =
     rbind (read_exact_at d off 4096) (\<lambda>superblock.
     if 36 \<le> length superblock \<and>
        (seg 32 4 superblock = ascii ''NXSB'' \<or> seg 32 4 superblock = ascii ''APSB'')
     then Inr (plain_fs Apfs)
     else Inl (EDetection ''Not an APFS filesystem''))"

definition detect_exfat :: "device \<Rightarrow> u64 \<Rightarrow> (gk_error, file_system) result" where
  "detect_exfat d off =
     rbind (read_exact_at d off 512) (\<lambda>sector.
     if 11 \<le> length sector \<and> seg 3 8 sector = ascii ''EXFAT   '' then Inr (plain_fs ExFat)
     else Inl (EDetection ''Not an exFAT filesystem''))"

definition detect_iso9660 :: "device \<Rightarrow> u64 \<Rightarrow> (gk_error, file_system) result" where
  "detect_iso9660 d off =
     rbind (read_exact_at d (off + 0x8000) 2048) (\<lambda>b.
     if 6 \<le> length b \<and> seg 1 5 b = ascii ''CD001'' then Inr (plain_fs Iso9660)
     else Inl (EDetection ''Not an ISO9660 filesystem''))"

definition detect_swap :: "device \<Rightarrow> u64 \<Rightarrow> (gk_error, file_system) result" where
  "detect_swap d off =
     rbind (read_exact_at d off 4096) (\<lambda>b.
     if 4096 \<le> length b \<and> seg 4086 10 b = ascii ''SWAPSPACE2'' then Inr (plain_fs Swap)
     else if 4096 \<le> length b \<and> seg 4086 10 b = ascii ''SWAP-SPACE'' then Inr (plain_fs Swap)
     else Inl (EDetection ''Not a swap partition''))"

definition detectors :: "(device \<Rightarrow> u64 \<Rightarrow> (gk_error, file_system) result) list" where
  "detectors = [detect_ext, detect_ntfs, detect_fat32, detect_exfat, detect_xfs, detect_btrfs,
     detect_zfs, detect_ufs, detect_hfsplus, detect_apfs, detect_iso9660, detect_swap]"

fun try_detectors ::
  "(device \<Rightarrow> u64 \<Rightarrow> (gk_error, file_system) result) list \<Rightarrow> device \<Rightarrow> u64 \<Rightarrow> file_system" where
  "try_detectors [] d off = plain_fs UnknownFs"
| "try_detectors (f # fs) d off = (case f d off of Inr r \<Rightarrow> r | Inl _ \<Rightarrow> try_detectors fs d off)"

definition detect :: "device \<Rightarrow> partition \<Rightarrow> (gk_error, file_system) result" where
  "detect d p =
     (if 2 ^ 64 \<le> unat (pt_start_lba p) * 512 then
        Inl (EDetection (''Integer overflow computing partition offset: start_lba=''
               @ show_nat (unat (pt_start_lba p)) @ '' * 512''))
      else
        (let offset = pt_start_lba p * 512 in
         if 2 ^ 64 \<le> unat offset + (65536 + 1376) then
           Inl (EDetection (''Partition offset '' @ show_nat (unat offset)
                  @ '' is too large, would overflow during filesystem detection''))
         else Inr (try_detectors detectors d offset)))"

subsection \<open>The signature table\<close>

text \<open>A probe reads \<open>len\<close> bytes at \<open>rel\<close> from the start of the partition and looks for one of
  the patterns at position \<open>at\<close> of what it read.  A filesystem is recognised by the first of its
  probes that matches, and given up at the first that cannot be read.\<close>

type_synonym probe = "u64 \<times> nat \<times> nat \<times> byte list list"

fun probe_block :: "device \<Rightarrow> u64 \<Rightarrow> probe \<Rightarrow> byte list option" where
  "probe_block d off (rel, n, at, pats) =
     (if can_read d (unat (off + rel)) n
      then Some (seg (unat (off + rel)) n (dv_bytes d)) else None)"

fun probe_match :: "probe \<Rightarrow> byte list \<Rightarrow> bool" where
  "probe_match (rel, n, at, pats) b = (\<exists>p \<in> set pats. seg at (length p) b = p)"

fun recognised :: "device \<Rightarrow> u64 \<Rightarrow> probe list \<Rightarrow> bool" where
  "recognised d off [] = False"
| "recognised d off (p # ps) =
     (case probe_block d off p of
        None \<Rightarrow> False
      | Some b \<Rightarrow> if probe_match p b then True else recognised d off ps)"

definition signatures :: "(fs_type \<times> probe list) list" where
  "signatures =
     [(Ext, [(1024, 264, 56, [[0x53, 0xEF]])]),
      (Ntfs, [(0, 512, 3, [ascii ''NTFS    ''])]),
      (Fat32, [(0, 512, 82, [ascii ''FAT32   ''])]),
      (ExFat, [(0, 512, 3, [ascii ''EXFAT   ''])]),
      (Xfs, [(0, 512, 0, [ascii ''XFSB''])]),
      (Btrfs, [(65536, 512, 64, [ascii ''_BHRfS_M''])]),
      (Zfs, [(131072, 4, 0, [[0x0c, 0xb1, 0xba, 0x00]])]),
      (Ufs, [(65536, 1376, 1372, [[0x19, 0x01, 0x54, 0x19]]),
             (8192, 1376, 1372, [[0x54, 0x19, 0x01, 0x00], [0x19, 0x01, 0x54, 0x19]])]),
      (HfsPlus, [(1024, 512, 0, [[0x48, 0x2B], [0x48, 0x58]])]),
      (Apfs, [(0, 4096, 32, [ascii ''NXSB'', ascii ''APSB''])]),
      (Iso9660, [(0x8000, 2048, 1, [ascii ''CD001''])]),
      (Swap, [(0, 4096, 4086, [ascii ''SWAPSPACE2'', ascii ''SWAP-SPACE''])])]"

text \<open>A detector implements a table row if it succeeds exactly when the row's probes do, and
  then names the row's type.\<close>

definition implements :: "(device \<Rightarrow> u64 \<Rightarrow> (gk_error, file_system) result) \<Rightarrow> fs_type \<times> probe list \<Rightarrow> bool" where
  "implements f row \<longleftrightarrow> (\<forall>d off. (if recognised d off (snd row)
      then (\<exists>r. f d off = Inr r \<and> fs_kind r = fst row) else (\<exists>e. f d off = Inl e)))"

lemma u32_le_eq:
  assumes "length bs = 4"
  shows "u32_le bs = w \<longleftrightarrow> bs = le_bytes 4 (unat w)"
proof
  have lt: "le_nat bs < 2 ^ 32" using le_nat_less [of bs] assms by simp
  assume "u32_le bs = w"
  then have "unat w = le_nat bs" using lt by (auto simp: u32_le_def unat_of_nat)
  then show "bs = le_bytes 4 (unat w)" using le_bytes_le_nat [of bs] assms by simp
qed (simp add: u32_le_bytes del: le_bytes_numeral)

lemma seg_two: "Suc i < length b \<Longrightarrow> seg i 2 b = [x, y] \<longleftrightarrow> b ! i = x \<and> b ! Suc i = y"
  by (auto simp: seg_def Cons_nth_drop_Suc [symmetric] numeral_2_eq_2)

text \<open>The lengths of the patterns, as the simplifier computes them.\<close>

lemma pattern_lengths:
  "(2 :: nat) = Suc (Suc 0)" "(4 :: nat) = Suc (Suc (Suc (Suc 0)))" "(5 :: nat) = Suc (Suc (Suc (Suc (Suc 0))))"
  "(8 :: nat) = Suc (Suc (Suc (Suc (Suc (Suc (Suc (Suc 0)))))))"
  "(10 :: nat) = Suc (Suc (Suc (Suc (Suc (Suc (Suc (Suc (Suc (Suc 0)))))))))"
  by simp_all

lemma length_ascii [simp]: "length (ascii s) = length s"
  by (simp add: ascii_def)

lemmas detector_defs = detect_ntfs_def detect_fat32_def detect_exfat_def detect_xfs_def
  detect_btrfs_def detect_zfs_def detect_apfs_def detect_iso9660_def detect_swap_def
  ZFS_UBERBLOCK_MAGIC_def

lemma implements_simple:
  "implements detect_ntfs (Ntfs, [(0, 512, 3, [ascii ''NTFS    ''])])"
  "implements detect_fat32 (Fat32, [(0, 512, 82, [ascii ''FAT32   ''])])"
  "implements detect_exfat (ExFat, [(0, 512, 3, [ascii ''EXFAT   ''])])"
  "implements detect_xfs (Xfs, [(0, 512, 0, [ascii ''XFSB''])])"
  "implements detect_btrfs (Btrfs, [(65536, 512, 64, [ascii ''_BHRfS_M''])])"
  "implements detect_zfs (Zfs, [(131072, 4, 0, [[0x0c, 0xb1, 0xba, 0x00]])])"
  "implements detect_apfs (Apfs, [(0, 4096, 32, [ascii ''NXSB'', ascii ''APSB''])])"
  "implements detect_iso9660 (Iso9660, [(0x8000, 2048, 1, [ascii ''CD001''])])"
  "implements detect_swap (Swap, [(0, 4096, 4086, [ascii ''SWAPSPACE2'', ascii ''SWAP-SPACE''])])"
  by (simp_all add: implements_def detector_defs read_exact_at_seg can_read_def plain_fs_def rbind_def pattern_lengths)

lemma implements_ext: "implements detect_ext (Ext, [(1024, 264, 56, [[0x53, 0xEF]])])"
  by (simp add: implements_def detect_ext_def read_exact_at_seg can_read_def rbind_def Let_def seg_two [unfolded pattern_lengths])

lemma implements_hfsplus: "implements detect_hfsplus (HfsPlus, [(1024, 512, 0, [[0x48, 0x2B], [0x48, 0x58]])])"
  by (auto simp: implements_def detect_hfsplus_def read_exact_at_seg can_read_def rbind_def plain_fs_def
      seg_two [unfolded pattern_lengths])

lemma ufs_magic:
  assumes "length b = 1376"
  shows "u32_le (seg 1372 4 b) = 0x19540119 \<longleftrightarrow> seg 1372 4 b = [0x19, 0x01, 0x54, 0x19]"
    and "u32_le (seg 1372 4 b) = 0x011954 \<longleftrightarrow> seg 1372 4 b = [0x54, 0x19, 0x01, 0x00]"
  using assms by (simp_all add: u32_le_eq)

lemma implements_ufs:
  "implements detect_ufs (Ufs, [(65536, 1376, 1372, [[0x19, 0x01, 0x54, 0x19]]),
     (8192, 1376, 1372, [[0x54, 0x19, 0x01, 0x00], [0x19, 0x01, 0x54, 0x19]])])"
proof -
  have four: "seg 1372 (Suc (Suc (Suc (Suc 0)))) b = seg 1372 4 b" for b :: "byte list"
    by (simp only: pattern_lengths)
  show ?thesis
    unfolding implements_def detect_ufs_def rbind_def
    by (simp add: read_exact_at_seg can_read_def plain_fs_def ufs_magic four)
qed

lemma detectors_implement: "list_all2 implements detectors signatures"
  unfolding detectors_def signatures_def
  using implements_simple by (simp add: implements_ext implements_ufs implements_hfsplus)

lemma try_detectors_first:
  "list_all2 implements fs rows \<Longrightarrow>
     fs_kind (try_detectors fs d off) =
       (case find (\<lambda>row. recognised d off (snd row)) rows of Some row \<Rightarrow> fst row | None \<Rightarrow> UnknownFs)"
proof (induction fs rows rule: list_all2_induct)
  case (Cons f fs row rows)
  show ?case
  proof (cases "recognised d off (snd row)")
    case True
    then obtain r where "f d off = Inr r" "fs_kind r = fst row"
      using Cons.hyps(1) unfolding implements_def by (metis (full_types))
    with True show ?thesis by simp
  next
    case False
    then obtain e where "f d off = Inl e"
      using Cons.hyps(1) unfolding implements_def by (metis (full_types))
    with False Cons.IH show ?thesis by simp
  qed
qed (simp add: plain_fs_def)

lemma offset_no_wrap:
  "unat (s :: u64) * 512 < 2 ^ 64 \<Longrightarrow> unat (s * 512) = unat s * 512"
  by (simp add: unat_word_ariths)

lemma detect_ok:
  "detect d p = Inr r \<longleftrightarrow>
     unat (pt_start_lba p) * 512 + 66912 < 2 ^ 64 \<and> r = try_detectors detectors d (pt_start_lba p * 512)"
  using offset_no_wrap [of "pt_start_lba p"] by (auto simp: detect_def Let_def not_le)

subsection \<open>Properties\<close>

text \<open>
  Claim C28.  Detection is the signature table read from the top: it fails only when the partition
  starts within 66912 bytes of the end of the 64-bit address range, and otherwise returns the type
  of the first row of the table whose probe recognises the partition, or unknown if there is none;
  a detector's read error never surfaces.
\<close>

theorem detect_first_signature:
  "(is_ok (detect d p) \<longleftrightarrow> unat (pt_start_lba p) * 512 + 66912 < 2 ^ 64) \<and>
   (case detect d p of Inl _ \<Rightarrow> True | Inr r \<Rightarrow>
      fs_kind r =
        (case find (\<lambda>row. recognised d (pt_start_lba p * 512) (snd row)) signatures of
           Some row \<Rightarrow> fst row | None \<Rightarrow> UnknownFs))"
proof -
  have "detect d p = Inr r \<Longrightarrow> r = try_detectors detectors d (pt_start_lba p * 512)" for r
    by (simp add: detect_ok)
  then show ?thesis
    using try_detectors_first [OF detectors_implement]
    by (auto simp: is_ok_iff detect_ok split: sum.split)
qed

text \<open>
  The overflow guard does not cover the ZFS probe, 128 KiB into the partition: a
  partition that claims to start 128 KiB before the end of the address range passes the guard,
  the probe's offset wraps to the start of the disk, and a magic number found there makes the
  partition a ZFS one.
\<close>

theorem zfs_probe_wraps:
  assumes "pt_start_lba p = 2 ^ 55 - 256" and "take 4 (dv_bytes d) = ZFS_UBERBLOCK_MAGIC"
    and "length (dv_bytes d) < 2 ^ 63" and "first_fault d 0 4 = None"
  shows "detect d p = Inr (plain_fs Zfs)"
proof -
  have start: "pt_start_lba p = 36028797018963712" using assms(1) by simp
  have len: "4 \<le> length (dv_bytes d)"
    using arg_cong [OF assms(2), of length] by (simp add: ZFS_UBERBLOCK_MAGIC_def)
  have "length (dv_bytes d) < 9223372036854775808" using assms(3) by simp
  then have "try_detectors detectors d (pt_start_lba p * 512) = plain_fs Zfs"
    unfolding detectors_def start
    using assms(2) len
    by (simp add: detect_ext_def detect_ntfs_def detect_fat32_def detect_exfat_def detect_xfs_def
        detect_btrfs_def detect_zfs_def read_exact_at_seg seg_def ZFS_UBERBLOCK_MAGIC_def can_read_def assms(4))
  then show ?thesis by (simp add: detect_ok start)
qed

theorem zfs_probe_wraps_witness:
  "detect \<lparr>dv_bytes = [0x0c, 0xb1, 0xba, 0x00, 7], dv_short = (\<lambda>_ n. n), dv_seek = (\<lambda>_. None), dv_fault = (\<lambda>_ _. None)\<rparr>
     \<lparr>pt_number = 1, pt_start_lba = 2 ^ 55 - 256, pt_size_sectors = 1, pt_type_id = 0,
      pt_bootable = False, pt_type_guid = None\<rparr> = Inr (plain_fs Zfs)"
  by (rule zfs_probe_wraps) (simp_all add: ZFS_UBERBLOCK_MAGIC_def no_fault)

end
