(* ===== verification/Rpc.thy ===== *)
theory Rpc
  imports Agent_Error
begin

text \<open>
  The agent's JSON-RPC vocabulary, \<^verbatim>\<open>crates/guestkit-agent-protocol/src/rpc.rs\<close> and
  \<^verbatim>\<open>capabilities.rs\<close>: the wire names of the methods, the method enum, the two levels of
  \<open>match\<close> that turn a wire name into a method (canonical names, then the dotted aliases), the
  methods that change guest state, requests and responses, and the capabilities the agent
  advertises.  JSON values are the type parameter \<open>'v\<close>; reading a request from bytes is
  serde's and stays a parameter of the handler.  A \<open>match\<close> on string constants is an association
  list searched in order.
\<close>

subsection \<open>Wire names\<close>

definition PROTOCOL_VERSION :: string where
  "PROTOCOL_VERSION = ''1.3''"

definition METHOD_PING :: string where
  "METHOD_PING = ''guestkit.ping''"

definition METHOD_GET_VERSION :: string where
  "METHOD_GET_VERSION = ''guestkit.getVersion''"

definition METHOD_GET_CAPABILITIES :: string where
  "METHOD_GET_CAPABILITIES = ''guestkit.getCapabilities''"

definition METHOD_GET_EVIDENCE :: string where
  "METHOD_GET_EVIDENCE = ''guestkit.getEvidence''"

definition METHOD_DOCTOR :: string where
  "METHOD_DOCTOR = ''guestkit.doctor''"

definition METHOD_MIGRATE_SCORE :: string where
  "METHOD_MIGRATE_SCORE = ''guestkit.migrateScore''"

definition METHOD_RUN_FIX_PLAN :: string where
  "METHOD_RUN_FIX_PLAN = ''guestkit.runFixPlan''"

definition METHOD_RUN_FIX_PLAN_ROLLBACK :: string where
  "METHOD_RUN_FIX_PLAN_ROLLBACK = ''guestkit.runFixPlanRollback''"

definition METHOD_GET_STATUS :: string where
  "METHOD_GET_STATUS = ''guestkit.getStatus''"

definition METHOD_GET_METRICS :: string where
  "METHOD_GET_METRICS = ''guestkit.getMetrics''"

definition METHOD_GET_FILESYSTEM :: string where
  "METHOD_GET_FILESYSTEM = ''guestkit.getFilesystem''"

definition METHOD_EXEC :: string where
  "METHOD_EXEC = ''guestkit.exec''"

definition METHOD_ENABLE_RDP :: string where
  "METHOD_ENABLE_RDP = ''guestkit.enableRdp''"

definition METHOD_DISABLE_RDP :: string where
  "METHOD_DISABLE_RDP = ''guestkit.disableRdp''"

definition METHOD_GET_GUEST_HEALTH :: string where
  "METHOD_GET_GUEST_HEALTH = ''guestkit.getGuestHealth''"

definition METHOD_GET_SYSTEMD_UNITS :: string where
  "METHOD_GET_SYSTEMD_UNITS = ''guestkit.getSystemdUnits''"

definition METHOD_GET_FAILED_UNITS :: string where
  "METHOD_GET_FAILED_UNITS = ''guestkit.getFailedUnits''"

definition METHOD_GET_BOOT_ANALYSIS :: string where
  "METHOD_GET_BOOT_ANALYSIS = ''guestkit.getBootAnalysis''"

definition METHOD_GET_JOURNAL_SLICE :: string where
  "METHOD_GET_JOURNAL_SLICE = ''guestkit.getJournalSlice''"

definition METHOD_GET_LOGIN_STATE :: string where
  "METHOD_GET_LOGIN_STATE = ''guestkit.getLoginState''"

definition METHOD_GET_DNS_STATE :: string where
  "METHOD_GET_DNS_STATE = ''guestkit.getDnsState''"

definition METHOD_GET_TIMEDATE_STATE :: string where
  "METHOD_GET_TIMEDATE_STATE = ''guestkit.getTimedateState''"

definition METHOD_GET_SNAPSHOT_READINESS :: string where
  "METHOD_GET_SNAPSHOT_READINESS = ''guestkit.getSnapshotReadiness''"

definition METHOD_FREEZE_FILESYSTEM :: string where
  "METHOD_FREEZE_FILESYSTEM = ''guestkit.freezeFilesystem''"

definition METHOD_THAW_FILESYSTEM :: string where
  "METHOD_THAW_FILESYSTEM = ''guestkit.thawFilesystem''"

definition METHOD_RESTART_UNIT :: string where
  "METHOD_RESTART_UNIT = ''guestkit.restartUnit''"

definition METHOD_EXECUTE_REMEDIATION_PLAN :: string where
  "METHOD_EXECUTE_REMEDIATION_PLAN = ''guestkit.executeRemediationPlan''"

definition METHOD_COLLECT_SUPPORT_BUNDLE :: string where
  "METHOD_COLLECT_SUPPORT_BUNDLE = ''guestkit.collectSupportBundle''"

definition METHOD_GET_GUEST_INFO :: string where
  "METHOD_GET_GUEST_INFO = ''guestkit.getGuestInfo''"

definition METHOD_GET_SYSTEMD_UNIT :: string where
  "METHOD_GET_SYSTEMD_UNIT = ''guestkit.getSystemdUnit''"

definition METHOD_GET_SYSTEMD_EVENTS :: string where
  "METHOD_GET_SYSTEMD_EVENTS = ''guestkit.getSystemdEvents''"

definition METHOD_GET_PROCESSES :: string where
  "METHOD_GET_PROCESSES = ''guestkit.getProcesses''"

definition METHOD_GET_AGENT_HEALTH :: string where
  "METHOD_GET_AGENT_HEALTH = ''guestkit.getAgentHealth''"

definition METHOD_SUBSCRIBE_EVENTS :: string where
  "METHOD_SUBSCRIBE_EVENTS = ''guestkit.subscribeEvents''"

definition METHOD_UNSUBSCRIBE_EVENTS :: string where
  "METHOD_UNSUBSCRIBE_EVENTS = ''guestkit.unsubscribeEvents''"

definition METHOD_GET_CPU_STATS :: string where
  "METHOD_GET_CPU_STATS = ''guestkit.getCpuStats''"

definition METHOD_GET_MEMORY_STATS :: string where
  "METHOD_GET_MEMORY_STATS = ''guestkit.getMemoryStats''"

definition METHOD_GET_PERFORMANCE_SUMMARY :: string where
  "METHOD_GET_PERFORMANCE_SUMMARY = ''guestkit.getPerformanceSummary''"

definition METHOD_GET_PERFORMANCE_HISTORY :: string where
  "METHOD_GET_PERFORMANCE_HISTORY = ''guestkit.getPerformanceHistory''"

definition METHOD_START_UNIT :: string where
  "METHOD_START_UNIT = ''guestkit.startUnit''"

definition METHOD_STOP_UNIT :: string where
  "METHOD_STOP_UNIT = ''guestkit.stopUnit''"

definition METHOD_GET_PROCESS :: string where
  "METHOD_GET_PROCESS = ''guestkit.getProcess''"

definition METHOD_NETWORK_TEST :: string where
  "METHOD_NETWORK_TEST = ''guestkit.networkTest''"

definition METHOD_NETWORK_CONNECTIONS :: string where
  "METHOD_NETWORK_CONNECTIONS = ''guestkit.network.connections''"

definition METHOD_SECURITY_POSTURE :: string where
  "METHOD_SECURITY_POSTURE = ''guestkit.security.posture''"

definition METHOD_INTEGRITY_BASELINE :: string where
  "METHOD_INTEGRITY_BASELINE = ''guestkit.integrity.baseline''"

definition METHOD_INTEGRITY_CHECK :: string where
  "METHOD_INTEGRITY_CHECK = ''guestkit.integrity.check''"

definition METHOD_STORAGE_RESCAN :: string where
  "METHOD_STORAGE_RESCAN = ''guestkit.storageRescan''"

definition METHOD_STORAGE_TRIM :: string where
  "METHOD_STORAGE_TRIM = ''guestkit.storageTrim''"

definition METHOD_STORAGE_EXPAND :: string where
  "METHOD_STORAGE_EXPAND = ''guestkit.storageExpand''"

definition METHOD_FILE_READ :: string where
  "METHOD_FILE_READ = ''guestkit.fileRead''"

definition METHOD_FILE_WRITE :: string where
  "METHOD_FILE_WRITE = ''guestkit.fileWrite''"

definition METHOD_FILE_STAT :: string where
  "METHOD_FILE_STAT = ''guestkit.fileStat''"

definition METHOD_FILE_LIST :: string where
  "METHOD_FILE_LIST = ''guestkit.fileList''"

definition METHOD_FILE_CHECKSUM :: string where
  "METHOD_FILE_CHECKSUM = ''guestkit.fileChecksum''"

definition METHOD_SET_TIME :: string where
  "METHOD_SET_TIME = ''guestkit.setTime''"

definition METHOD_TIME_SYNC_NOW :: string where
  "METHOD_TIME_SYNC_NOW = ''guestkit.timeSyncNow''"

definition METHOD_REBOOT :: string where
  "METHOD_REBOOT = ''guestkit.reboot''"

definition METHOD_SHUTDOWN :: string where
  "METHOD_SHUTDOWN = ''guestkit.shutdown''"

definition METHOD_SNAPSHOT_PREPARE :: string where
  "METHOD_SNAPSHOT_PREPARE = ''guestkit.snapshot.prepare''"

definition METHOD_SNAPSHOT_COMPLETE :: string where
  "METHOD_SNAPSHOT_COMPLETE = ''guestkit.snapshot.complete''"

definition METHOD_CONTAINERS_INVENTORY :: string where
  "METHOD_CONTAINERS_INVENTORY = ''guestkit.containers.inventory''"

definition METHOD_INVENTORY_CACHE_WRITE :: string where
  "METHOD_INVENTORY_CACHE_WRITE = ''guestkit.inventory.cacheSnapshot''"

definition METHOD_PACKAGES_INVENTORY :: string where
  "METHOD_PACKAGES_INVENTORY = ''guestkit.packages.inventory''"

definition METHOD_PACKAGES_UPDATES :: string where
  "METHOD_PACKAGES_UPDATES = ''guestkit.packages.updates''"

definition METHOD_PACKAGES_INSTALL :: string where
  "METHOD_PACKAGES_INSTALL = ''guestkit.packages.install''"

definition METHOD_CERTIFICATES_INVENTORY :: string where
  "METHOD_CERTIFICATES_INVENTORY = ''guestkit.certificates.inventory''"

definition METHOD_USERS_INVENTORY :: string where
  "METHOD_USERS_INVENTORY = ''guestkit.users.inventory''"

definition METHOD_SET_HOSTNAME :: string where
  "METHOD_SET_HOSTNAME = ''guestkit.system.setHostname''"

definition METHOD_SET_TIMEZONE :: string where
  "METHOD_SET_TIMEZONE = ''guestkit.system.setTimezone''"

definition METHOD_SET_DNS :: string where
  "METHOD_SET_DNS = ''guestkit.system.setDns''"

definition METHOD_MIGRATION_ASSESS :: string where
  "METHOD_MIGRATION_ASSESS = ''guestkit.migration.assess''"

definition METHOD_MIGRATION_PLAN :: string where
  "METHOD_MIGRATION_PLAN = ''guestkit.migration.plan''"

definition METHOD_MIGRATION_REPAIR :: string where
  "METHOD_MIGRATION_REPAIR = ''guestkit.migration.repair''"

definition METHOD_MIGRATION_PRE_CHECK :: string where
  "METHOD_MIGRATION_PRE_CHECK = ''guestkit.migration.preCheck''"

definition METHOD_MIGRATION_CUTOVER_ENTER :: string where
  "METHOD_MIGRATION_CUTOVER_ENTER = ''guestkit.migration.cutoverEnter''"

definition METHOD_MIGRATION_CUTOVER_EXIT :: string where
  "METHOD_MIGRATION_CUTOVER_EXIT = ''guestkit.migration.cutoverExit''"

definition METHOD_MIGRATION_VALIDATE :: string where
  "METHOD_MIGRATION_VALIDATE = ''guestkit.migration.validate''"

definition METHOD_BASELINE_CAPTURE :: string where
  "METHOD_BASELINE_CAPTURE = ''guestkit.baseline.capture''"

definition METHOD_BASELINE_DIFF :: string where
  "METHOD_BASELINE_DIFF = ''guestkit.baseline.diff''"

definition METHOD_NETPOLICY_APPLY :: string where
  "METHOD_NETPOLICY_APPLY = ''guestkit.netpolicy.apply''"

definition METHOD_NETPOLICY_STATUS :: string where
  "METHOD_NETPOLICY_STATUS = ''guestkit.netpolicy.status''"

definition METHOD_LSM_APPLY :: string where
  "METHOD_LSM_APPLY = ''guestkit.lsm.apply''"

definition METHOD_LSM_STATUS :: string where
  "METHOD_LSM_STATUS = ''guestkit.lsm.status''"

lemmas method_names =
  METHOD_PING_def METHOD_GET_VERSION_def METHOD_GET_CAPABILITIES_def METHOD_GET_EVIDENCE_def
  METHOD_DOCTOR_def METHOD_MIGRATE_SCORE_def METHOD_RUN_FIX_PLAN_def
  METHOD_RUN_FIX_PLAN_ROLLBACK_def METHOD_GET_STATUS_def METHOD_GET_METRICS_def
  METHOD_GET_FILESYSTEM_def METHOD_EXEC_def METHOD_ENABLE_RDP_def METHOD_DISABLE_RDP_def
  METHOD_GET_GUEST_HEALTH_def METHOD_GET_SYSTEMD_UNITS_def METHOD_GET_FAILED_UNITS_def
  METHOD_GET_BOOT_ANALYSIS_def METHOD_GET_JOURNAL_SLICE_def METHOD_GET_LOGIN_STATE_def
  METHOD_GET_DNS_STATE_def METHOD_GET_TIMEDATE_STATE_def METHOD_GET_SNAPSHOT_READINESS_def
  METHOD_FREEZE_FILESYSTEM_def METHOD_THAW_FILESYSTEM_def METHOD_RESTART_UNIT_def
  METHOD_EXECUTE_REMEDIATION_PLAN_def METHOD_COLLECT_SUPPORT_BUNDLE_def METHOD_GET_GUEST_INFO_def
  METHOD_GET_SYSTEMD_UNIT_def METHOD_GET_SYSTEMD_EVENTS_def METHOD_GET_PROCESSES_def
  METHOD_GET_AGENT_HEALTH_def METHOD_SUBSCRIBE_EVENTS_def METHOD_UNSUBSCRIBE_EVENTS_def
  METHOD_GET_CPU_STATS_def METHOD_GET_MEMORY_STATS_def METHOD_GET_PERFORMANCE_SUMMARY_def
  METHOD_GET_PERFORMANCE_HISTORY_def METHOD_START_UNIT_def METHOD_STOP_UNIT_def
  METHOD_GET_PROCESS_def METHOD_NETWORK_TEST_def METHOD_NETWORK_CONNECTIONS_def
  METHOD_SECURITY_POSTURE_def METHOD_INTEGRITY_BASELINE_def METHOD_INTEGRITY_CHECK_def
  METHOD_STORAGE_RESCAN_def METHOD_STORAGE_TRIM_def METHOD_STORAGE_EXPAND_def METHOD_FILE_READ_def
  METHOD_FILE_WRITE_def METHOD_FILE_STAT_def METHOD_FILE_LIST_def METHOD_FILE_CHECKSUM_def
  METHOD_SET_TIME_def METHOD_TIME_SYNC_NOW_def METHOD_REBOOT_def METHOD_SHUTDOWN_def
  METHOD_SNAPSHOT_PREPARE_def METHOD_SNAPSHOT_COMPLETE_def METHOD_CONTAINERS_INVENTORY_def
  METHOD_INVENTORY_CACHE_WRITE_def METHOD_PACKAGES_INVENTORY_def METHOD_PACKAGES_UPDATES_def
  METHOD_PACKAGES_INSTALL_def METHOD_CERTIFICATES_INVENTORY_def METHOD_USERS_INVENTORY_def
  METHOD_SET_HOSTNAME_def METHOD_SET_TIMEZONE_def METHOD_SET_DNS_def METHOD_MIGRATION_ASSESS_def
  METHOD_MIGRATION_PLAN_def METHOD_MIGRATION_REPAIR_def METHOD_MIGRATION_PRE_CHECK_def
  METHOD_MIGRATION_CUTOVER_ENTER_def METHOD_MIGRATION_CUTOVER_EXIT_def
  METHOD_MIGRATION_VALIDATE_def METHOD_BASELINE_CAPTURE_def METHOD_BASELINE_DIFF_def
  METHOD_NETPOLICY_APPLY_def METHOD_NETPOLICY_STATUS_def METHOD_LSM_APPLY_def METHOD_LSM_STATUS_def

subsection \<open>Methods\<close>

datatype (plugins only: size) rpc_method =
    Ping | GetVersion | GetCapabilities | GetEvidence | GetStatus | Doctor | MigrateScore
  | GetMetrics | GetFilesystem | Exec | EnableRdp | DisableRdp | RunFixPlan | RunFixPlanRollback
  | GetGuestHealth | GetSystemdUnits | GetFailedUnits | GetBootAnalysis | GetJournalSlice
  | GetLoginState | GetDnsState | GetTimedateState | GetSnapshotReadiness | FreezeFilesystem
  | ThawFilesystem | RestartUnit | ExecuteRemediationPlan | CollectSupportBundle | GetGuestInfo
  | GetSystemdUnit | GetSystemdEvents | GetProcesses | GetAgentHealth | SubscribeEvents
  | UnsubscribeEvents | GetCpuStats | GetMemoryStats | GetPerformanceSummary
  | GetPerformanceHistory | StartUnit | StopUnit | GetProcess | NetworkTest | NetworkConnections
  | SecurityPosture | StorageRescan | StorageTrim | StorageExpand | FileRead | FileWrite
  | FileStat | FileList | FileChecksum | SetTime | TimeSyncNow | Reboot | Shutdown
  | SnapshotPrepare | SnapshotComplete | ContainersInventory | InventoryCacheWrite
  | IntegrityBaseline | IntegrityCheck | PackagesInventory | PackagesUpdates | PackagesInstall
  | CertificatesInventory | UsersInventory | SetHostname | SetTimezone | SetDns | MigrationAssess
  | MigrationPlan | MigrationRepair | MigrationPreCheck | MigrationCutoverEnter
  | MigrationCutoverExit | MigrationValidate | BaselineCapture | BaselineDiff | NetpolicyApply
  | NetpolicyStatus | LsmApply | LsmStatus | Unknown string

text \<open>The arms of the two \<open>match\<close> expressions.\<close>

definition method_arms :: "(string \<times> rpc_method) list" where
  "method_arms =
     [(METHOD_PING, Ping), (METHOD_GET_VERSION, GetVersion),
      (METHOD_GET_CAPABILITIES, GetCapabilities), (METHOD_GET_EVIDENCE, GetEvidence),
      (METHOD_GET_STATUS, GetStatus), (METHOD_DOCTOR, Doctor), (METHOD_MIGRATE_SCORE, MigrateScore),
      (METHOD_GET_METRICS, GetMetrics), (METHOD_GET_FILESYSTEM, GetFilesystem), (METHOD_EXEC, Exec),
      (METHOD_ENABLE_RDP, EnableRdp), (METHOD_DISABLE_RDP, DisableRdp),
      (METHOD_RUN_FIX_PLAN, RunFixPlan), (METHOD_RUN_FIX_PLAN_ROLLBACK, RunFixPlanRollback),
      (METHOD_GET_GUEST_HEALTH, GetGuestHealth), (METHOD_GET_SYSTEMD_UNITS, GetSystemdUnits),
      (METHOD_GET_FAILED_UNITS, GetFailedUnits), (METHOD_GET_BOOT_ANALYSIS, GetBootAnalysis),
      (METHOD_GET_JOURNAL_SLICE, GetJournalSlice), (METHOD_GET_LOGIN_STATE, GetLoginState),
      (METHOD_GET_DNS_STATE, GetDnsState), (METHOD_GET_TIMEDATE_STATE, GetTimedateState),
      (METHOD_GET_SNAPSHOT_READINESS, GetSnapshotReadiness),
      (METHOD_FREEZE_FILESYSTEM, FreezeFilesystem), (METHOD_THAW_FILESYSTEM, ThawFilesystem),
      (METHOD_RESTART_UNIT, RestartUnit), (METHOD_EXECUTE_REMEDIATION_PLAN, ExecuteRemediationPlan),
      (METHOD_COLLECT_SUPPORT_BUNDLE, CollectSupportBundle), (METHOD_GET_GUEST_INFO, GetGuestInfo),
      (METHOD_GET_SYSTEMD_UNIT, GetSystemdUnit), (METHOD_GET_SYSTEMD_EVENTS, GetSystemdEvents),
      (METHOD_GET_PROCESSES, GetProcesses), (METHOD_GET_AGENT_HEALTH, GetAgentHealth),
      (METHOD_SUBSCRIBE_EVENTS, SubscribeEvents), (METHOD_UNSUBSCRIBE_EVENTS, UnsubscribeEvents),
      (METHOD_GET_CPU_STATS, GetCpuStats), (METHOD_GET_MEMORY_STATS, GetMemoryStats),
      (METHOD_GET_PERFORMANCE_SUMMARY, GetPerformanceSummary),
      (METHOD_GET_PERFORMANCE_HISTORY, GetPerformanceHistory), (METHOD_START_UNIT, StartUnit),
      (METHOD_STOP_UNIT, StopUnit), (METHOD_GET_PROCESS, GetProcess),
      (METHOD_NETWORK_TEST, NetworkTest), (METHOD_NETWORK_CONNECTIONS, NetworkConnections),
      (METHOD_SECURITY_POSTURE, SecurityPosture), (METHOD_STORAGE_RESCAN, StorageRescan),
      (METHOD_STORAGE_TRIM, StorageTrim), (METHOD_STORAGE_EXPAND, StorageExpand),
      (METHOD_FILE_READ, FileRead), (METHOD_FILE_WRITE, FileWrite), (METHOD_FILE_STAT, FileStat),
      (METHOD_FILE_LIST, FileList), (METHOD_FILE_CHECKSUM, FileChecksum),
      (METHOD_SET_TIME, SetTime), (METHOD_TIME_SYNC_NOW, TimeSyncNow), (METHOD_REBOOT, Reboot),
      (METHOD_SHUTDOWN, Shutdown), (METHOD_SNAPSHOT_PREPARE, SnapshotPrepare),
      (METHOD_SNAPSHOT_COMPLETE, SnapshotComplete),
      (METHOD_CONTAINERS_INVENTORY, ContainersInventory),
      (METHOD_INTEGRITY_BASELINE, IntegrityBaseline), (METHOD_INTEGRITY_CHECK, IntegrityCheck),
      (METHOD_INVENTORY_CACHE_WRITE, InventoryCacheWrite),
      (METHOD_PACKAGES_INVENTORY, PackagesInventory), (METHOD_PACKAGES_UPDATES, PackagesUpdates),
      (METHOD_PACKAGES_INSTALL, PackagesInstall),
      (METHOD_CERTIFICATES_INVENTORY, CertificatesInventory),
      (METHOD_USERS_INVENTORY, UsersInventory), (METHOD_SET_HOSTNAME, SetHostname),
      (METHOD_SET_TIMEZONE, SetTimezone), (METHOD_SET_DNS, SetDns),
      (METHOD_MIGRATION_ASSESS, MigrationAssess), (METHOD_MIGRATION_PLAN, MigrationPlan),
      (METHOD_MIGRATION_REPAIR, MigrationRepair), (METHOD_MIGRATION_PRE_CHECK, MigrationPreCheck),
      (METHOD_MIGRATION_CUTOVER_ENTER, MigrationCutoverEnter),
      (METHOD_MIGRATION_CUTOVER_EXIT, MigrationCutoverExit),
      (METHOD_MIGRATION_VALIDATE, MigrationValidate), (METHOD_BASELINE_CAPTURE, BaselineCapture),
      (METHOD_BASELINE_DIFF, BaselineDiff), (METHOD_NETPOLICY_APPLY, NetpolicyApply),
      (METHOD_NETPOLICY_STATUS, NetpolicyStatus), (METHOD_LSM_APPLY, LsmApply),
      (METHOD_LSM_STATUS, LsmStatus)]"

definition alias_arms :: "(string \<times> rpc_method) list" where
  "alias_arms =
     [(''agent.ping'', Ping), (''agent.info'', GetVersion),
      (''agent.capabilities'', GetCapabilities), (''agent.health'', GetAgentHealth),
      (''inventory.os'', GetEvidence), (''inventory.full'', GetEvidence),
      (''cpu.stats'', GetCpuStats), (''memory.stats'', GetMemoryStats),
      (''performance.summary'', GetPerformanceSummary),
      (''performance.history'', GetPerformanceHistory), (''process.list'', GetProcesses),
      (''process.inspect'', GetProcess), (''service.list'', GetSystemdUnits),
      (''service.inspect'', GetSystemdUnit), (''service.start'', StartUnit),
      (''service.stop'', StopUnit), (''service.restart'', RestartUnit),
      (''network.test'', NetworkTest), (''network.connections'', NetworkConnections),
      (''network.listeners'', NetworkConnections), (''security.posture'', SecurityPosture),
      (''containers.inventory'', ContainersInventory), (''containers.list'', ContainersInventory),
      (''integrity.baseline'', IntegrityBaseline),
      (''security.integrity.baseline'', IntegrityBaseline), (''integrity.check'', IntegrityCheck),
      (''security.integrity.check'', IntegrityCheck), (''inventory.cache'', InventoryCacheWrite),
      (''packages.inventory'', PackagesInventory), (''packages.list'', PackagesInventory),
      (''packages.updates'', PackagesUpdates), (''packages.install'', PackagesInstall),
      (''certificates.inventory'', CertificatesInventory),
      (''certificates.list'', CertificatesInventory), (''users.inventory'', UsersInventory),
      (''users.list'', UsersInventory), (''customization.hostname'', SetHostname),
      (''customization.timezone'', SetTimezone), (''customization.dns'', SetDns),
      (''storage.rescan'', StorageRescan), (''storage.trim'', StorageTrim),
      (''storage.expand'', StorageExpand), (''file.read'', FileRead), (''file.write'', FileWrite),
      (''file.stat'', FileStat), (''file.list'', FileList), (''file.checksum'', FileChecksum),
      (''system.time.set'', SetTime), (''system.time.sync'', TimeSyncNow),
      (''system.reboot'', Reboot), (''system.shutdown'', Shutdown),
      (''snapshot.prepare'', SnapshotPrepare), (''snapshot.preflight'', SnapshotPrepare),
      (''snapshot.complete'', SnapshotComplete), (''snapshot.freeze'', FreezeFilesystem),
      (''snapshot.thaw'', ThawFilesystem), (''migration.assess'', MigrationAssess),
      (''migration.plan'', MigrationPlan), (''migration.validate'', MigrationValidate),
      (''support.collect'', CollectSupportBundle), (''netpolicy.apply'', NetpolicyApply),
      (''netpolicy.status'', NetpolicyStatus), (''lsm.apply'', LsmApply),
      (''lsm.status'', LsmStatus)]"

definition parse_alias :: "string \<Rightarrow> rpc_method" where
  "parse_alias name = (case map_of alias_arms name of Some m \<Rightarrow> m | None \<Rightarrow> Unknown name)"

definition rpc_parse :: "string \<Rightarrow> rpc_method" where
  "rpc_parse name = (case map_of method_arms name of Some m \<Rightarrow> m | None \<Rightarrow> parse_alias name)"

definition is_mutating :: "rpc_method \<Rightarrow> bool" where
  "is_mutating m \<longleftrightarrow> m \<in> set
     [Exec, EnableRdp, DisableRdp, RunFixPlan, RunFixPlanRollback, FreezeFilesystem, ThawFilesystem,
      RestartUnit, ExecuteRemediationPlan, StartUnit, StopUnit, StorageRescan, StorageTrim,
      StorageExpand, FileWrite, SetTime, TimeSyncNow, Reboot, Shutdown, MigrationRepair,
      SnapshotPrepare, SnapshotComplete, PackagesInstall, SetHostname, SetTimezone, SetDns,
      InventoryCacheWrite, IntegrityBaseline, MigrationCutoverEnter, MigrationCutoverExit,
      SubscribeEvents, UnsubscribeEvents, NetpolicyApply, LsmApply]"

subsection \<open>Messages\<close>

record 'v json_rpc_request =
  rq_jsonrpc :: string
  rq_method :: string
  rq_params :: 'v
  rq_id :: "'v option"
  rq_ts :: "string option"
  rq_ttl_ms :: "u64 option"
  rq_nonce :: "string option"
  rq_idempotency_key :: "string option"

record 'v json_rpc_notification =
  nt_jsonrpc :: string
  nt_method :: string
  nt_params :: 'v

definition notification_new :: "string \<Rightarrow> 'v \<Rightarrow> 'v json_rpc_notification" where
  "notification_new method params = \<lparr>nt_jsonrpc = ''2.0'', nt_method = method, nt_params = params\<rparr>"

record 'v json_rpc_error_object =
  eo_code :: int
  eo_message :: string
  eo_data :: "'v option"

record 'v json_rpc_response =
  rs_jsonrpc :: string
  rs_result :: "'v option"
  rs_error :: "'v json_rpc_error_object option"
  rs_id :: "'v option"

definition rpc_success :: "'v option \<Rightarrow> 'v \<Rightarrow> 'v json_rpc_response" where
  "rpc_success i r = \<lparr>rs_jsonrpc = ''2.0'', rs_result = Some r, rs_error = None, rs_id = i\<rparr>"

definition rpc_error :: "'v option \<Rightarrow> rpc_error_code \<Rightarrow> string \<Rightarrow> 'v json_rpc_response" where
  "rpc_error i code msg =
     \<lparr>rs_jsonrpc = ''2.0'', rs_result = None,
      rs_error = Some \<lparr>eo_code = as_i32 code, eo_message = msg, eo_data = None\<rparr>, rs_id = i\<rparr>"

definition from_agent_error :: "'v option \<Rightarrow> agent_error \<Rightarrow> 'v json_rpc_response" where
  "from_agent_error i e = rpc_error i (rpc_code e) (message e)"

definition request_validate :: "'v json_rpc_request \<Rightarrow> (agent_error, unit) result" where
  "request_validate r =
     (if rq_jsonrpc r \<noteq> ''2.0''
      then Inl (InvalidRequest (''unsupported jsonrpc version: '' @ rq_jsonrpc r))
      else if rq_method r = [] then Inl (InvalidRequest ''missing method'')
      else Inr ())"

definition request_method :: "'v json_rpc_request \<Rightarrow> rpc_method" where
  "request_method r = rpc_parse (rq_method r)"

subsection \<open>Capabilities\<close>

record agent_capabilities =
  ac_protocol_version :: string
  ac_agent_version :: string
  ac_platform :: string
  ac_methods :: "string list"
  ac_fix_apply :: bool
  ac_windows :: bool
  ac_events :: bool
  ac_categories :: "string list"

text \<open>The platform name and the Windows flag are compile-time constants of the build.\<close>

definition standard :: "string \<Rightarrow> bool \<Rightarrow> string \<Rightarrow> agent_capabilities" where
  "standard os windows agent_version =
     \<lparr>ac_protocol_version = PROTOCOL_VERSION,
      ac_agent_version = agent_version,
      ac_platform = os,
      ac_methods =
     [METHOD_PING, METHOD_GET_VERSION, METHOD_GET_CAPABILITIES, METHOD_GET_EVIDENCE,
      METHOD_GET_STATUS, METHOD_DOCTOR, METHOD_MIGRATE_SCORE, METHOD_GET_METRICS,
      METHOD_GET_FILESYSTEM, METHOD_EXEC, METHOD_ENABLE_RDP, METHOD_DISABLE_RDP,
      METHOD_GET_GUEST_HEALTH, METHOD_GET_SYSTEMD_UNITS, METHOD_GET_FAILED_UNITS,
      METHOD_GET_BOOT_ANALYSIS, METHOD_GET_JOURNAL_SLICE, METHOD_GET_LOGIN_STATE,
      METHOD_GET_DNS_STATE, METHOD_GET_TIMEDATE_STATE, METHOD_GET_SNAPSHOT_READINESS,
      METHOD_FREEZE_FILESYSTEM, METHOD_THAW_FILESYSTEM, METHOD_RESTART_UNIT,
      METHOD_EXECUTE_REMEDIATION_PLAN, METHOD_COLLECT_SUPPORT_BUNDLE, METHOD_GET_GUEST_INFO,
      METHOD_GET_SYSTEMD_UNIT, METHOD_GET_SYSTEMD_EVENTS, METHOD_GET_PROCESSES, METHOD_RUN_FIX_PLAN,
      METHOD_RUN_FIX_PLAN_ROLLBACK, METHOD_GET_AGENT_HEALTH, METHOD_SUBSCRIBE_EVENTS,
      METHOD_UNSUBSCRIBE_EVENTS, METHOD_GET_CPU_STATS, METHOD_GET_MEMORY_STATS,
      METHOD_GET_PERFORMANCE_SUMMARY, METHOD_GET_PERFORMANCE_HISTORY, METHOD_START_UNIT,
      METHOD_STOP_UNIT, METHOD_GET_PROCESS, METHOD_NETWORK_TEST, METHOD_NETWORK_CONNECTIONS,
      METHOD_SECURITY_POSTURE, METHOD_TIME_SYNC_NOW, METHOD_REBOOT, METHOD_SHUTDOWN,
      METHOD_MIGRATION_ASSESS, METHOD_MIGRATION_PLAN, METHOD_MIGRATION_REPAIR,
      METHOD_MIGRATION_PRE_CHECK, METHOD_MIGRATION_CUTOVER_ENTER, METHOD_MIGRATION_CUTOVER_EXIT,
      METHOD_MIGRATION_VALIDATE, METHOD_BASELINE_CAPTURE, METHOD_BASELINE_DIFF,
      METHOD_PACKAGES_INVENTORY, METHOD_PACKAGES_UPDATES, METHOD_PACKAGES_INSTALL,
      METHOD_CERTIFICATES_INVENTORY, METHOD_USERS_INVENTORY, METHOD_SET_HOSTNAME,
      METHOD_SET_TIMEZONE, METHOD_SET_DNS, METHOD_CONTAINERS_INVENTORY,
      METHOD_INVENTORY_CACHE_WRITE, METHOD_INTEGRITY_BASELINE, METHOD_INTEGRITY_CHECK,
      METHOD_FILE_READ, METHOD_FILE_WRITE, METHOD_FILE_STAT, METHOD_FILE_LIST, METHOD_FILE_CHECKSUM,
      METHOD_SNAPSHOT_PREPARE, METHOD_SNAPSHOT_COMPLETE, METHOD_STORAGE_RESCAN, METHOD_STORAGE_TRIM,
      METHOD_STORAGE_EXPAND, METHOD_NETPOLICY_APPLY, METHOD_NETPOLICY_STATUS, METHOD_LSM_APPLY,
      METHOD_LSM_STATUS],
      ac_fix_apply = True,
      ac_windows = windows,
      ac_events = True,
      ac_categories = []\<rparr>"

subsection \<open>Parsing a wire name\<close>

lemma method_names_distinct: "distinct (map fst method_arms)"
  unfolding method_arms_def method_names by simp

lemma alias_names_distinct: "distinct (map fst alias_arms)"
  unfolding alias_arms_def by simp

text \<open>Canonical names carry the product's prefix and aliases do not.\<close>

lemma method_names_prefix: "list_all (\<lambda>(n, _). prefix ''guestkit.'' n) method_arms"
  unfolding method_arms_def method_names by simp

lemma alias_names_prefix: "list_all (\<lambda>(n, _). \<not> prefix ''guestkit.'' n) alias_arms"
  unfolding alias_arms_def by simp

lemma rpc_parse_canonical: "(n, m) \<in> set method_arms \<Longrightarrow> rpc_parse n = m"
  using method_names_distinct by (simp add: rpc_parse_def)

lemma alias_not_canonical:
  assumes "(n, m) \<in> set alias_arms"
  shows "map_of method_arms n = None"
proof (rule ccontr)
  assume "map_of method_arms n \<noteq> None"
  then obtain m' where "(n, m') \<in> set method_arms" by (auto dest: map_of_SomeD)
  then show False
    using assms alias_names_prefix method_names_prefix by (fastforce simp: list_all_iff)
qed

lemma rpc_parse_alias: "(n, m) \<in> set alias_arms \<Longrightarrow> rpc_parse n = m"
  using alias_names_distinct by (simp add: rpc_parse_def alias_not_canonical parse_alias_def)

text \<open>A name is unknown exactly when it is in neither table, and then it is kept for the error
  message.\<close>

lemma arms_known: "list_all (\<lambda>(_, m). \<forall>n. m \<noteq> Unknown n) (method_arms @ alias_arms)"
  unfolding method_arms_def alias_arms_def by simp

lemma rpc_parse_unknown:
  "rpc_parse n = Unknown u \<longleftrightarrow> n \<notin> fst ` set (method_arms @ alias_arms) \<and> u = n"
proof (cases "n \<in> fst ` set (method_arms @ alias_arms)")
  case True
  then obtain m where "(n, m) \<in> set method_arms \<or> (n, m) \<in> set alias_arms" by fastforce
  moreover from this have "m \<noteq> Unknown u" using arms_known by (auto simp: list_all_iff)
  ultimately show ?thesis using True by (metis rpc_parse_canonical rpc_parse_alias)
next
  case False
  then have "map_of method_arms n = None" "map_of alias_arms n = None"
    by (auto simp: map_of_eq_None_iff)
  with False show ?thesis by (auto simp: rpc_parse_def parse_alias_def)
qed

end
