(* ===== verification/Policy.thy ===== *)
theory Policy
  imports Rpc
begin

text \<open>
  The local administrator's policy, \<^verbatim>\<open>src/agent/policy.rs\<close>: the policy record with the defaults
  of every section, loading it, the authorization of a method by glob lists and feature
  categories, and the categories advertised to the host.  Glob patterns are those of the \<open>glob\<close>
  crate: \<open>glob p name\<close> is \<open>None\<close> for a pattern the crate rejects and otherwise whether it matches.
  Reading the file and decoding YAML are parameters of \<open>policy_load\<close>.
\<close>

subsection \<open>The policy record and its defaults\<close>

record file_ops_policy =
  fo_enabled :: bool
  fo_allowed_paths :: "string list"
  fo_max_bytes :: u64

record storage_ops_policy =
  so_rescan :: bool
  so_trim :: bool
  so_expand :: bool

record package_policy =
  pp_inventory :: bool
  pp_updates :: bool
  pp_install :: bool

record capability_toggles =
  ct_inventory :: bool
  ct_telemetry :: bool
  ct_events :: bool
  ct_network_test :: bool
  ct_file_ops :: file_ops_policy
  ct_storage_ops :: storage_ops_policy
  ct_packages :: package_policy
  ct_certificates :: bool
  ct_users :: bool
  ct_integrity :: bool
  ct_ebpf :: bool

record method_policy =
  mp_allow :: "string list"
  mp_deny :: "string list"

record security_policy =
  sp_require_request_expiry :: bool
  sp_max_ttl_ms :: u64
  sp_nonce_cache_size :: nat

record migration_policy =
  gp_assess :: bool
  gp_repair :: bool
  gp_repair_destructive :: bool

record self_update_policy =
  up_enabled :: bool
  up_auto_apply :: bool

record restart_unit_policy =
  rp_enabled :: bool
  rp_allowed_units :: "string list"
  rp_require_approval :: bool

text \<open>The shell, reboot and customization sections have one field each.\<close>

record policy_actions =
  pa_restart_unit :: restart_unit_policy
  pa_run_shell_command_enabled :: bool
  pa_reboot_vm_require_approval :: bool
  pa_self_update :: self_update_policy
  pa_migration :: migration_policy
  pa_customization_enabled :: bool

record agent_policy =
  ap_actions :: policy_actions
  ap_capabilities :: capability_toggles
  ap_methods :: method_policy
  ap_security :: security_policy

definition storage_ops_default :: storage_ops_policy where
  "storage_ops_default = \<lparr>so_rescan = True, so_trim = True, so_expand = False\<rparr>"

definition package_default :: package_policy where
  "package_default = \<lparr>pp_inventory = True, pp_updates = True, pp_install = False\<rparr>"

text \<open>\<open>FileOpsPolicy\<close> derives \<open>Default\<close>, so its size cap is 0 there; the one megabyte is serde's
  default for a section that leaves the field out.\<close>

definition file_ops_default :: file_ops_policy where
  "file_ops_default = \<lparr>fo_enabled = False, fo_allowed_paths = [], fo_max_bytes = 0\<rparr>"

definition default_max_bytes :: u64 where
  "default_max_bytes = 1024 * 1024"

definition capability_toggles_default :: capability_toggles where
  "capability_toggles_default =
     \<lparr>ct_inventory = True, ct_telemetry = True, ct_events = True, ct_network_test = True,
      ct_file_ops = file_ops_default, ct_storage_ops = storage_ops_default,
      ct_packages = package_default, ct_certificates = True, ct_users = True,
      ct_integrity = True, ct_ebpf = False\<rparr>"

definition default_max_ttl_ms :: u64 where
  "default_max_ttl_ms = 300000"

definition default_nonce_cache :: nat where
  "default_nonce_cache = 4096"

definition security_default :: security_policy where
  "security_default =
     \<lparr>sp_require_request_expiry = False, sp_max_ttl_ms = default_max_ttl_ms,
      sp_nonce_cache_size = default_nonce_cache\<rparr>"

definition migration_default :: migration_policy where
  "migration_default = \<lparr>gp_assess = True, gp_repair = False, gp_repair_destructive = False\<rparr>"

definition policy_default :: agent_policy where
  "policy_default =
     \<lparr>ap_actions =
        \<lparr>pa_restart_unit = \<lparr>rp_enabled = False, rp_allowed_units = [], rp_require_approval = False\<rparr>,
         pa_run_shell_command_enabled = False,
         pa_reboot_vm_require_approval = False,
         pa_self_update = \<lparr>up_enabled = False, up_auto_apply = False\<rparr>,
         pa_migration = migration_default,
         pa_customization_enabled = False\<rparr>,
      ap_capabilities = capability_toggles_default,
      ap_methods = \<lparr>mp_allow = [], mp_deny = []\<rparr>,
      ap_security = security_default\<rparr>"

definition default_permissive_dev :: agent_policy where
  "default_permissive_dev =
     \<lparr>ap_actions =
        \<lparr>pa_restart_unit = \<lparr>rp_enabled = True, rp_allowed_units = [], rp_require_approval = False\<rparr>,
         pa_run_shell_command_enabled = False,
         pa_reboot_vm_require_approval = True,
         pa_self_update = \<lparr>up_enabled = False, up_auto_apply = False\<rparr>,
         pa_migration = migration_default,
         pa_customization_enabled = False\<rparr>,
      ap_capabilities = capability_toggles_default,
      ap_methods = \<lparr>mp_allow = [], mp_deny = []\<rparr>,
      ap_security = security_default\<rparr>"

definition DEFAULT_POLICY_PATH :: string where
  "DEFAULT_POLICY_PATH = ''/etc/zyvor/agent-policy.yaml''"

definition GUESTKIT_POLICY_PATH :: string where
  "GUESTKIT_POLICY_PATH = ''/etc/guestkit/agent-policy.yaml''"

text \<open>\<open>env\<close> is the variable \<open>ZYVOR_AGENT_POLICY\<close>, \<open>file p\<close> is \<open>None\<close> when the path does not exist
  and otherwise the outcome of reading it.\<close>

definition policy_path :: "string option \<Rightarrow> (string \<Rightarrow> 'a option) \<Rightarrow> string" where
  "policy_path env file =
     (case env of
        Some p \<Rightarrow> p
      | None \<Rightarrow> if file GUESTKIT_POLICY_PATH \<noteq> None then GUESTKIT_POLICY_PATH else DEFAULT_POLICY_PATH)"

definition policy_load ::
    "(string \<Rightarrow> agent_policy option) \<Rightarrow> string option \<Rightarrow> (string \<Rightarrow> string option option) \<Rightarrow> agent_policy" where
  "policy_load from_yaml env file =
     (case file (policy_path env file) of
        None \<Rightarrow> default_permissive_dev
      | Some content \<Rightarrow>
          (case Option.bind content from_yaml of Some p \<Rightarrow> p | None \<Rightarrow> policy_default))"

subsection \<open>Authorization\<close>

definition can_auto_apply_update :: "agent_policy \<Rightarrow> bool" where
  "can_auto_apply_update p \<longleftrightarrow>
     up_enabled (pa_self_update (ap_actions p)) \<and> up_auto_apply (pa_self_update (ap_actions p))"

definition can_restart_unit :: "agent_policy \<Rightarrow> string \<Rightarrow> bool" where
  "can_restart_unit p unit =
     (let r = pa_restart_unit (ap_actions p) in
      if \<not> rp_enabled r then False
      else if rp_allowed_units r = [] then True
      else unit \<in> set (rp_allowed_units r))"

definition shell_enabled :: "agent_policy \<Rightarrow> bool" where
  "shell_enabled p = pa_run_shell_command_enabled (ap_actions p)"

definition glob_match :: "(string \<Rightarrow> string \<Rightarrow> bool option) \<Rightarrow> string list \<Rightarrow> string \<Rightarrow> bool" where
  "glob_match glob patterns name =
     list_ex (\<lambda>p. case glob p name of Some b \<Rightarrow> b | None \<Rightarrow> False) patterns"

definition denied :: "string \<Rightarrow> (agent_error, unit) result" where
  "denied what = Inl (PolicyDenied (what @ '' disabled by local policy''))"

text \<open>The guarded arms of the \<open>match\<close> on the method, in order: the methods of the arm, whether the
  category is enabled and the name it is denied under.\<close>

definition category_arms :: "agent_policy \<Rightarrow> (rpc_method list \<times> bool \<times> string) list" where
  "category_arms p =
     (let c = ap_capabilities p; a = ap_actions p in
      [([GetEvidence, GetGuestInfo, GetStatus, GetFilesystem, GetProcesses, GetProcess,
         GetSystemdUnits, GetSystemdUnit, GetFailedUnits, GetSystemdEvents],
        ct_inventory c, ''inventory''),
       ([GetMetrics, GetCpuStats, GetMemoryStats, GetPerformanceSummary, GetPerformanceHistory],
        ct_telemetry c, ''telemetry''),
       ([SubscribeEvents], ct_events c, ''events''),
       ([NetworkTest], ct_network_test c, ''network_test''),
       ([NetworkConnections, SecurityPosture], ct_inventory c, ''inventory''),
       ([FileRead, FileWrite, FileStat, FileList, FileChecksum],
        fo_enabled (ct_file_ops c), ''file_ops''),
       ([StorageRescan], so_rescan (ct_storage_ops c), ''storage rescan''),
       ([StorageTrim], so_trim (ct_storage_ops c), ''storage trim''),
       ([StorageExpand], so_expand (ct_storage_ops c), ''storage expand''),
       ([StartUnit, StopUnit, RestartUnit], rp_enabled (pa_restart_unit a), ''service control''),
       ([MigrationAssess, MigrationPlan, MigrationPreCheck, MigrationValidate, BaselineCapture,
         BaselineDiff],
        gp_assess (pa_migration a), ''migration assessment''),
       ([MigrationRepair], gp_repair (pa_migration a), ''migration repair''),
       ([PackagesInventory], pp_inventory (ct_packages c), ''package inventory''),
       ([PackagesUpdates], pp_updates (ct_packages c), ''package updates''),
       ([PackagesInstall], pp_install (ct_packages c), ''package install''),
       ([CertificatesInventory], ct_certificates c, ''certificate inventory''),
       ([UsersInventory], ct_users c, ''user inventory''),
       ([ContainersInventory, InventoryCacheWrite], ct_inventory c, ''inventory''),
       ([IntegrityBaseline, IntegrityCheck], ct_integrity c, ''integrity monitoring''),
       ([SetHostname, SetTimezone, SetDns], pa_customization_enabled a, ''customization''),
       ([NetpolicyApply, NetpolicyStatus, LsmApply, LsmStatus], ct_ebpf c, ''ebpf'')])"

definition authorize ::
    "(string \<Rightarrow> string \<Rightarrow> bool option) \<Rightarrow> agent_policy \<Rightarrow> rpc_method \<Rightarrow> string \<Rightarrow> (agent_error, unit) result" where
  "authorize glob p m wire_name =
     (if glob_match glob (mp_deny (ap_methods p)) wire_name then denied wire_name
      else if mp_allow (ap_methods p) \<noteq> [] \<and> \<not> glob_match glob (mp_allow (ap_methods p)) wire_name
      then denied wire_name
      else (case find (\<lambda>(ms, on, _). m \<in> set ms \<and> \<not> on) (category_arms p) of
              Some (_, _, what) \<Rightarrow> denied what
            | None \<Rightarrow> Inr ()))"

definition enabled_categories :: "agent_policy \<Rightarrow> string list" where
  "enabled_categories p =
     (let c = ap_capabilities p; a = ap_actions p in
      map snd (filter fst
        [(ct_inventory c, ''inventory''),
         (ct_telemetry c, ''telemetry''),
         (ct_events c, ''events''),
         (ct_network_test c, ''network_test''),
         (fo_enabled (ct_file_ops c), ''file_ops''),
         (so_rescan (ct_storage_ops c) \<or> so_trim (ct_storage_ops c), ''storage_ops''),
         (rp_enabled (pa_restart_unit a), ''service_control''),
         (pa_run_shell_command_enabled a, ''shell''),
         (gp_assess (pa_migration a), ''migration''),
         (gp_repair (pa_migration a), ''migration_repair''),
         (pp_inventory (ct_packages c) \<or> pp_updates (ct_packages c), ''packages''),
         (pp_install (ct_packages c), ''packages_install''),
         (ct_certificates c, ''certificates''),
         (ct_users c, ''users''),
         (ct_integrity c, ''integrity''),
         (pa_customization_enabled a, ''customization''),
         (ct_ebpf c, ''ebpf'')]))"

subsection \<open>Lemmas\<close>

lemmas policy_defaults = policy_default_def default_permissive_dev_def capability_toggles_default_def
  file_ops_default_def storage_ops_default_def package_default_def security_default_def
  migration_default_def

lemma denied_not_ok [simp]: "\<not> is_ok (denied w)"
  by (simp add: denied_def)

text \<open>Authorization is the conjunction of the two glob lists and of every category that lists the
  method.\<close>

lemma authorize_ok:
  "is_ok (authorize glob p m w) \<longleftrightarrow>
     \<not> glob_match glob (mp_deny (ap_methods p)) w \<and>
     (mp_allow (ap_methods p) = [] \<or> glob_match glob (mp_allow (ap_methods p)) w) \<and>
     list_all (\<lambda>(ms, on, _). m \<in> set ms \<longrightarrow> on) (category_arms p)"
proof -
  have "find (\<lambda>(ms, on, _). m \<in> set ms \<and> \<not> on) (category_arms p) = None \<longleftrightarrow>
      list_all (\<lambda>(ms, on, _). m \<in> set ms \<longrightarrow> on) (category_arms p)"
    by (auto simp: find_None_iff list_all_iff)
  then show ?thesis
    by (cases "find (\<lambda>(ms, on, _). m \<in> set ms \<and> \<not> on) (category_arms p)")
      (auto simp: authorize_def)
qed

subsection \<open>Properties\<close>

text \<open>
  What a policy file that cannot be read or decoded permits.  Every state-changing
  method outside twelve listed ones is then authorized, whatever the file meant to deny, and rebooting
  needs no approval although it does when there is no file at all.
\<close>

theorem malformed_policy_permits:
  assumes "file (policy_path env file) = Some content"
    and "Option.bind content from_yaml = None"
  shows "(is_mutating m \<and> is_ok (authorize glob (policy_load from_yaml env file) m w) \<longleftrightarrow>
      is_mutating m \<and> m \<notin> {StartUnit, StopUnit, RestartUnit, StorageExpand, FileWrite,
        MigrationRepair, PackagesInstall, SetHostname, SetTimezone, SetDns, NetpolicyApply, LsmApply}) \<and>
    \<not> pa_reboot_vm_require_approval (ap_actions (policy_load from_yaml env file)) \<and>
    pa_reboot_vm_require_approval (ap_actions (policy_load from_yaml env (\<lambda>_. None)))"
proof -
  have l: "policy_load from_yaml env file = policy_default"
    using assms by (simp add: policy_load_def)
  have "is_mutating m \<and> is_ok (authorize glob policy_default m w) \<longleftrightarrow>
      is_mutating m \<and> m \<notin> {StartUnit, StopUnit, RestartUnit, StorageExpand, FileWrite,
        MigrationRepair, PackagesInstall, SetHostname, SetTimezone, SetDns, NetpolicyApply, LsmApply}"
    unfolding authorize_ok
    by (simp add: category_arms_def policy_defaults glob_match_def is_mutating_def) blast
  then show ?thesis
    by (simp add: l) (simp add: policy_load_def policy_defaults)
qed

theorem malformed_policy_permits_witness:
  "is_ok (authorize (\<lambda>_ _. None)
     (policy_load (\<lambda>_. None) None (\<lambda>p. if p = DEFAULT_POLICY_PATH then Some (Some ''deny: ['') else None))
     Reboot METHOD_REBOOT)"
  using malformed_policy_permits [of "\<lambda>p. if p = DEFAULT_POLICY_PATH then Some (Some ''deny: ['') else None"
      None "Some ''deny: [''" "\<lambda>_. None" Reboot "\<lambda>_ _. None" METHOD_REBOOT]
  by (simp add: policy_path_def GUESTKIT_POLICY_PATH_def DEFAULT_POLICY_PATH_def is_mutating_def)

text \<open>
  Claim C40.  Denying a method by its canonical name does not deny its aliases.  If the deny list
  is just the canonical name of a method, there is no allow list and the categories of the method
  are enabled, then the canonical name is rejected and every alias of the same method is
  authorized.
\<close>

theorem alias_escapes_deny:
  assumes "(c, m) \<in> set method_arms" and "(a, m) \<in> set alias_arms"
    and "ap_methods p = \<lparr>mp_allow = [], mp_deny = [c]\<rparr>"
    and "\<forall>n. glob c n = Some (n = c)"
    and "list_all (\<lambda>(ms, on, _). m \<in> set ms \<longrightarrow> on) (category_arms p)"
  shows "rpc_parse c = m \<and> rpc_parse a = m \<and>
    authorize glob p (rpc_parse c) c = denied c \<and> authorize glob p (rpc_parse a) a = Inr ()"
proof -
  have parse: "rpc_parse c = m" "rpc_parse a = m"
    using assms(1,2) by (simp_all add: rpc_parse_canonical rpc_parse_alias)
  have deny: "authorize glob p m c = denied c"
    using assms(3,4) by (simp add: authorize_def glob_match_def)
  have "a \<noteq> c" using alias_not_canonical [OF assms(2)] assms(1) by (force simp: map_of_eq_None_iff)
  then have "is_ok (authorize glob p m a)"
    using assms(3-5) by (simp add: authorize_ok glob_match_def)
  then show ?thesis using parse deny by (simp add: is_ok_iff)
qed

theorem alias_escapes_deny_witness:
  "let p = policy_default\<lparr>ap_methods := \<lparr>mp_allow = [], mp_deny = [METHOD_SHUTDOWN]\<rparr>\<rparr>;
       glob = (\<lambda>pat n. Some (n = pat))
   in rpc_parse METHOD_SHUTDOWN = Shutdown \<and> rpc_parse ''system.shutdown'' = Shutdown \<and>
      authorize glob p (rpc_parse METHOD_SHUTDOWN) METHOD_SHUTDOWN = denied METHOD_SHUTDOWN \<and>
      authorize glob p (rpc_parse ''system.shutdown'') ''system.shutdown'' = Inr ()"
  unfolding Let_def
  by (rule alias_escapes_deny) (simp_all add: method_arms_def alias_arms_def category_arms_def Let_def)

end
