(* ===== verification/Remediation.thy ===== *)
theory Remediation
  imports Policy
begin

text \<open>
  The privileged executor of \<^verbatim>\<open>src/agent/executor.rs\<close>, for the Linux build: restarting,
  starting and stopping units under the policy's allowlist, running remediation plans, and the audit
  lines each of them appends.  The privileged helper, D-Bus and the commands it spawns act on the guest
  and are the fields of \<open>unit_env\<close>; the guest itself is the type parameter \<open>'g\<close>.  Time stamps of the
  audit lines are left out.
\<close>

subsection \<open>The executor\<close>

record remediation_action_spec =
  ra_action :: string
  ra_target :: string

record remediation_action_result =
  rr_action :: string
  rr_success :: bool
  rr_message :: string

record remediation_result =
  rm_plan_id :: string
  rm_success :: bool
  rm_actions :: "remediation_action_result list"

record audit_entry =
  au_action :: string
  au_target :: string
  au_success :: bool
  au_detail :: string

record 'g exec_state =
  xs_guest :: 'g
  xs_audit :: "audit_entry list"

text \<open>A function of the guest alone, run on the state.\<close>

definition on_guest :: "('g \<Rightarrow> 'a \<times> 'g) \<Rightarrow> 'g exec_state \<Rightarrow> 'a \<times> 'g exec_state" where
  "on_guest f x = (case f (xs_guest x) of (r, g) \<Rightarrow> (r, x\<lparr>xs_guest := g\<rparr>))"

text \<open>\<open>ue_call op unit\<close> is \<open>None\<close> when the helper reports an error and otherwise the string it
  answers, if the answer is a string.  \<open>ue_plan\<close> is \<open>None\<close> when the helper fails or its answer does not
  decode.  \<open>ue_systemctl op unit\<close> is the spawn error, or the exit status and standard error.\<close>

record 'g unit_env =
  ue_available :: "'g \<Rightarrow> bool"
  ue_call :: "string \<Rightarrow> string \<Rightarrow> 'g \<Rightarrow> string option option \<times> 'g"
  ue_plan :: "string \<Rightarrow> remediation_action_spec list \<Rightarrow> 'g \<Rightarrow> remediation_result option \<times> 'g"
  ue_dbus_restart :: "string \<Rightarrow> 'g \<Rightarrow> (string, string) result \<times> 'g"
  ue_systemctl :: "string \<Rightarrow> string \<Rightarrow> 'g \<Rightarrow> (string, bool \<times> string) result \<times> 'g"
  ue_vacuum :: "'g \<Rightarrow> (string, unit) result \<times> 'g"

definition one_line :: "string \<Rightarrow> string" where
  "one_line s = map (\<lambda>c. if c = CHR 0x0A then CHR '' '' else c) s"

definition exec_audit :: "string \<Rightarrow> string \<Rightarrow> bool \<Rightarrow> string \<Rightarrow> 'g exec_state \<Rightarrow> 'g exec_state" where
  "exec_audit action target ok detail st =
     st\<lparr>xs_audit := xs_audit st @
         [\<lparr>au_action = action, au_target = target, au_success = ok, au_detail = one_line detail\<rparr>]\<rparr>"

definition run_systemctl ::
    "'g unit_env \<Rightarrow> string \<Rightarrow> string \<Rightarrow> 'g exec_state \<Rightarrow> (string, string) result \<times> 'g exec_state" where
  "run_systemctl env op unit st =
     (let (out, g) = ue_systemctl env op unit (xs_guest st);
          r = (case out of
                 Inl e \<Rightarrow> Inl e
               | Inr (ok, stderr) \<Rightarrow> Inr (if ok then op @ '' '' @ unit @ '' ok'' else stderr));
          success = (case r of Inr msg \<Rightarrow> ends_with msg '' ok'' | Inl _ \<Rightarrow> False)
      in (r, exec_audit (''systemctl_'' @ op) unit success (case r of Inr msg \<Rightarrow> msg | Inl _ \<Rightarrow> [])
               (st\<lparr>xs_guest := g\<rparr>)))"

text \<open>A call to the helper, when there is one: its string answer, if it gave one.\<close>

definition try_helper ::
    "'g unit_env \<Rightarrow> string \<Rightarrow> string \<Rightarrow> 'g exec_state \<Rightarrow> string option \<times> 'g exec_state" where
  "try_helper env op unit st =
     (if ue_available env (xs_guest st)
      then (case ue_call env op unit (xs_guest st) of
              (r, g) \<Rightarrow> (Option.bind r id, st\<lparr>xs_guest := g\<rparr>))
      else (None, st))"

definition restart_unit ::
    "'g unit_env \<Rightarrow> agent_policy \<Rightarrow> string \<Rightarrow> 'g exec_state \<Rightarrow> (string, string) result \<times> 'g exec_state" where
  "restart_unit env p unit st =
     (if \<not> can_restart_unit p unit then (Inl (''restart_unit denied by policy for '' @ unit), st)
      else (case try_helper env ''restart_unit'' unit st of
              (Some msg, st1) \<Rightarrow> (Inr msg, st1)
            | (None, st1) \<Rightarrow>
                (case ue_dbus_restart env unit (xs_guest st1) of
                   (Inr msg, g) \<Rightarrow>
                     (Inr msg, exec_audit ''restart_unit'' unit True msg (st1\<lparr>xs_guest := g\<rparr>))
                 | (Inl dbus_err, g) \<Rightarrow>
                     (case run_systemctl env ''restart'' unit (st1\<lparr>xs_guest := g\<rparr>) of
                        (Inr msg, st2) \<Rightarrow> (Inr msg, st2)
                      | (Inl se, st2) \<Rightarrow>
                          (Inl (''restart via D-Bus failed ('' @ dbus_err
                             @ ''); systemctl fallback failed ('' @ se @ '')''), st2)))))"

definition control_unit ::
    "'g unit_env \<Rightarrow> agent_policy \<Rightarrow> string \<Rightarrow> string \<Rightarrow> 'g exec_state \<Rightarrow> (string, string) result \<times> 'g exec_state" where
  "control_unit env p op unit st =
     (if op \<notin> {''start'', ''stop''} then (Inl (''unsupported unit operation: '' @ op), st)
      else if \<not> can_restart_unit p unit
      then (Inl (op @ ''_unit denied by policy for '' @ unit), st)
      else (case try_helper env (op @ ''_unit'') unit st of
              (Some msg, st1) \<Rightarrow> (Inr msg, st1)
            | (None, st1) \<Rightarrow> run_systemctl env op unit st1))"

definition unwrap_or_message :: "(string, string) result \<times> 's \<Rightarrow> string \<times> 's" where
  "unwrap_or_message r = (case r of (Inl e, s) \<Rightarrow> (e, s) | (Inr m, s) \<Rightarrow> (m, s))"

definition run_action ::
    "'g unit_env \<Rightarrow> agent_policy \<Rightarrow> remediation_action_spec \<Rightarrow> 'g exec_state \<Rightarrow> string \<times> 'g exec_state" where
  "run_action env p a st =
     (if ra_action a = ''restart_unit'' then unwrap_or_message (restart_unit env p (ra_target a) st)
      else if ra_action a = ''fix_dns''
      then unwrap_or_message (run_systemctl env ''restart'' ''systemd-resolved.service'' st)
      else if ra_action a = ''rotate_journal''
      then (case ue_vacuum env (xs_guest st) of
              (Inr _, g) \<Rightarrow> (''journal vacuumed'', st\<lparr>xs_guest := g\<rparr>)
            | (Inl e, g) \<Rightarrow> (e, st\<lparr>xs_guest := g\<rparr>))
      else (''unsupported action: '' @ ra_action a, st))"

definition action_success :: "string \<Rightarrow> bool" where
  "action_success msg \<longleftrightarrow> \<not> starts_with msg ''denied'' \<and> \<not> contains msg ''unsupported''"

fun run_actions ::
    "'g unit_env \<Rightarrow> agent_policy \<Rightarrow> remediation_action_spec list \<Rightarrow> 'g exec_state
       \<Rightarrow> remediation_action_result list \<times> 'g exec_state" where
  "run_actions env p [] st = ([], st)"
| "run_actions env p (a # as) st =
     (let (msg, st1) = run_action env p a st;
          ok = action_success msg;
          st2 = exec_audit (ra_action a) (ra_target a) ok msg st1;
          (rs, st3) = run_actions env p as st2
      in (\<lparr>rr_action = ra_action a, rr_success = ok, rr_message = msg\<rparr> # rs, st3))"

definition execute_remediation_plan ::
    "'g unit_env \<Rightarrow> agent_policy \<Rightarrow> string \<Rightarrow> remediation_action_spec list \<Rightarrow> 'g exec_state
       \<Rightarrow> remediation_result \<times> 'g exec_state" where
  "execute_remediation_plan env p plan_id actions st =
     (let (helped, st1) =
            (if ue_available env (xs_guest st)
             then (case ue_plan env plan_id actions (xs_guest st) of
                     (r, g) \<Rightarrow> (r, st\<lparr>xs_guest := g\<rparr>))
             else (None, st))
      in case helped of
           Some r \<Rightarrow> (r, st1)
         | None \<Rightarrow>
             (let (rs, st2) = run_actions env p actions st1
              in (\<lparr>rm_plan_id = plan_id, rm_success = list_all rr_success rs, rm_actions = rs\<rparr>, st2)))"

subsection \<open>Lemmas\<close>

lemma exec_audit_guest [simp]: "xs_guest (exec_audit a t b d st) = xs_guest st"
  by (simp add: exec_audit_def)

lemma denied_untouched:
  assumes "\<not> can_restart_unit p unit"
  shows "restart_unit env p unit st = (Inl (''restart_unit denied by policy for '' @ unit), st)"
    and "snd (control_unit env p op unit st) = st"
    and "\<not> is_ok (fst (control_unit env p op unit st))"
  using assms by (simp_all add: restart_unit_def control_unit_def)

text \<open>An action that the allowlist does not let near the guest.\<close>

definition harmless :: "agent_policy \<Rightarrow> remediation_action_spec \<Rightarrow> bool" where
  "harmless p a \<longleftrightarrow> ra_action a \<notin> {''fix_dns'', ''rotate_journal''} \<and>
     (ra_action a = ''restart_unit'' \<longrightarrow> \<not> can_restart_unit p (ra_target a))"

lemma run_action_harmless:
  "harmless p a \<Longrightarrow> snd (run_action env p a st) = st"
  by (auto simp: harmless_def run_action_def denied_untouched unwrap_or_message_def)

lemma run_actions_harmless:
  "list_all (harmless p) as \<Longrightarrow> xs_guest (snd (run_actions env p as st)) = xs_guest st"
proof (induction as arbitrary: st)
  case (Cons a as)
  obtain msg st1 where run: "run_action env p a st = (msg, st1)" by fastforce
  then have "st1 = st" using run_action_harmless [of p a env st] Cons.prems by simp
  then show ?case
    using Cons.IH [of "exec_audit (ra_action a) (ra_target a) (action_success msg) msg st"] Cons.prems run
    by (simp add: split_beta Let_def)
qed simp

text \<open>Every action is answered, in order, and leaves one audit line or more.\<close>

lemma run_actions_results:
  "map rr_action (fst (run_actions env p as st)) = map ra_action as"
  by (induction as arbitrary: st) (simp_all add: split_beta Let_def)

text \<open>A failing \<open>systemctl\<close> is reported as done as well: when the command runs and exits with an
  error, its standard error becomes the success message.\<close>

lemma failed_systemctl_reported_done:
  assumes "can_restart_unit p u" and "\<not> ue_available env (xs_guest st)"
    and "ue_systemctl env op u (xs_guest st) = (Inr (False, stderr), g)" and "op \<in> {''start'', ''stop''}"
  shows "fst (control_unit env p op u st) = Inr stderr"
  using assms by (auto simp: control_unit_def try_helper_def run_systemctl_def)

subsection \<open>Properties\<close>

text \<open>
  The allowlist protects units: an operation on a unit the policy does not admit fails
  and leaves the guest as it was, and a plan, run without the helper, of which no action is admitted
  leaves the guest as it was and still answers every action in order.
\<close>

theorem allowlist_protects_units:
  assumes "\<not> can_restart_unit p u" and "\<not> ue_available env (xs_guest st)" and "list_all (harmless p) as"
  shows "\<not> is_ok (fst (restart_unit env p u st)) \<and> snd (restart_unit env p u st) = st \<and>
    \<not> is_ok (fst (control_unit env p op u st)) \<and> snd (control_unit env p op u st) = st \<and>
    xs_guest (snd (execute_remediation_plan env p i as st)) = xs_guest st \<and>
    map rr_action (rm_actions (fst (execute_remediation_plan env p i as st))) = map ra_action as"
proof -
  have "xs_guest (snd (execute_remediation_plan env p i as st)) = xs_guest st \<and>
      map rr_action (rm_actions (fst (execute_remediation_plan env p i as st))) = map ra_action as"
    using assms(2) run_actions_harmless [OF assms(3), of env st] run_actions_results [of env p as st]
    by (simp add: execute_remediation_plan_def split_beta)
  then show ?thesis by (simp add: denied_untouched [OF assms(1)])
qed

text \<open>A guest that counts the operations that reach it, with no helper.\<close>

definition counting_env :: "nat unit_env" where
  "counting_env =
     \<lparr>ue_available = (\<lambda>_. False), ue_call = (\<lambda>_ _ n. (None, n)), ue_plan = (\<lambda>_ _ n. (None, n)),
      ue_dbus_restart = (\<lambda>u n. (Inr (u @ '' restarted''), Suc n)),
      ue_systemctl = (\<lambda>_ _ n. (Inr (True, []), Suc n)), ue_vacuum = (\<lambda>n. (Inr (), Suc n))\<rparr>"

definition only_sshd :: agent_policy where
  "only_sshd = default_permissive_dev\<lparr>ap_actions := (ap_actions default_permissive_dev)
     \<lparr>pa_restart_unit := \<lparr>rp_enabled = True, rp_allowed_units = [''sshd.service''],
        rp_require_approval = False\<rparr>\<rparr>\<rparr>"

theorem allowlist_protects_units_witness:
  "xs_guest (snd (execute_remediation_plan counting_env only_sshd ''p1''
     [\<lparr>ra_action = ''restart_unit'', ra_target = ''auditd.service''\<rparr>, \<lparr>ra_action = ''wipe'', ra_target = []\<rparr>]
     \<lparr>xs_guest = 0, xs_audit = []\<rparr>)) = 0"
  using allowlist_protects_units [of only_sshd "''auditd.service''" counting_env "\<lparr>xs_guest = 0, xs_audit = []\<rparr>"
      "[\<lparr>ra_action = ''restart_unit'', ra_target = ''auditd.service''\<rparr>, \<lparr>ra_action = ''wipe'', ra_target = []\<rparr>]"]
  by (simp add: only_sshd_def can_restart_unit_def counting_env_def harmless_def)

text \<open>
  A remediation that the policy refuses is reported as done: the success test looks for
  messages that begin with ``denied'', and the refusal begins with the name of the action.  The plan
  succeeds, its audit line says so, and the guest is as it was.
\<close>

theorem refused_restart_reported_done:
  assumes "\<not> can_restart_unit p u" and "\<not> ue_available env (xs_guest st)"
    and "\<not> contains (''restart_unit denied by policy for '' @ u) ''unsupported''"
  shows "execute_remediation_plan env p i [\<lparr>ra_action = ''restart_unit'', ra_target = u\<rparr>] st =
    (let msg = ''restart_unit denied by policy for '' @ u in
     (\<lparr>rm_plan_id = i, rm_success = True,
       rm_actions = [\<lparr>rr_action = ''restart_unit'', rr_success = True, rr_message = msg\<rparr>]\<rparr>,
      exec_audit ''restart_unit'' u True msg st))"
  using assms
  by (simp add: execute_remediation_plan_def run_action_def denied_untouched unwrap_or_message_def
      action_success_def starts_with_def Let_def)

theorem refused_restart_reported_done_witness:
  "rm_success (fst (execute_remediation_plan counting_env only_sshd ''p1''
     [\<lparr>ra_action = ''restart_unit'', ra_target = ''auditd.service''\<rparr>] \<lparr>xs_guest = 0, xs_audit = []\<rparr>))"
  using refused_restart_reported_done [of only_sshd "''auditd.service''" counting_env
      "\<lparr>xs_guest = 0, xs_audit = []\<rparr>" "''p1''"]
  by (simp add: only_sshd_def can_restart_unit_def counting_env_def contains_def sublist_code Let_def)

end
