(* ===== verification/Cutover.thy ===== *)
theory Cutover
  imports Remediation Utf8
begin

text \<open>
  Readiness tokens and the maintenance mode of a migration (\<^verbatim>\<open>src/migration/workflow.rs\<close>): the key file, the
  HMAC over score, baseline and expiry, entering and leaving the cutover, and the recovery at start-up.  SHA-256, the
  random key, the clock and the text of a floating-point number are parameters, and so are the files, freezing and
  thawing, which act on the guest.  A score is the 64 bits of the number.  The watchdog is armed but its thread is
  not followed.
\<close>

unbundle bit_operations_syntax

subsection \<open>Tokens and state\<close>

datatype readiness_level = Ready | ReadyWithWarnings | Blocked

record readiness_token =
  tk_token :: string
  tk_score :: u64
  tk_readiness :: readiness_level
  tk_baseline_id :: string
  tk_expires_at :: string

record cutover_state =
  cu_active :: bool
  cu_entered_at :: "string option"
  cu_frozen :: bool
  cu_watchdog_deadline :: "string option"
  cu_stopped_services :: "string list"

record cutover_params =
  cp_stop_services :: "string list"
  cp_freeze :: bool
  cp_watchdog_secs :: "u64 option"

text \<open>\<open>ce_now k\<close> is the k-th reading of the clock of one request, in nanoseconds.\<close>

record 'g cutover_env =
  ce_sha256 :: "byte list \<Rightarrow> byte list"
  ce_show_f64 :: "u64 \<Rightarrow> string"
  ce_rfc3339 :: "string \<Rightarrow> (string, int) result"
  ce_to_rfc3339 :: "int \<Rightarrow> string"
  ce_now :: "nat \<Rightarrow> int"
  ce_random :: "byte list"
  ce_read_key :: "'g \<Rightarrow> byte list option"
  ce_write_key :: "byte list \<Rightarrow> 'g \<Rightarrow> (string, unit) result \<times> 'g"
  ce_freeze :: "'g \<Rightarrow> (string, unit) result \<times> 'g"
  ce_thaw :: "'g \<Rightarrow> (string, unit) result \<times> 'g"
  ce_frozen :: "'g \<Rightarrow> bool"
  ce_arm :: "nat \<Rightarrow> 'g \<Rightarrow> 'g"
  ce_read_marker :: "'g \<Rightarrow> cutover_state option"
  ce_write_marker :: "cutover_state \<Rightarrow> 'g \<Rightarrow> (string, unit) result \<times> 'g"
  ce_remove_marker :: "'g \<Rightarrow> 'g"

definition DEFAULT_WATCHDOG_SECS :: u64 where
  "DEFAULT_WATCHDOG_SECS = 120"

definition MAX_WATCHDOG_SECS :: u64 where
  "MAX_WATCHDOG_SECS = 600"

definition TOKEN_VALIDITY_SECS :: int where
  "TOKEN_VALIDITY_SECS = 3600"

definition stored_key :: "'g cutover_env \<Rightarrow> 'g \<Rightarrow> byte list option" where
  "stored_key env g = (case ce_read_key env g of Some k \<Rightarrow> if length k = 32 then Some k else None | None \<Rightarrow> None)"

definition token_key :: "'g cutover_env \<Rightarrow> 'g \<Rightarrow> (string, byte list) result \<times> 'g" where
  "token_key env g =
     (case stored_key env g of
        Some k \<Rightarrow> (Inr k, g)
      | None \<Rightarrow>
          (case ce_write_key env (ce_random env) g of
             (Inl e, g') \<Rightarrow> (Inl e, g')
           | (Inr _, g') \<Rightarrow> (Inr (ce_random env), g')))"

text \<open>A block of 64 equal bytes, the first 32 of them combined with the key.\<close>

definition hmac_pad :: "byte \<Rightarrow> byte list \<Rightarrow> byte list" where
  "hmac_pad c key = map2 (XOR) (replicate 64 c) (key @ replicate 32 0)"

definition hmac_sha256 :: "'g cutover_env \<Rightarrow> byte list \<Rightarrow> byte list \<Rightarrow> byte list" where
  "hmac_sha256 env key msg =
     (let inner = ce_sha256 env (hmac_pad 0x36 key @ msg) in ce_sha256 env (hmac_pad 0x5C key @ inner))"

definition token_mac :: "'g cutover_env \<Rightarrow> byte list \<Rightarrow> u64 \<Rightarrow> string \<Rightarrow> string \<Rightarrow> string" where
  "token_mac env key score baseline_id expires_at =
     hex_encode (hmac_sha256 env key (of_string (ce_show_f64 env score @ ''|'' @ baseline_id @ ''|'' @ expires_at)))"

definition sign_token :: "'g cutover_env \<Rightarrow> u64 \<Rightarrow> string \<Rightarrow> string \<Rightarrow> 'g \<Rightarrow> (string, string) result \<times> 'g" where
  "sign_token env score baseline_id expires_at g =
     (case token_key env g of
        (Inl e, g') \<Rightarrow> (Inl e, g')
      | (Inr key, g') \<Rightarrow> (Inr (token_mac env key score baseline_id expires_at), g'))"

definition verify_token :: "'g cutover_env \<Rightarrow> readiness_token \<Rightarrow> 'g \<Rightarrow> (string, unit) result \<times> 'g" where
  "verify_token env token g =
     (case ce_rfc3339 env (tk_expires_at token) of
        Inl _ \<Rightarrow> (Inl ''token expiry'', g)
      | Inr expires \<Rightarrow>
          if ce_now env 0 > expires then (Inl (''readiness token expired at '' @ tk_expires_at token), g)
          else (case sign_token env (tk_score token) (tk_baseline_id token) (tk_expires_at token) g of
                  (Inl e, g') \<Rightarrow> (Inl e, g')
                | (Inr expected, g') \<Rightarrow>
                    if expected \<noteq> tk_token token then (Inl ''readiness token signature mismatch'', g') else (Inr (), g')))"

text \<open>The assessment and the baseline are parameters: the score, the level, and the baseline's id or the error.\<close>

definition pre_migration_check ::
    "'g cutover_env \<Rightarrow> ('g \<Rightarrow> (string, u64 \<times> readiness_level \<times> string) result \<times> 'g) \<Rightarrow> 'g \<Rightarrow> (string, readiness_token) result \<times> 'g" where
  "pre_migration_check env assess g =
     (case assess g of
        (Inl e, g1) \<Rightarrow> (Inl e, g1)
      | (Inr (score, level, baseline), g1) \<Rightarrow>
          (let expires_at = ce_to_rfc3339 env (ce_now env 0 + TOKEN_VALIDITY_SECS * 1000000000) in
           case sign_token env score baseline expires_at g1 of
             (Inl e, g2) \<Rightarrow> (Inl e, g2)
           | (Inr t, g2) \<Rightarrow>
               (Inr \<lparr>tk_token = t, tk_score = score, tk_readiness = level, tk_baseline_id = baseline, tk_expires_at = expires_at\<rparr>, g2)))"

subsection \<open>The cutover\<close>

definition watchdog_secs :: "cutover_params \<Rightarrow> u64" where
  "watchdog_secs params =
     max 10 (min MAX_WATCHDOG_SECS (case cp_watchdog_secs params of Some s \<Rightarrow> s | None \<Rightarrow> DEFAULT_WATCHDOG_SECS))"

text \<open>The units for which the operation succeeded.\<close>

fun control_units ::
    "'g unit_env \<Rightarrow> agent_policy \<Rightarrow> string \<Rightarrow> string list \<Rightarrow> 'g exec_state \<Rightarrow> string list \<times> 'g exec_state" where
  "control_units units p op [] x = ([], x)"
| "control_units units p op (s # ss) x =
     (case control_unit units p op s x of
        (r, x1) \<Rightarrow> (case control_units units p op ss x1 of (done, x2) \<Rightarrow> (if is_ok r then s # done else done, x2)))"

definition freeze_with_watchdog ::
    "'g cutover_env \<Rightarrow> u64 \<Rightarrow> 'g exec_state \<Rightarrow> (string, string) result \<times> 'g exec_state" where
  "freeze_with_watchdog env secs x =
     (case on_guest (ce_freeze env) x of
        (Inl e, x1) \<Rightarrow> (Inl (''freeze: '' @ e), x1)
      | (Inr _, x1) \<Rightarrow>
          (Inr (ce_to_rfc3339 env (ce_now env 1 + int (unat secs) * 1000000000)), x1\<lparr>xs_guest := ce_arm env (unat secs) (xs_guest x1)\<rparr>))"

definition write_marker ::
    "'g cutover_env \<Rightarrow> cutover_state \<Rightarrow> 'g exec_state \<Rightarrow> (string, cutover_state) result \<times> 'g exec_state" where
  "write_marker env state x =
     (case on_guest (ce_write_marker env state) x of (Inl e, x1) \<Rightarrow> (Inl e, x1) | (Inr _, x1) \<Rightarrow> (Inr state, x1))"

definition enter_cutover ::
    "'g cutover_env \<Rightarrow> 'g unit_env \<Rightarrow> agent_policy \<Rightarrow> cutover_params \<Rightarrow> 'g exec_state \<Rightarrow> (string, cutover_state) result \<times> 'g exec_state" where
  "enter_cutover env units p params x =
     (case control_units units p ''stop'' (cp_stop_services params) x of
        (stopped, x1) \<Rightarrow>
          (let state = (\<lambda>frozen deadline. \<lparr>cu_active = True, cu_entered_at = Some (ce_to_rfc3339 env (ce_now env 2)), cu_frozen = frozen,
                 cu_watchdog_deadline = deadline, cu_stopped_services = stopped\<rparr>) in
           if cp_freeze params
           then (case freeze_with_watchdog env (watchdog_secs params) x1 of
                   (Inl e, x2) \<Rightarrow> (Inl e, x2)
                 | (Inr deadline, x2) \<Rightarrow> write_marker env (state True (Some deadline)) x2)
           else write_marker env (state False None) x1))"

definition clear_marker_frozen :: "'g cutover_env \<Rightarrow> 'g \<Rightarrow> (string, unit) result \<times> 'g" where
  "clear_marker_frozen env g =
     (case ce_read_marker env g of
        None \<Rightarrow> (Inr (), g)
      | Some state \<Rightarrow> ce_write_marker env (state\<lparr>cu_frozen := False, cu_watchdog_deadline := None\<rparr>) g)"

definition recover_cutover_state :: "'g cutover_env \<Rightarrow> 'g \<Rightarrow> 'g" where
  "recover_cutover_state env g =
     (case ce_read_marker env g of
        None \<Rightarrow> g
      | Some state \<Rightarrow> if cu_frozen state then snd (clear_marker_frozen env (snd (ce_thaw env g))) else g)"

definition exit_cutover ::
    "'g cutover_env \<Rightarrow> 'g unit_env \<Rightarrow> agent_policy \<Rightarrow> 'g exec_state \<Rightarrow> (string, cutover_state) result \<times> 'g exec_state" where
  "exit_cutover env units p x =
     (let previous = ce_read_marker env (xs_guest x);
          (thawed, x1) = (if ce_frozen env (xs_guest x) then on_guest (ce_thaw env) x else (Inr (), x)) in
      case thawed of
        Inl e \<Rightarrow> (Inl (''thaw: '' @ e), x1)
      | Inr _ \<Rightarrow>
          (case control_units units p ''start'' (case previous of Some s \<Rightarrow> cu_stopped_services s | None \<Rightarrow> []) x1 of
             (restarted, x2) \<Rightarrow>
               (Inr \<lparr>cu_active = False, cu_entered_at = Option.bind previous cu_entered_at, cu_frozen = False,
                  cu_watchdog_deadline = None, cu_stopped_services = restarted\<rparr>,
                x2\<lparr>xs_guest := ce_remove_marker env (xs_guest x2)\<rparr>)))"

subsection \<open>What a token is worth\<close>

definition unexpired :: "'g cutover_env \<Rightarrow> readiness_token \<Rightarrow> bool" where
  "unexpired env token = (case ce_rfc3339 env (tk_expires_at token) of Inl _ \<Rightarrow> False | Inr t \<Rightarrow> ce_now env 0 \<le> t)"

definition signed_with :: "'g cutover_env \<Rightarrow> byte list \<Rightarrow> readiness_token \<Rightarrow> bool" where
  "signed_with env key token \<longleftrightarrow>
     tk_token token = token_mac env key (tk_score token) (tk_baseline_id token) (tk_expires_at token)"

text \<open>With a stored key a token is accepted exactly when it is in time and carries that key's MAC, and nothing changes.\<close>

lemma verify_token_stored:
  assumes "stored_key env g = Some key"
  shows "snd (verify_token env token g) = g"
    and "is_ok (fst (verify_token env token g)) \<longleftrightarrow> unexpired env token \<and> signed_with env key token"
  using assms
  by (auto simp: verify_token_def sign_token_def token_key_def unexpired_def signed_with_def is_ok_iff split: sum.splits)

text \<open>Without one, a token in time makes the agent create the key, whether or not the token is then accepted.\<close>

lemma verify_token_changes:
  assumes "snd (verify_token env token g) \<noteq> g"
  shows "unexpired env token" "stored_key env g = None"
proof -
  have "snd (verify_token env token g) = g" if "\<not> unexpired env token"
    using that by (simp add: verify_token_def unexpired_def split: sum.splits)
  then show "unexpired env token" using assms by blast
  show "stored_key env g = None" using assms verify_token_stored(1) [of env g _ token] by (cases "stored_key env g") auto
qed

lemma verify_token_ok: "is_ok (fst (verify_token env token g)) \<Longrightarrow> unexpired env token"
  by (rule ccontr) (simp add: verify_token_def unexpired_def split: sum.splits)

lemma verify_token_refused:
  assumes "unexpired env token \<Longrightarrow> \<exists>key. stored_key env g = Some key \<and> \<not> signed_with env key token"
  shows "\<exists>e. verify_token env token g = (Inl e, g)"
proof -
  obtain r g' where v: "verify_token env token g = (r, g')" by (cases "verify_token env token g")
  have "\<not> is_ok r \<and> g' = g"
  proof (cases "stored_key env g")
    case None
    then have "\<not> unexpired env token" using assms by auto
    then show ?thesis
      using verify_token_ok [of env token g] verify_token_changes(1) [of env token g] v by auto
  next
    case (Some key)
    then show ?thesis using verify_token_stored [OF Some, of token] assms v by auto
  qed
  then show ?thesis using v by (cases r) auto
qed

text \<open>A fresh token is accepted while it is in time.\<close>

lemma pre_migration_check_accepted:
  assumes "pre_migration_check env assess g = (Inr token, g')" "unexpired env' token"
    and "stored_key env' g' = Some key" "token_key env (snd (assess g)) = (Inr key, g')"
    and "ce_sha256 env' = ce_sha256 env" "ce_show_f64 env' = ce_show_f64 env"
  shows "is_ok (fst (verify_token env' token g'))"
proof -
  have "signed_with env key token"
    using assms(1, 4) by (auto simp: pre_migration_check_def sign_token_def signed_with_def Let_def split: prod.splits sum.splits)
  then have "signed_with env' key token" using assms(5, 6) by (simp add: signed_with_def token_mac_def hmac_sha256_def)
  then show ?thesis using verify_token_stored(2) [OF assms(3)] assms(2) by blast
qed

text \<open>The level is not part of what is signed: a token of a blocked guest is as good as any other.\<close>

lemma readiness_not_signed:
  "verify_token env (token\<lparr>tk_readiness := level\<rparr>) g = verify_token env token g"
  by (simp add: verify_token_def split: sum.split prod.split)

text \<open>The watchdog always fires between ten seconds and ten minutes after the freeze.\<close>

lemma watchdog_secs_bounds: "10 \<le> watchdog_secs params" "watchdog_secs params \<le> MAX_WATCHDOG_SECS"
  by (auto simp: watchdog_secs_def MAX_WATCHDOG_SECS_def min_def max_def split: option.split)

text \<open>A marker that says frozen makes the next start thaw the guest.\<close>

lemma recover_thaws:
  assumes "ce_read_marker env g = Some state" "cu_frozen state"
  shows "recover_cutover_state env g = snd (clear_marker_frozen env (snd (ce_thaw env g)))"
  using assms by (simp add: recover_cutover_state_def)

text \<open>Units that the policy does not admit are neither stopped nor started, and not listed.\<close>

lemma control_units_admitted: "set (fst (control_units units p op ss x)) \<subseteq> {s \<in> set ss. can_restart_unit p s}"
proof (induction ss arbitrary: x)
  case (Cons s ss)
  obtain r x1 where r: "control_unit units p op s x = (r, x1)" by fastforce
  have "\<not> is_ok r" if "\<not> can_restart_unit p s" using denied_untouched(3) [OF that, of units op x] r by simp
  then show ?case using Cons.IH [of x1] r by (auto simp: split_beta split: if_splits)
qed simp

end
