(* ===== verification/Json.thy ===== *)
theory Json
  imports Utf8
begin

text \<open>
  JSON values as \<^verbatim>\<open>serde_json::Value\<close> has them, with the accessors the API server uses.  Numbers are
  integers: the modelled code reads no fractional number.
\<close>

datatype json =
    JNull
  | JBool bool
  | JNumber int
  | JString string
  | JArray "json list"
  | JObject "(string \<times> json) list"

fun json_get :: "json \<Rightarrow> string \<Rightarrow> json option" where
  "json_get (JObject fields) key = map_of fields key"
| "json_get _ _ = None"

text \<open>Following a path of keys: \<open>pointer("/a/b")\<close>, and the loop of \<open>json_str\<close>.\<close>

fun json_at :: "json \<Rightarrow> string list \<Rightarrow> json option" where
  "json_at j [] = Some j"
| "json_at j (key # path) = Option.bind (json_get j key) (\<lambda>j'. json_at j' path)"

fun as_str :: "json \<Rightarrow> string option" where
  "as_str (JString s) = Some s"
| "as_str _ = None"

fun as_bool :: "json \<Rightarrow> bool option" where
  "as_bool (JBool b) = Some b"
| "as_bool _ = None"

fun as_array :: "json \<Rightarrow> json list option" where
  "as_array (JArray xs) = Some xs"
| "as_array _ = None"

fun as_u64 :: "json \<Rightarrow> nat option" where
  "as_u64 (JNumber i) = (if 0 \<le> i \<and> i < 2 ^ 64 then Some (nat i) else None)"
| "as_u64 _ = None"

fun as_i64 :: "json \<Rightarrow> int option" where
  "as_i64 (JNumber i) = (if - (2 ^ 63) \<le> i \<and> i < 2 ^ 63 then Some i else None)"
| "as_i64 _ = None"

definition json_str :: "json \<Rightarrow> string list \<Rightarrow> string option" where
  "json_str obj path = Option.bind (json_at obj path) as_str"

lemma as_u64_nat [simp]: "n < 2 ^ 64 \<Longrightarrow> as_u64 (JNumber (int n)) = Some n"
  by simp

lemma as_u64_bound: "as_u64 j = Some n \<Longrightarrow> n < 2 ^ 64"
  by (cases j) (auto split: if_splits)

lemma json_at_append: "json_at j (ks @ ls) = Option.bind (json_at j ks) (\<lambda>j'. json_at j' ls)"
  by (induction j ks rule: json_at.induct) (auto split: Option.bind_split)

end
