(* ===== verification/File_Ops.thy ===== *)
theory File_Ops
  imports Policy Json
begin

text \<open>
  The agent's file operations (\<^verbatim>\<open>src/agent/file_ops.rs\<close>): reading, writing, listing and hashing files under the prefixes a
  policy allows.  Files live in a tree of directories, regular files, symbolic links and special files (devices, pipes,
  files of the kernel), and a path is resolved the way the kernel does it: component by component, following at most
  forty links.  An operation that changes files returns the file system also when it fails.  Permissions and full disks
  are not covered.  Base64, SHA-256, time stamps, mode bits and the texts of the system's errors are parameters.
\<close>

subsection \<open>Paths and files\<close>

text \<open>A special file has the size that its metadata reports and what reading it to its end gives, if that can be done.\<close>

datatype fs_node = FsFile "byte list" | FsDir | FsLink string | FsSpecial nat "byte list option"

type_synonym path = "string list"
type_synonym fs = "path \<rightharpoonup> fs_node"

definition fs_get :: "fs \<Rightarrow> path \<Rightarrow> fs_node option" where
  "fs_get fs p = (if p = [] then Some FsDir else fs p)"

definition MAX_LINKS :: nat where
  "MAX_LINKS = 40"

text \<open>
  Resolving the components \<open>cs\<close> from the directory \<open>cur\<close>, with \<open>n\<close> links left.  With \<open>create\<close> the last component may be
  missing, as when a file is opened to be created.
\<close>

function walk :: "bool \<Rightarrow> nat \<Rightarrow> fs \<Rightarrow> path \<Rightarrow> string list \<Rightarrow> path option" where
  "walk create n fs cur [] = Some cur"
| "walk create n fs cur (c # cs) =
     (if c = [] \<or> c = ''.'' then walk create n fs cur cs
      else if c = ''..'' then walk create n fs (butlast cur) cs
      else case fs_get fs (cur @ [c]) of
        None \<Rightarrow> if create \<and> cs = [] then Some (cur @ [c]) else None
      | Some (FsFile _) \<Rightarrow> if cs = [] then Some (cur @ [c]) else None
      | Some (FsSpecial _ _) \<Rightarrow> if cs = [] then Some (cur @ [c]) else None
      | Some FsDir \<Rightarrow> walk create n fs (cur @ [c]) cs
      | Some (FsLink target) \<Rightarrow>
          if n = 0 then None
          else walk create (n - 1) fs (if starts_with target ''/'' then [] else cur) (split_on (CHR ''/'') target @ cs))"
  by pat_completeness auto
termination
  by (relation "measures [\<lambda>(create, n, fs, cur, cs). n, \<lambda>(create, n, fs, cur, cs). length cs]") auto

definition canonicalize :: "fs \<Rightarrow> path \<Rightarrow> string \<Rightarrow> path option" where
  "canonicalize fs cwd raw =
     (if raw = [] then None
      else walk False MAX_LINKS fs (if starts_with raw ''/'' then [] else cwd) (split_on (CHR ''/'') raw))"

text \<open>The components of \<open>Path\<close>: empty ones and dots are dropped, except a dot that starts a relative path.\<close>

definition path_components :: "string \<Rightarrow> string list" where
  "path_components raw =
     (let parts = split_on (CHR ''/'') raw;
          rest = filter (\<lambda>c. c \<noteq> [] \<and> c \<noteq> ''.'') parts in
      if hd parts = ''.'' then ''.'' # rest else rest)"

definition parent_dir :: "fs \<Rightarrow> path \<Rightarrow> string \<Rightarrow> path option" where
  "parent_dir fs cwd raw =
     (let up = butlast (path_components raw) in
      if starts_with raw ''/'' then walk False MAX_LINKS fs [] up
      else if up = [] then None else walk False MAX_LINKS fs cwd up)"

definition file_name :: "string \<Rightarrow> string option" where
  "file_name raw =
     (let cs = path_components raw in
      if cs = [] \<or> last cs = ''..'' \<or> last cs = ''.'' then None else Some (last cs))"

text \<open>\<open>Path::with_extension\<close>: what follows the last dot of the name is replaced, unless that dot starts the name.\<close>

definition file_stem :: "string \<Rightarrow> string" where
  "file_stem name =
     (let stem = rev (tl (dropWhile (\<lambda>c. c \<noteq> CHR ''.'') (rev name))) in
      if CHR ''.'' \<notin> set name \<or> stem = [] then name else stem)"

definition with_extension :: "path \<Rightarrow> string \<Rightarrow> path" where
  "with_extension p ext = butlast p @ [file_stem (last p) @ ''.'' @ ext]"

definition display :: "path \<Rightarrow> string" where
  "display p = ''/'' @ join ''/'' p"

subsection \<open>Calls of the file system\<close>

datatype file_error =
    EmptyAllowlist
  | MissingParam string
  | NoParent
  | NoFileName
  | ParentMissing
  | CannotResolve string
  | Outside path
  | OverCap string nat u64
  | BadBase64
  | FsError path

type_synonym 'a fs_run = "fs \<Rightarrow> (file_error, 'a) result \<times> fs"

definition fs_bind :: "'a fs_run \<Rightarrow> ('a \<Rightarrow> 'b fs_run) \<Rightarrow> 'b fs_run" where
  "fs_bind m f fs = (case m fs of (Inl e, fs') \<Rightarrow> (Inl e, fs') | (Inr x, fs') \<Rightarrow> f x fs')"

definition fs_read :: "fs \<Rightarrow> path \<Rightarrow> (file_error, byte list) result" where
  "fs_read fs p =
     (case walk False MAX_LINKS fs [] p of
        None \<Rightarrow> Inl (FsError p)
      | Some q \<Rightarrow>
          (case fs_get fs q of
             Some (FsFile b) \<Rightarrow> Inr b
           | Some (FsSpecial _ (Some b)) \<Rightarrow> Inr b
           | _ \<Rightarrow> Inl (FsError p)))"

text \<open>What is written to a special file goes to the device behind it: no file changes.\<close>

definition fs_write :: "path \<Rightarrow> byte list \<Rightarrow> unit fs_run" where
  "fs_write p b fs =
     (case walk True MAX_LINKS fs [] p of
        None \<Rightarrow> (Inl (FsError p), fs)
      | Some q \<Rightarrow>
          (case fs_get fs q of
             Some FsDir \<Rightarrow> (Inl (FsError p), fs)
           | Some (FsSpecial _ _) \<Rightarrow> (Inr (), fs)
           | _ \<Rightarrow> (Inr (), fs(q \<mapsto> FsFile b))))"

definition is_regular :: "fs \<Rightarrow> path \<Rightarrow> bool" where
  "is_regular fs p =
     (case walk False MAX_LINKS fs [] p of
        None \<Rightarrow> False
      | Some q \<Rightarrow> (case fs_get fs q of Some (FsFile _) \<Rightarrow> True | _ \<Rightarrow> False))"

text \<open>\<open>fs::copy\<close> copies regular files only, and opens the destination, which empties it, before it reads the source.\<close>

definition fs_copy :: "path \<Rightarrow> path \<Rightarrow> unit fs_run" where
  "fs_copy p q fs =
     (if \<not> is_regular fs p then (Inl (FsError p), fs)
      else fs_bind (fs_write q []) (\<lambda>_ fs'. case fs_read fs' p of Inl e \<Rightarrow> (Inl e, fs') | Inr b \<Rightarrow> fs_write q b fs') fs)"

text \<open>\<open>fs::rename\<close> moves the entry itself and replaces what the new name had, unless that is a directory.\<close>

definition fs_rename :: "path \<Rightarrow> path \<Rightarrow> unit fs_run" where
  "fs_rename p q fs =
     (case fs_get fs p of
        None \<Rightarrow> (Inl (FsError p), fs)
      | Some node \<Rightarrow>
          if fs_get fs q = Some FsDir then (Inl (FsError q), fs)
          else if p = q then (Inr (), fs)
          else (Inr (), (fs(q \<mapsto> node))(p := None)))"

definition fs_exists :: "fs \<Rightarrow> path \<Rightarrow> bool" where
  "fs_exists fs p = (walk False MAX_LINKS fs [] p \<noteq> None)"

subsection \<open>The operations\<close>

record file_env =
  fe_cwd :: path
  fe_encode :: "byte list \<Rightarrow> string"
  fe_decode :: "string \<Rightarrow> byte list option"
  fe_sha256 :: "byte list \<Rightarrow> string"
  fe_readdir :: "fs \<Rightarrow> path \<Rightarrow> string list"
  fe_dir_size :: nat
  fe_modified :: "fs \<Rightarrow> path \<Rightarrow> nat option"
  fe_mode :: "fs \<Rightarrow> path \<Rightarrow> string"
  fe_readonly :: "fs \<Rightarrow> path \<Rightarrow> bool"
  fe_os_error :: "string \<Rightarrow> string"

definition required_param :: "json \<Rightarrow> string \<Rightarrow> (file_error, string) result" where
  "required_param params key =
     (case Option.bind (json_get params key) as_str of Some s \<Rightarrow> Inr s | None \<Rightarrow> Inl (MissingParam key))"

definition resolve_request :: "file_env \<Rightarrow> fs \<Rightarrow> string \<Rightarrow> bool \<Rightarrow> (file_error, path) result" where
  "resolve_request env fs raw for_write =
     (case canonicalize fs (fe_cwd env) raw of
        Some p \<Rightarrow> Inr p
      | None \<Rightarrow>
          if \<not> for_write then Inl (CannotResolve raw)
          else if path_components raw = [] then Inl NoParent
          else case parent_dir fs (fe_cwd env) raw of
            None \<Rightarrow> Inl ParentMissing
          | Some dir \<Rightarrow> (case file_name raw of None \<Rightarrow> Inl NoFileName | Some n \<Rightarrow> Inr (dir @ [n])))"

definition under_allowed :: "file_env \<Rightarrow> fs \<Rightarrow> string list \<Rightarrow> path \<Rightarrow> bool" where
  "under_allowed env fs allowed p =
     list_ex (\<lambda>a. case canonicalize fs (fe_cwd env) a of Some q \<Rightarrow> prefix q p | None \<Rightarrow> False) allowed"

definition authorize_path :: "file_env \<Rightarrow> fs \<Rightarrow> file_ops_policy \<Rightarrow> string \<Rightarrow> bool \<Rightarrow> (file_error, path) result" where
  "authorize_path env fs policy raw for_write =
     (if fo_allowed_paths policy = [] then Inl EmptyAllowlist
      else rbind (resolve_request env fs raw for_write) (\<lambda>p.
        if \<not> under_allowed env fs (fo_allowed_paths policy) p then Inl (Outside p) else Inr p))"

definition fs_size :: "file_env \<Rightarrow> fs_node \<Rightarrow> nat" where
  "fs_size env node = (case node of FsFile b \<Rightarrow> length b | FsDir \<Rightarrow> fe_dir_size env | FsLink t \<Rightarrow> length t | FsSpecial n _ \<Rightarrow> n)"

definition over_cap :: "nat \<Rightarrow> file_ops_policy \<Rightarrow> bool" where
  "over_cap n policy \<longleftrightarrow> unat (fo_max_bytes policy) < n"

definition file_ops_read :: "file_env \<Rightarrow> file_ops_policy \<Rightarrow> fs \<Rightarrow> json \<Rightarrow> (file_error, path \<times> byte list) result" where
  "file_ops_read env policy fs params =
     rbind (required_param params ''path'') (\<lambda>raw.
     rbind (authorize_path env fs policy raw False) (\<lambda>p.
       case fs_get fs p of
         None \<Rightarrow> Inl (FsError p)
       | Some node \<Rightarrow>
           if over_cap (fs_size env node) policy then Inl (OverCap ''file'' (fs_size env node) (fo_max_bytes policy))
           else rbind (fs_read fs p) (\<lambda>b. Inr (p, b))))"

definition file_ops_read_reply :: "file_env \<Rightarrow> path \<times> byte list \<Rightarrow> json" where
  "file_ops_read_reply env r =
     JObject [(''path'', JString (display (fst r))), (''size'', JNumber (int (length (snd r)))), (''encoding'', JString ''base64''),
       (''data'', JString (fe_encode env (snd r)))]"

text \<open>A write first checks the request, which changes nothing, and then replaces the file.\<close>

definition write_request :: "file_env \<Rightarrow> file_ops_policy \<Rightarrow> fs \<Rightarrow> json \<Rightarrow> (file_error, path \<times> byte list) result" where
  "write_request env policy fs params =
     rbind (required_param params ''path'') (\<lambda>raw.
     rbind (required_param params ''data'') (\<lambda>data.
       case fe_decode env data of
         None \<Rightarrow> Inl BadBase64
       | Some bytes \<Rightarrow>
           if over_cap (length bytes) policy then Inl (OverCap ''payload'' (length bytes) (fo_max_bytes policy))
           else rbind (authorize_path env fs policy raw True) (\<lambda>p. Inr (p, bytes))))"

definition make_backup :: "path \<Rightarrow> path option fs_run" where
  "make_backup p fs =
     (if fs_exists fs p then
        let bak = with_extension p ''guestkit-bak'' in fs_bind (fs_copy p bak) (\<lambda>_ fs'. (Inr (Some bak), fs')) fs
      else (Inr None, fs))"

definition replace_file :: "path \<Rightarrow> byte list \<Rightarrow> (path \<times> nat \<times> path option) fs_run" where
  "replace_file p bytes =
     fs_bind (make_backup p) (\<lambda>backup.
     let tmp = with_extension p ''guestkit-tmp'' in
     fs_bind (fs_write tmp bytes) (\<lambda>_.
     fs_bind (fs_rename tmp p) (\<lambda>_ fs. (Inr (p, length bytes, backup), fs))))"

definition file_ops_write ::
    "file_env \<Rightarrow> file_ops_policy \<Rightarrow> fs \<Rightarrow> json \<Rightarrow> (file_error, path \<times> nat \<times> path option) result \<times> fs" where
  "file_ops_write env policy fs params =
     (case write_request env policy fs params of Inl e \<Rightarrow> (Inl e, fs) | Inr (p, bytes) \<Rightarrow> replace_file p bytes fs)"

definition file_ops_write_reply :: "path \<times> nat \<times> path option \<Rightarrow> json" where
  "file_ops_write_reply r =
     (case r of (p, n, backup) \<Rightarrow>
        JObject [(''path'', JString (display p)), (''written'', JNumber (int n)),
          (''backup'', case backup of None \<Rightarrow> JNull | Some b \<Rightarrow> JString (display b))])"

definition file_ops_stat :: "file_env \<Rightarrow> file_ops_policy \<Rightarrow> fs \<Rightarrow> json \<Rightarrow> (file_error, json) result" where
  "file_ops_stat env policy fs params =
     rbind (required_param params ''path'') (\<lambda>raw.
     rbind (authorize_path env fs policy raw False) (\<lambda>p.
       case fs_get fs p of
         None \<Rightarrow> Inl (FsError p)
       | Some node \<Rightarrow> Inr (JObject
           [(''path'', JString (display p)), (''size'', JNumber (int (fs_size env node))), (''is_dir'', JBool (node = FsDir)),
            (''modified_unix'', case fe_modified env fs p of None \<Rightarrow> JNull | Some t \<Rightarrow> JNumber (int t)),
            (''mode'', JString (fe_mode env fs p)), (''readonly'', JBool (fe_readonly env fs p))])))"

text \<open>The metadata of a directory entry are those of the entry itself, also when it is a link.\<close>

fun entry_rows :: "file_env \<Rightarrow> fs \<Rightarrow> path \<Rightarrow> string list \<Rightarrow> (file_error, json list) result" where
  "entry_rows env fs p [] = Inr []"
| "entry_rows env fs p (n # ns) =
     (case fs_get fs (p @ [n]) of
        None \<Rightarrow> Inl (FsError (p @ [n]))
      | Some node \<Rightarrow> rbind (entry_rows env fs p ns) (\<lambda>rows. Inr (JObject
          [(''name'', JString n), (''is_dir'', JBool (node = FsDir)), (''size'', JNumber (int (fs_size env node)))] # rows)))"

definition file_ops_list :: "file_env \<Rightarrow> file_ops_policy \<Rightarrow> fs \<Rightarrow> json \<Rightarrow> (file_error, json) result" where
  "file_ops_list env policy fs params =
     rbind (required_param params ''path'') (\<lambda>raw.
     rbind (authorize_path env fs policy raw False) (\<lambda>p.
       if fs_get fs p \<noteq> Some FsDir then Inl (FsError p)
       else rbind (entry_rows env fs p (take 1000 (fe_readdir env fs p))) (\<lambda>rows.
         Inr (JObject [(''path'', JString (display p)), (''entries'', JArray rows)]))))"

definition file_ops_checksum :: "file_env \<Rightarrow> file_ops_policy \<Rightarrow> fs \<Rightarrow> json \<Rightarrow> (file_error, json) result" where
  "file_ops_checksum env policy fs params =
     rbind (required_param params ''path'') (\<lambda>raw.
     rbind (authorize_path env fs policy raw False) (\<lambda>p.
     rbind (fs_read fs p) (\<lambda>b.
       Inr (JObject [(''path'', JString (display p)), (''algorithm'', JString ''sha256''), (''checksum'', JString (fe_sha256 env b)),
         (''size'', JNumber (int (length b)))]))))"

text \<open>The texts of the errors, with the dash of the first one written as two hyphens.\<close>

definition file_message :: "file_env \<Rightarrow> file_error \<Rightarrow> string" where
  "file_message env e =
     (case e of
        EmptyAllowlist \<Rightarrow> ''file_ops.allowed_paths is empty -- no paths are permitted''
      | MissingParam key \<Rightarrow>
          ''missing required param: '' @ (if key = ''data'' then ''data (base64)'' else key)
      | NoParent \<Rightarrow> ''path has no parent''
      | NoFileName \<Rightarrow> ''path has no file name''
      | ParentMissing \<Rightarrow> ''parent directory does not exist''
      | CannotResolve raw \<Rightarrow> ''cannot resolve '' @ raw @ '': '' @ fe_os_error env raw
      | Outside p \<Rightarrow> ''path '' @ display p @ '' resolves outside the allowed prefixes''
      | OverCap what n cap \<Rightarrow>
          what @ '' is '' @ show_nat n @ '' bytes, over the '' @ show_nat (unat cap) @ ''-byte policy cap''
      | BadBase64 \<Rightarrow> ''data is not valid base64''
      | FsError p \<Rightarrow> fe_os_error env (display p))"

subsection \<open>Resolved paths\<close>

text \<open>A resolved path has no dots, its directories are directories, and it exists and is no link itself.\<close>

definition good_name :: "string \<Rightarrow> bool" where
  "good_name c \<longleftrightarrow> c \<noteq> [] \<and> c \<noteq> ''.'' \<and> c \<noteq> ''..''"

definition dirs_above :: "fs \<Rightarrow> path \<Rightarrow> bool" where
  "dirs_above fs p = list_all (\<lambda>k. fs_get fs (take k p) = Some FsDir) [0..<length p]"

definition resolved :: "fs \<Rightarrow> path \<Rightarrow> bool" where
  "resolved fs p \<longleftrightarrow> list_all good_name p \<and> dirs_above fs p \<and>
     (case fs_get fs p of None \<Rightarrow> False | Some (FsLink _) \<Rightarrow> False | _ \<Rightarrow> True)"

lemma dirs_above_snoc: "dirs_above fs (p @ [c]) \<longleftrightarrow> dirs_above fs p \<and> fs_get fs p = Some FsDir"
  by (auto simp: dirs_above_def list_all_iff)

lemma resolved_dir_snoc:
  "fs_get fs p = Some FsDir \<Longrightarrow> resolved fs p \<Longrightarrow> good_name c \<Longrightarrow>
     resolved fs (p @ [c]) \<longleftrightarrow> (case fs_get fs (p @ [c]) of None \<Rightarrow> False | Some (FsLink _) \<Rightarrow> False | _ \<Rightarrow> True)"
  by (simp add: resolved_def dirs_above_snoc)

lemma resolved_root [simp]: "resolved fs []" "fs_get fs [] = Some FsDir"
  by (simp_all add: resolved_def dirs_above_def fs_get_def)

lemma resolved_butlast:
  assumes "resolved fs p" "fs_get fs p = Some FsDir"
  shows "resolved fs (butlast p) \<and> fs_get fs (butlast p) = Some FsDir"
proof (cases p rule: rev_cases)
  case (snoc q c)
  then show ?thesis using assms by (auto simp: resolved_def dirs_above_snoc)
qed simp

lemma walk_resolved:
  "walk False n fs cur cs = Some p \<Longrightarrow> resolved fs cur \<Longrightarrow> fs_get fs cur = Some FsDir \<Longrightarrow> resolved fs p"
proof (induction False n fs cur cs arbitrary: p rule: walk.induct)
  case (2 n fs cur c cs)
  note IH = 2(1-4) and w = 2(5) and cur = 2(6, 7)
  consider "c = [] \<or> c = ''.''" | "c = ''..''" | "good_name c" by (auto simp: good_name_def)
  then show ?case
  proof cases
    case 1
    then show ?thesis using IH(1) w cur by auto
  next
    case 2
    then show ?thesis using IH(2) w resolved_butlast [OF cur] by auto
  next
    case 3
    then have c: "\<not> (c = [] \<or> c = ''.'')" "c \<noteq> ''..''" by (auto simp: good_name_def)
    show ?thesis
    proof (cases "fs_get fs (cur @ [c])")
      case None
      then show ?thesis using w c by simp
    next
      case (Some node)
      then show ?thesis
        using w c IH(3) [OF c Some] IH(4) [OF c Some] cur resolved_dir_snoc [OF cur(2, 1) 3]
        by (cases node) (auto split: if_splits)
    qed
  qed
qed simp

lemma resolved_step:
  assumes "resolved fs (cur @ c # ds)"
  shows "good_name c" "ds \<noteq> [] \<Longrightarrow> fs_get fs (cur @ [c]) = Some FsDir"
proof -
  show "good_name c" using assms by (simp add: resolved_def)
  assume "ds \<noteq> []"
  then have "length (cur @ [c]) < length (cur @ c # ds)" "take (length (cur @ [c])) (cur @ c # ds) = cur @ [c]"
    by (cases ds; simp)+
  then show "fs_get fs (cur @ [c]) = Some FsDir"
    using assms unfolding resolved_def dirs_above_def list_all_iff by (metis atLeastLessThan_iff set_upt zero_le)
qed

text \<open>Walking along a resolved path takes one to its end; past a regular file there is nothing.\<close>

lemma walk_through:
  "resolved fs (cur @ ds) \<Longrightarrow> fs_get fs (cur @ ds) = Some FsDir \<Longrightarrow>
     walk create n fs cur (ds @ cs) = walk create n fs (cur @ ds) cs"
proof (induction ds arbitrary: cur)
  case (Cons d ds)
  then have "good_name d" "fs_get fs (cur @ [d]) = Some FsDir" using resolved_step [of fs cur d ds] by (cases ds; simp)+
  then show ?case using Cons.IH [of "cur @ [d]"] Cons.prems by (simp add: good_name_def)
qed simp

lemma walk_self:
  "resolved fs (cur @ cs) \<Longrightarrow> walk create n fs cur cs = Some (cur @ cs)"
proof (induction cs arbitrary: cur)
  case (Cons c cs)
  note g = resolved_step [OF Cons.prems]
  show ?case
  proof (cases "cs = []")
    case True
    then show ?thesis using Cons.prems g(1) by (auto simp: resolved_def good_name_def split: option.splits fs_node.splits)
  next
    case False
    then show ?thesis using Cons.IH [of "cur @ [c]"] Cons.prems g by (simp add: good_name_def)
  qed
qed simp

lemma walk_past_file:
  assumes "resolved fs (cur @ ds)" "fs_get fs (cur @ ds) \<noteq> Some FsDir" "ds \<noteq> []"
  shows "walk create n fs cur (ds @ [c]) = None"
  using assms
proof (induction ds arbitrary: cur)
  case (Cons d ds)
  note g = resolved_step [OF Cons.prems(1)]
  show ?case
  proof (cases "ds = []")
    case True
    then show ?thesis using Cons.prems g(1) by (auto simp: good_name_def resolved_def split: option.splits fs_node.splits)
  next
    case False
    then show ?thesis using Cons.IH [of "cur @ [d]"] Cons.prems g by (simp add: good_name_def)
  qed
qed simp

lemma canonicalize_resolved:
  "canonicalize fs cwd raw = Some p \<Longrightarrow> resolved fs cwd \<Longrightarrow> fs_get fs cwd = Some FsDir \<Longrightarrow> resolved fs p"
  by (auto simp: canonicalize_def split: if_splits dest!: walk_resolved)

lemma fs_read_resolved:
  "resolved fs p \<Longrightarrow> fs_read fs p =
     (case fs_get fs p of Some (FsFile b) \<Rightarrow> Inr b | Some (FsSpecial _ (Some b)) \<Rightarrow> Inr b | _ \<Rightarrow> Inl (FsError p))"
  using walk_self [of fs "[]" p] by (simp add: fs_read_def)

lemma authorize_Inr:
  assumes "authorize_path env fs policy raw w = Inr p"
  shows "resolve_request env fs raw w = Inr p"
    and "\<exists>a q. a \<in> set (fo_allowed_paths policy) \<and> canonicalize fs (fe_cwd env) a = Some q \<and> prefix q p"
  using assms
  by (auto simp: authorize_path_def rbind_def under_allowed_def list_ex_iff split: if_splits sum.splits option.splits)

text \<open>
  Claim C9.  Reading stays inside: what a read returns is the content of something whose resolved path lies under the
  resolved path of an allowed prefix and has no symbolic link on it.  That is a regular file no longer than the
  policy's limit, or a special file of which only the reported size is within the limit, not what was read.
\<close>

theorem file_read_confined:
  assumes "file_ops_read env policy fs params = Inr (p, b)"
    and "resolved fs (fe_cwd env)" "fs_get fs (fe_cwd env) = Some FsDir"
  shows "resolved fs p \<and>
    (\<exists>a q. a \<in> set (fo_allowed_paths policy) \<and> canonicalize fs (fe_cwd env) a = Some q \<and> prefix q p) \<and>
    (fs_get fs p = Some (FsFile b) \<and> length b \<le> unat (fo_max_bytes policy) \<or>
     (\<exists>n. fs_get fs p = Some (FsSpecial n (Some b)) \<and> n \<le> unat (fo_max_bytes policy)))"
proof -
  obtain raw node where a: "authorize_path env fs policy raw False = Inr p" "fs_get fs p = Some node"
      "\<not> over_cap (fs_size env node) policy" "fs_read fs p = Inr b"
    using assms(1) by (auto simp: file_ops_read_def rbind_def split: sum.splits option.splits if_splits)
  have "canonicalize fs (fe_cwd env) raw = Some p"
    using authorize_Inr(1) [OF a(1)] by (auto simp: resolve_request_def split: option.splits)
  then have r: "resolved fs p" using canonicalize_resolved assms(2, 3) by blast
  then have "node = FsFile b \<or> (\<exists>n. node = FsSpecial n (Some b))"
    using a(2, 4) fs_read_resolved [OF r] by (auto split: fs_node.splits option.splits)
  then show ?thesis using a(2, 3) r authorize_Inr(2) [OF a(1)] by (auto simp: over_cap_def fs_size_def)
qed

subsection \<open>Writing\<close>

text \<open>A name that is free or a regular file, and so is written in place.\<close>

definition plain_name :: "fs \<Rightarrow> path \<Rightarrow> bool" where
  "plain_name fs p = (case fs_get fs p of None \<Rightarrow> True | Some (FsFile _) \<Rightarrow> True | _ \<Rightarrow> False)"

lemma fs_write_in_place:
  assumes "resolved fs d" "fs_get fs d = Some FsDir" "good_name c" "plain_name fs (d @ [c])"
  shows "fs_write (d @ [c]) b fs = (Inr (), fs(d @ [c] \<mapsto> FsFile b))"
proof -
  have "walk True MAX_LINKS fs [] (d @ [c]) = walk True MAX_LINKS fs d [c]"
    using walk_through [of fs "[]" d] assms(1, 2) by simp
  also have "\<dots> = Some (d @ [c])"
    using assms(3, 4) by (auto simp: good_name_def plain_name_def split: option.splits fs_node.splits)
  finally show ?thesis using assms(4) by (auto simp: fs_write_def plain_name_def split: option.splits fs_node.splits)
qed

lemma resolved_child_update:
  assumes "resolved fs d"
  shows "resolved (fs(d @ [c] := x)) d" "fs_get (fs(d @ [c] := x)) d = fs_get fs d"
proof -
  have g: "fs_get (fs(d @ [c] := x)) (take k d) = fs_get fs (take k d)" for k
  proof -
    have "length (take k d) < length (d @ [c])" by simp
    then have "take k d \<noteq> d @ [c]" by (metis less_irrefl)
    then show ?thesis by (simp only: fs_get_def fun_upd_def if_False)
  qed
  show d: "fs_get (fs(d @ [c] := x)) d = fs_get fs d" using g [of "length d"] by (simp only: take_all order_refl)
  show "resolved (fs(d @ [c] := x)) d" using assms unfolding resolved_def dirs_above_def g d .
qed

lemma good_with_extension:
  assumes "2 \<le> length ext"
  shows "good_name (file_stem n @ ''.'' @ ext)"
proof -
  have "2 < length (file_stem n @ ''.'' @ ext)" using assms by simp
  then show ?thesis unfolding good_name_def by (metis length_Cons list.size(3) less_irrefl not_less0 not_less_eq numeral_2_eq_2 less_SucI)
qed

text \<open>Writing a plain name changes no path that could be resolved before.\<close>

lemma walk_plain_update:
  "walk False n fs cur cs = Some q \<Longrightarrow> plain_name fs b \<Longrightarrow> b \<noteq> [] \<Longrightarrow> walk False n (fs(b \<mapsto> FsFile x)) cur cs = Some q"
proof (induction False n fs cur cs arbitrary: q rule: walk.induct)
  case (2 n fs cur c cs)
  note IH = 2(1-4) and w = 2(5) and b = 2(6, 7)
  consider "c = [] \<or> c = ''.''" | "c = ''..''" | "good_name c" by (auto simp: good_name_def)
  then show ?case
  proof cases
    case 1
    then show ?thesis using IH(1) w b by auto
  next
    case 2
    then show ?thesis using IH(2) w b by auto
  next
    case 3
    then have c: "\<not> (c = [] \<or> c = ''.'')" "c \<noteq> ''..''" by (auto simp: good_name_def)
    obtain node where node: "fs_get fs (cur @ [c]) = Some node" using w c by (auto split: option.splits)
    let ?node = "fs_get (fs(b \<mapsto> FsFile x)) (cur @ [c])"
    show ?thesis
    proof (cases "cur @ [c] = b")
      case True
      then have "?node = Some (FsFile x)" by (auto simp: fs_get_def)
      moreover obtain y where "node = FsFile y" using node b(1) True by (auto simp: plain_name_def split: fs_node.splits)
      ultimately show ?thesis using w c node by (simp split: if_splits)
    next
      case False
      then have g: "?node = Some node" using node by (simp add: fs_get_def)
      show ?thesis
      proof (cases node)
        case (FsLink t)
        then have n: "n \<noteq> 0" using w c node by (auto split: if_splits)
        then show ?thesis using IH(4) [OF c node FsLink n _ b] w c node g FsLink by simp
      qed (use w c node g IH(3) [OF c node] b in \<open>auto split: if_splits\<close>)
    qed
  qed
qed simp

lemma with_extension_snoc: "with_extension (d @ [c]) ext = d @ [file_stem c @ ''.'' @ ext]"
  by (simp add: with_extension_def)

lemma with_extension_ne [simp]: "with_extension p ext \<noteq> []"
  by (simp add: with_extension_def)

lemma bak_tmp_ne: "with_extension p ''guestkit-bak'' \<noteq> with_extension p ''guestkit-tmp''"
  by (simp add: with_extension_def)

lemma fs_write_beside:
  assumes "resolved fs d" "fs_get fs d = Some FsDir" "2 \<le> length ext" "plain_name fs (with_extension (d @ [c]) ext)"
  shows "fs_write (with_extension (d @ [c]) ext) b fs = (Inr (), fs(with_extension (d @ [c]) ext \<mapsto> FsFile b))"
  using fs_write_in_place [OF assms(1, 2) good_with_extension [OF assms(3)]] assms(4) by (simp only: with_extension_snoc)

lemma plain_name_self: "b \<noteq> [] \<Longrightarrow> plain_name (fs(b \<mapsto> FsFile x)) b"
  by (simp add: plain_name_def fs_get_def)

lemma fs_backup:
  assumes d: "resolved fs d" "fs_get fs d = Some FsDir"
    and b: "2 \<le> length ext" "plain_name fs (with_extension (d @ [c]) ext)"
    and q: "walk False MAX_LINKS fs [] (d @ [c]) = Some q" "fs_get fs q = Some (FsFile old)" "q \<noteq> with_extension (d @ [c]) ext"
  shows "fs_copy (d @ [c]) (with_extension (d @ [c]) ext) fs = (Inr (), fs(with_extension (d @ [c]) ext \<mapsto> FsFile old))"
proof -
  define bak where "bak = with_extension (d @ [c]) ext"
  have child: "bak = d @ [file_stem c @ ''.'' @ ext]" by (simp only: bak_def with_extension_snoc)
  let ?fs = "fs(bak \<mapsto> FsFile [])"
  have dir: "resolved ?fs d" "fs_get ?fs d = Some FsDir"
    unfolding child using resolved_child_update [OF d(1)] d(2) by simp_all
  have "walk False MAX_LINKS ?fs [] (d @ [c]) = Some q"
    by (rule walk_plain_update [OF q(1)]) (use b(2) in \<open>simp_all add: bak_def\<close>)
  moreover have "fs_get ?fs q = Some (FsFile old)" using q(2, 3) by (simp add: fs_get_def bak_def split: if_splits)
  ultimately have "fs_read ?fs (d @ [c]) = Inr old" by (simp add: fs_read_def)
  moreover have "is_regular fs (d @ [c])" using q(1, 2) by (simp add: is_regular_def)
  moreover have "fs_write bak [] fs = (Inr (), ?fs)" unfolding bak_def by (rule fs_write_beside [OF d b])
  moreover have "fs_write bak old ?fs = (Inr (), ?fs(bak \<mapsto> FsFile old))"
    unfolding bak_def by (rule fs_write_beside [OF dir [unfolded bak_def] b(1) plain_name_self]) simp
  ultimately show ?thesis unfolding bak_def [symmetric] by (simp add: fs_copy_def fs_bind_def)
qed

lemma fs_replace:
  assumes "resolved fs d" "fs_get fs d = Some FsDir" "2 \<le> length ext" "plain_name fs (with_extension (d @ [c]) ext)"
    and "d @ [c] \<noteq> with_extension (d @ [c]) ext"
    and "fs_write (with_extension (d @ [c]) ext) b fs = (Inr (), fs2)"
      "fs_rename (with_extension (d @ [c]) ext) (d @ [c]) fs2 = (Inr (), fs')"
  shows "fs' = (fs(d @ [c] \<mapsto> FsFile b))(with_extension (d @ [c]) ext := None)"
proof -
  have "fs2 = fs(with_extension (d @ [c]) ext \<mapsto> FsFile b)" using fs_write_beside [OF assms(1-4)] assms(6) by simp
  then have "fs' = (fs(with_extension (d @ [c]) ext \<mapsto> FsFile b, d @ [c] \<mapsto> FsFile b))(with_extension (d @ [c]) ext := None)"
    using assms(5, 7) unfolding fs_rename_def by (simp add: fs_get_def split: if_splits)
  then show ?thesis using assms(5) by (simp add: fun_upd_twist)
qed

lemma fs_copy_writes: "fs_copy p b fs = (Inr (), fs') \<Longrightarrow> \<exists>fs1. fs_write b [] fs = (Inr (), fs1)"
  by (auto simp: fs_copy_def fs_bind_def split: if_splits prod.splits sum.splits)

lemma fs_copy_reads:
  "fs_copy p b fs = (Inr (), fs') \<Longrightarrow> \<exists>q old. walk False MAX_LINKS fs [] p = Some q \<and> fs_get fs q = Some (FsFile old)"
  by (auto simp: fs_copy_def is_regular_def split: if_splits option.splits fs_node.splits)

lemma fs_write_parent_dir:
  assumes "resolved fs d" "fs_write (d @ [c]) b fs = (Inr (), fs')"
  shows "fs_get fs d = Some FsDir"
proof (rule ccontr)
  assume n: "fs_get fs d \<noteq> Some FsDir"
  then have "d \<noteq> []" by auto
  then have "walk True MAX_LINKS fs [] (d @ [c]) = None" using walk_past_file [of fs "[]" d] assms(1) n by simp
  then show False using assms(2) by (simp add: fs_write_def)
qed

lemma authorize_write_parent:
  assumes "authorize_path env fs policy raw True = Inr p"
    and "resolved fs (fe_cwd env)" "fs_get fs (fe_cwd env) = Some FsDir"
  shows "p = [] \<or> (\<exists>d c. p = d @ [c] \<and> resolved fs d)"
proof (cases "canonicalize fs (fe_cwd env) raw")
  case None
  then obtain d c where dc: "parent_dir fs (fe_cwd env) raw = Some d" "p = d @ [c]"
    using authorize_Inr(1) [OF assms(1)] by (auto simp: resolve_request_def split: if_splits option.splits)
  then have "resolved fs d"
    using assms(2, 3) by (auto simp: parent_dir_def Let_def split: if_splits dest!: walk_resolved)
  then show ?thesis using dc(2) by blast
next
  case (Some q)
  then have "resolved fs p"
    using authorize_Inr(1) [OF assms(1)] canonicalize_resolved [OF _ assms(2, 3)] by (auto simp: resolve_request_def)
  then show ?thesis by (cases p rule: rev_cases) (auto simp: resolved_def dirs_above_snoc)
qed

lemma write_request_Inr:
  assumes "write_request env policy fs params = Inr (p, bytes)"
  shows "\<exists>raw data. required_param params ''data'' = Inr data \<and> fe_decode env data = Some bytes \<and>
    \<not> over_cap (length bytes) policy \<and> authorize_path env fs policy raw True = Inr p"
  using assms by (auto simp: write_request_def rbind_def split: sum.splits option.splits if_splits)

lemma make_backup_run:
  assumes "make_backup p fs = (Inr backup, fs')"
  shows "if fs_exists fs p then backup = Some (with_extension p ''guestkit-bak'') \<and> fs_copy p (with_extension p ''guestkit-bak'') fs = (Inr (), fs')
    else backup = None \<and> fs' = fs"
  using assms by (auto simp: make_backup_def fs_bind_def Let_def split: if_splits prod.splits sum.splits)

lemma replace_file_run:
  assumes "replace_file p0 bytes fs = (Inr (p, n, backup), fs')"
  shows "p0 = p \<and> n = length bytes"
    and "\<exists>fs1 fs2. make_backup p fs = (Inr backup, fs1) \<and> fs_write (with_extension p ''guestkit-tmp'') bytes fs1 = (Inr (), fs2) \<and>
      fs_rename (with_extension p ''guestkit-tmp'') p fs2 = (Inr (), fs')"
  using assms by (auto simp: replace_file_def fs_bind_def Let_def split: prod.splits sum.splits)

text \<open>
  Claim C10.  What a write does when no link, no directory and no special file has the names of its temporary file and of
  its backup: the file under an allowed prefix holds exactly the decoded bytes, what reading it gave before is in the
  backup beside it, there is a backup exactly when the file existed, the temporary file is gone and nothing else has
  changed.
\<close>

theorem file_write_exact:
  assumes "file_ops_write env policy fs params = (Inr (p, n, backup), fs')"
    and cwd: "resolved fs (fe_cwd env)" "fs_get fs (fe_cwd env) = Some FsDir"
    and plain: "plain_name fs (with_extension p ''guestkit-bak'')" "plain_name fs (with_extension p ''guestkit-tmp'')"
    and ne: "p \<noteq> with_extension p ''guestkit-tmp''" "walk False MAX_LINKS fs [] p \<noteq> Some (with_extension p ''guestkit-bak'')"
  shows "\<exists>data bytes. required_param params ''data'' = Inr data \<and> fe_decode env data = Some bytes \<and>
    n = length bytes \<and> n \<le> unat (fo_max_bytes policy) \<and> under_allowed env fs (fo_allowed_paths policy) p \<and>
    (case backup of
       None \<Rightarrow> \<not> fs_exists fs p \<and> fs' = (fs(p \<mapsto> FsFile bytes))(with_extension p ''guestkit-tmp'' := None)
     | Some b \<Rightarrow> b = with_extension p ''guestkit-bak'' \<and>
         (\<exists>old. fs_read fs p = Inr old \<and>
            fs' = (fs(b \<mapsto> FsFile old, p \<mapsto> FsFile bytes))(with_extension p ''guestkit-tmp'' := None)))"
proof -
  let ?bak = "with_extension p ''guestkit-bak''" and ?tmp = "with_extension p ''guestkit-tmp''"
  obtain p' bytes where w: "write_request env policy fs params = Inr (p', bytes)" "replace_file p' bytes fs = (Inr (p, n, backup), fs')"
    using assms(1) by (auto simp: file_ops_write_def split: sum.splits)
  note run = replace_file_run [OF w(2)]
  obtain raw data where f: "required_param params ''data'' = Inr data" "fe_decode env data = Some bytes"
      "\<not> over_cap (length bytes) policy" "authorize_path env fs policy raw True = Inr p"
    using write_request_Inr [OF w(1)] run(1) by blast
  obtain fs1 fs2 where g: "make_backup p fs = (Inr backup, fs1)" "fs_write ?tmp bytes fs1 = (Inr (), fs2)"
      "fs_rename ?tmp p fs2 = (Inr (), fs')"
    using run by auto
  have "p \<noteq> []" using make_backup_run [OF g(1)] by (auto simp: fs_exists_def dest!: fs_copy_reads)
  then obtain d c where d: "p = d @ [c]" "resolved fs d" using authorize_write_parent [OF f(4) cwd] by blast
  have allowed: "under_allowed env fs (fo_allowed_paths policy) p"
    using f(4) by (auto simp: authorize_path_def rbind_def split: if_splits sum.splits)
  have cap: "n = length bytes" "n \<le> unat (fo_max_bytes policy)" using f(3) run(1) by (simp_all add: over_cap_def)
  show ?thesis
  proof (cases "fs_exists fs p")
    case False
    then have b: "fs1 = fs" "backup = None" using make_backup_run [OF g(1)] by auto
    have "fs_get fs d = Some FsDir" using fs_write_parent_dir d g(2) by (simp add: b with_extension_snoc)
    then have "fs' = (fs(p \<mapsto> FsFile bytes))(?tmp := None)"
      using fs_replace [OF d(2), of "''guestkit-tmp''" c bytes fs2 fs'] plain(2) ne(1) g(2, 3) b d(1) by simp
    then show ?thesis using f(1, 2) allowed cap False b by simp
  next
    case True
    then have cp: "fs_copy p ?bak fs = (Inr (), fs1)" "backup = Some ?bak" using make_backup_run [OF g(1)] by auto
    then obtain q old where q: "walk False MAX_LINKS fs [] p = Some q" "fs_get fs q = Some (FsFile old)"
      using fs_copy_reads by blast
    have dir: "fs_get fs d = Some FsDir" using fs_copy_writes [OF cp(1)] fs_write_parent_dir [OF d(2)] d(1) by (auto simp: with_extension_snoc)
    have fs1: "fs1 = fs(?bak \<mapsto> FsFile old)"
      using fs_backup [OF d(2) dir, of "''guestkit-bak''" c q old] plain(1) ne(2) q cp(1) d(1) by simp
    have "resolved fs1 d" "fs_get fs1 d = Some FsDir"
      unfolding fs1 d(1) with_extension_snoc using resolved_child_update [OF d(2)] dir by simp_all
    moreover have "plain_name fs1 ?tmp" using plain(2) bak_tmp_ne [of p] by (simp add: fs1 plain_name_def fs_get_def)
    ultimately have "fs' = (fs1(p \<mapsto> FsFile bytes))(?tmp := None)"
      using fs_replace [of fs1 d "''guestkit-tmp''" c bytes fs2 fs'] ne(1) g(2, 3) d(1) by simp
    moreover have "fs_read fs p = Inr old" using q by (simp add: fs_read_def)
    ultimately show ?thesis using f(1, 2) allowed cap cp(2) fs1 by simp
  qed
qed

subsection \<open>Paths with a slash at their end\<close>

definition slash_free :: "path \<Rightarrow> bool" where
  "slash_free p = list_all (\<lambda>c. good_name c \<and> CHR ''/'' \<notin> set c) p"

lemma join_slash: "p \<noteq> [] \<Longrightarrow> join ''/'' p @ ''/'' = join ''/'' (p @ [[]])"
  by (induction "''/''" p rule: join.induct) auto

lemma split_on_display:
  assumes "slash_free p" "p \<noteq> []"
  shows "split_on (CHR ''/'') (display p) = [] # p" "split_on (CHR ''/'') (display p @ ''/'') = [] # p @ [[]]"
proof -
  have "split_on (CHR ''/'') (join ''/'' p) = p" "split_on (CHR ''/'') (join ''/'' (p @ [[]])) = p @ [[]]"
    using assms by (auto intro!: split_on_join simp: slash_free_def list_all_iff)
  then show "split_on (CHR ''/'') (display p) = [] # p" "split_on (CHR ''/'') (display p @ ''/'') = [] # p @ [[]]"
    using join_slash [OF assms(2)] by (simp_all add: display_def)
qed

lemma path_components_display:
  assumes "slash_free p" "p \<noteq> []"
  shows "path_components (display p @ ''/'') = p"
proof -
  have "filter (\<lambda>c. c \<noteq> [] \<and> c \<noteq> ''.'') p = p"
    using assms(1) by (auto simp: slash_free_def list_all_iff good_name_def intro!: filter_True)
  then show ?thesis by (simp add: path_components_def split_on_display [OF assms])
qed

text \<open>A path that ends at something other than a directory does not resolve with a slash at its end.\<close>

lemma walk_slash_end:
  "walk False n fs cur cs = Some q \<Longrightarrow> fs_get fs q \<noteq> Some FsDir \<Longrightarrow> resolved fs cur \<Longrightarrow> fs_get fs cur = Some FsDir \<Longrightarrow>
     walk False n fs cur (cs @ [[]]) = None"
proof (induction False n fs cur cs arbitrary: q rule: walk.induct)
  case (2 n fs cur c cs)
  note IH = 2(1-4) and w = 2(5) and q = 2(6) and cur = 2(7, 8)
  consider "c = [] \<or> c = ''.''" | "c = ''..''" | "good_name c" by (auto simp: good_name_def)
  then show ?case
  proof cases
    case 1
    then show ?thesis using IH(1) w q cur by auto
  next
    case 2
    then show ?thesis using IH(2) w q resolved_butlast [OF cur] by auto
  next
    case 3
    then have c: "\<not> (c = [] \<or> c = ''.'')" "c \<noteq> ''..''" by (auto simp: good_name_def)
    obtain node where node: "fs_get fs (cur @ [c]) = Some node" using w c by (auto split: option.splits)
    show ?thesis
    proof (cases node)
      case (FsLink t)
      then have n: "n \<noteq> 0" using w c node by (auto split: if_splits)
      then show ?thesis using IH(4) [OF c node FsLink n _ q] w c node FsLink cur by (simp split: if_splits)
    next
      case FsDir
      have "resolved fs (cur @ [c])" using resolved_dir_snoc [OF cur(2, 1) 3] node FsDir by simp
      then show ?thesis using IH(3) [OF c node FsDir _ q] w c node FsDir by simp
    qed (use w c node in \<open>simp_all split: if_splits\<close>)
  qed
qed simp

lemma under_allowed_child: "under_allowed env fs allowed d \<Longrightarrow> under_allowed env fs allowed (d @ e)"
  by (auto simp: under_allowed_def list_ex_iff split: option.splits)

lemma authorize_slash_link:
  assumes p: "p = d @ [c]" "slash_free p" and d: "resolved fs d" "fs_get fs d = Some FsDir"
    and q: "walk False MAX_LINKS fs [] p = Some q" "fs_get fs q \<noteq> Some FsDir"
    and a: "under_allowed env fs (fo_allowed_paths policy) d"
  shows "authorize_path env fs policy (display p @ ''/'') True = Inr p"
proof -
  have "p \<noteq> []" by (simp add: p(1))
  note split = split_on_display [OF p(2) this] and comps = path_components_display [OF p(2) this]
  have abs: "starts_with (display p @ ''/'') ''/''" by (simp add: display_def starts_with_def)
  have "canonicalize fs (fe_cwd env) (display p @ ''/'') = None"
    using walk_slash_end [OF q] abs by (simp add: canonicalize_def split)
  moreover have "parent_dir fs (fe_cwd env) (display p @ ''/'') = Some d"
    unfolding parent_dir_def comps Let_def using walk_self [of fs "[]" d] d(1) abs by (simp add: p(1))
  moreover have "file_name (display p @ ''/'') = Some c"
    unfolding file_name_def comps Let_def using p by (simp add: slash_free_def good_name_def)
  ultimately have "resolve_request env fs (display p @ ''/'') True = Inr p"
    unfolding resolve_request_def comps by (simp add: p(1))
  moreover have "fo_allowed_paths policy \<noteq> []" using a by (auto simp: under_allowed_def)
  ultimately show ?thesis using under_allowed_child [OF a, of "[c]"] by (simp add: authorize_path_def p(1))
qed

lemma authorize_link_outside:
  assumes "slash_free p" "p \<noteq> []" "walk False MAX_LINKS fs [] p = Some q"
    and "fo_allowed_paths policy \<noteq> []" "\<not> under_allowed env fs (fo_allowed_paths policy) q"
  shows "authorize_path env fs policy (display p) w = Inl (Outside q)"
proof -
  have "canonicalize fs (fe_cwd env) (display p) = Some q"
    using assms(3) by (simp add: canonicalize_def split_on_display [OF assms(1, 2)]) (simp add: display_def starts_with_def)
  then show ?thesis using assms(4, 5) by (simp add: authorize_path_def resolve_request_def)
qed

text \<open>
  Claim C11.  A link \<open>p\<close> in an allowed directory \<open>d\<close> does reach outside: let it lead to a regular file \<open>q\<close> that is under no
  allowed prefix.  The path of the link is refused as outside.  The same path with a slash at its end does not resolve,
  so that the write falls back to the link's own name, accepts it, and leaves the content of \<open>q\<close> in a backup that lies
  under the allowed prefix.
\<close>

theorem file_write_leaks:
  assumes "required_param params ''path'' = Inr (display p @ ''/'')" "required_param params ''data'' = Inr data"
    and "fe_decode env data = Some bytes" "\<not> over_cap (length bytes) policy"
    and p: "p = d @ [c]" "slash_free p" "fs_get fs p = Some (FsLink target)"
    and d: "resolved fs d" "fs_get fs d = Some FsDir" "under_allowed env fs (fo_allowed_paths policy) d"
    and q: "walk False MAX_LINKS fs [] p = Some q" "fs_get fs q = Some (FsFile secret)"
      "\<not> under_allowed env fs (fo_allowed_paths policy) q"
    and plain: "plain_name fs (with_extension p ''guestkit-bak'')" "plain_name fs (with_extension p ''guestkit-tmp'')"
  shows "authorize_path env fs policy (display p) w = Inl (Outside q) \<and>
    under_allowed env fs (fo_allowed_paths policy) (with_extension p ''guestkit-bak'') \<and>
    (\<exists>fs'. file_ops_write env policy fs params = (Inr (p, length bytes, Some (with_extension p ''guestkit-bak'')), fs') \<and>
       fs' (with_extension p ''guestkit-bak'') = Some (FsFile secret))"
proof -
  let ?bak = "with_extension p ''guestkit-bak''" and ?tmp = "with_extension p ''guestkit-tmp''"
  have ne: "p \<noteq> ?bak" "p \<noteq> ?tmp" "p \<noteq> []" using p(1, 3) plain by (auto simp: plain_name_def)
  have "fo_allowed_paths policy \<noteq> []" using d(3) by (auto simp: under_allowed_def)
  then have out: "authorize_path env fs policy (display p) w = Inl (Outside q)"
    by (rule authorize_link_outside [OF p(2) ne(3) q(1) _ q(3)])
  have bak: "under_allowed env fs (fo_allowed_paths policy) ?bak"
    using under_allowed_child [OF d(3)] by (simp add: p(1) with_extension_snoc)
  then have "q \<noteq> ?bak" using q(3) by auto
  define fs1 where "fs1 = fs(?bak \<mapsto> FsFile secret)"
  have "fs_copy p ?bak fs = (Inr (), fs1)" "fs_exists fs p"
    using fs_backup [OF d(1, 2), of "''guestkit-bak''" c q secret] p(1) q(1, 2) plain(1) \<open>q \<noteq> ?bak\<close>
    by (simp_all add: fs1_def fs_exists_def)
  then have cp: "make_backup p fs = (Inr (Some ?bak), fs1)" by (simp add: make_backup_def Let_def fs_bind_def)
  have "resolved fs1 d" "fs_get fs1 d = Some FsDir"
    unfolding fs1_def p(1) with_extension_snoc using resolved_child_update [OF d(1)] d(2) by simp_all
  moreover have "plain_name fs1 ?tmp" using plain(2) bak_tmp_ne [of p] by (simp add: fs1_def plain_name_def fs_get_def)
  ultimately have w: "fs_write ?tmp bytes fs1 = (Inr (), fs1(?tmp \<mapsto> FsFile bytes))"
    using fs_write_beside [of fs1 d "''guestkit-tmp''" c] p(1) by simp
  have "fs_get fs1 p = Some (FsLink target)" using p(3) ne by (simp add: fs1_def fs_get_def)
  then have r: "fs_rename ?tmp p (fs1(?tmp \<mapsto> FsFile bytes)) = (Inr (), (fs1(?tmp \<mapsto> FsFile bytes, p \<mapsto> FsFile bytes))(?tmp := None))"
    using ne by (simp add: fs_rename_def fs_get_def)
  have "authorize_path env fs policy (display p @ ''/'') True = Inr p"
    by (rule authorize_slash_link [OF p(1, 2) d(1, 2) q(1) _ d(3)]) (simp add: q(2))
  then have "write_request env policy fs params = Inr (p, bytes)" using assms(1-4) by (simp add: write_request_def)
  then have "file_ops_write env policy fs params =
      (Inr (p, length bytes, Some ?bak), (fs1(?tmp \<mapsto> FsFile bytes, p \<mapsto> FsFile bytes))(?tmp := None))"
    by (simp add: file_ops_write_def replace_file_def fs_bind_def Let_def cp w r)
  then show ?thesis using out bak ne bak_tmp_ne [of p] by (simp add: fs1_def)
qed

text \<open>
  Nor does the temporary file stay inside: when the name of the temporary file is a symbolic link, the bytes go to the
  file the link points to, wherever that is, and the requested path becomes that link.
\<close>

theorem file_write_escapes:
  assumes "write_request env policy fs params = Inr (p, bytes)" "\<not> fs_exists fs p" "fs_get fs p \<noteq> Some FsDir"
    and "fs_get fs (with_extension p ''guestkit-tmp'') = Some (FsLink target)"
    and "walk True MAX_LINKS fs [] (with_extension p ''guestkit-tmp'') = Some q" "plain_name fs q"
    and "q \<noteq> p" "q \<noteq> with_extension p ''guestkit-tmp''" "p \<noteq> with_extension p ''guestkit-tmp''" "p \<noteq> []"
  shows "\<exists>fs'. file_ops_write env policy fs params = (Inr (p, length bytes, None), fs') \<and>
    fs' q = Some (FsFile bytes) \<and> fs' p = Some (FsLink target)"
proof -
  let ?tmp = "with_extension p ''guestkit-tmp''"
  have tmp: "?tmp \<noteq> []" by (simp add: with_extension_def)
  have w: "fs_write ?tmp bytes fs = (Inr (), fs(q \<mapsto> FsFile bytes))"
    using assms(5, 6) by (auto simp: fs_write_def plain_name_def split: option.splits fs_node.splits)
  have "fs_get (fs(q \<mapsto> FsFile bytes)) ?tmp = Some (FsLink target)" "fs_get (fs(q \<mapsto> FsFile bytes)) p \<noteq> Some FsDir"
    using assms(3, 4, 7, 8, 10) tmp by (auto simp: fs_get_def)
  then have r: "fs_rename ?tmp p (fs(q \<mapsto> FsFile bytes)) = (Inr (), (fs(q \<mapsto> FsFile bytes, p \<mapsto> FsLink target))(?tmp := None))"
    using assms(9) by (simp add: fs_rename_def)
  have "make_backup p fs = (Inr None, fs)" using assms(2) by (simp add: make_backup_def)
  then have "file_ops_write env policy fs params =
      (Inr (p, length bytes, None), (fs(q \<mapsto> FsFile bytes, p \<mapsto> FsLink target))(?tmp := None))"
    by (simp add: file_ops_write_def assms(1) replace_file_def fs_bind_def Let_def w r)
  then show ?thesis using assms(7, 8, 9) by auto
qed

subsection \<open>Concrete requests\<close>

definition files_env :: file_env where
  "files_env = \<lparr>fe_cwd = [], fe_encode = (\<lambda>b. []), fe_decode = (\<lambda>s. Some (map of_char s)), fe_sha256 = (\<lambda>b. []),
     fe_readdir = (\<lambda>fs p. []), fe_dir_size = 0, fe_modified = (\<lambda>fs p. None), fe_mode = (\<lambda>fs p. ''644''),
     fe_readonly = (\<lambda>fs p. False), fe_os_error = (\<lambda>s. s)\<rparr>"

definition sample_policy :: file_ops_policy where
  "sample_policy = \<lparr>fo_enabled = True, fo_allowed_paths = [''/srv''], fo_max_bytes = 9\<rparr>"

definition sample_fs :: fs where
  "sample_fs = map_of [([''srv''], FsDir), ([''srv'', ''a.txt''], FsFile [1, 2]), ([''srv'', ''link''], FsLink ''/etc/shadow''),
     ([''etc''], FsDir), ([''etc'', ''shadow''], FsFile [7])]"

definition sample_params :: "string \<Rightarrow> json" where
  "sample_params raw = JObject [(''path'', JString raw), (''data'', JString ''x'')]"

lemma sample_cwd: "resolved sample_fs (fe_cwd files_env)" "fs_get sample_fs (fe_cwd files_env) = Some FsDir"
  by (simp_all add: files_env_def)

theorem file_read_confined_witness:
  "\<exists>a q. a \<in> set (fo_allowed_paths sample_policy) \<and> canonicalize sample_fs (fe_cwd files_env) a = Some q \<and> prefix q [''srv'', ''a.txt'']"
proof -
  have "file_ops_read files_env sample_policy sample_fs (sample_params ''/srv/../srv/a.txt'') = Inr ([''srv'', ''a.txt''], [1, 2])"
    by code_simp
  from file_read_confined [OF this sample_cwd] show ?thesis by (elim conjE)
qed

text \<open>The limit does not bound what is read from a special file.\<close>

lemma special_read_over_cap:
  "file_ops_read files_env sample_policy (sample_fs([''srv'', ''tap''] \<mapsto> FsSpecial 0 (Some (replicate 10 0)))) (sample_params ''/srv/tap'') =
     Inr ([''srv'', ''tap''], replicate 10 0)"
  by code_simp

theorem file_write_exact_witness:
  "\<exists>fs'. file_ops_write files_env sample_policy sample_fs (sample_params ''/srv/a.txt'') =
       (Inr ([''srv'', ''a.txt''], 1, Some [''srv'', ''a.guestkit-bak'']), fs') \<and>
     fs' = (sample_fs([''srv'', ''a.guestkit-bak''] \<mapsto> FsFile [1, 2], [''srv'', ''a.txt''] \<mapsto> FsFile [120]))
       (with_extension [''srv'', ''a.txt''] ''guestkit-tmp'' := None)"
proof -
  let ?p = "[''srv'', ''a.txt'']" and ?w = "file_ops_write files_env sample_policy sample_fs (sample_params ''/srv/a.txt'')"
  define fs' where "fs' = snd ?w"
  have "fst ?w = Inr (?p, 1, Some [''srv'', ''a.guestkit-bak''])" by code_simp
  then have w: "?w = (Inr (?p, 1, Some [''srv'', ''a.guestkit-bak'']), fs')" unfolding fs'_def by (metis prod.collapse)
  have plain: "plain_name sample_fs (with_extension ?p ''guestkit-bak'')" "plain_name sample_fs (with_extension ?p ''guestkit-tmp'')"
    by code_simp+
  have ne: "?p \<noteq> with_extension ?p ''guestkit-tmp''" "walk False MAX_LINKS sample_fs [] ?p \<noteq> Some (with_extension ?p ''guestkit-bak'')"
    by code_simp+
  obtain data bytes old where e: "required_param (sample_params ''/srv/a.txt'') ''data'' = Inr data" "fe_decode files_env data = Some bytes"
      "fs_read sample_fs ?p = Inr old"
      "fs' = (sample_fs([''srv'', ''a.guestkit-bak''] \<mapsto> FsFile old, ?p \<mapsto> FsFile bytes))(with_extension ?p ''guestkit-tmp'' := None)"
    using file_write_exact [OF w sample_cwd plain ne] unfolding option.case by blast
  have d: "required_param (sample_params ''/srv/a.txt'') ''data'' = Inr ''x''" "fe_decode files_env ''x'' = Some [120]"
    "fs_read sample_fs ?p = Inr [1, 2]" by code_simp+
  have "data = ''x''" using e(1) unfolding d(1) by (rule Inr_inject [symmetric])
  then have "bytes = [120]" using e(2) d(2) by (metis option.inject)
  moreover have "old = [1, 2]" using e(3) unfolding d(3) by (rule Inr_inject [symmetric])
  ultimately show ?thesis using w e(4) by blast
qed

theorem file_write_leaks_witness:
  "authorize_path files_env sample_fs sample_policy (display [''srv'', ''link'']) False = Inl (Outside [''etc'', ''shadow'']) \<and>
   under_allowed files_env sample_fs (fo_allowed_paths sample_policy) (with_extension [''srv'', ''link''] ''guestkit-bak'') \<and>
   (\<exists>fs'. file_ops_write files_env sample_policy sample_fs (sample_params ''/srv/link/'') =
       (Inr ([''srv'', ''link''], length ([120] :: byte list), Some (with_extension [''srv'', ''link''] ''guestkit-bak'')), fs') \<and>
     fs' (with_extension [''srv'', ''link''] ''guestkit-bak'') = Some (FsFile [7]))"
proof (rule file_write_leaks)
  show "required_param (sample_params ''/srv/link/'') ''path'' = Inr (display [''srv'', ''link''] @ ''/'')" by code_simp
  show "required_param (sample_params ''/srv/link/'') ''data'' = Inr ''x''" by code_simp
  show "fe_decode files_env ''x'' = Some [120]" by code_simp
  show "\<not> over_cap (length ([120] :: byte list)) sample_policy" by code_simp
  show "[''srv'', ''link''] = [''srv''] @ [''link'']" by simp
  show "slash_free [''srv'', ''link'']" by code_simp
  show "fs_get sample_fs [''srv'', ''link''] = Some (FsLink ''/etc/shadow'')" by code_simp
  show "resolved sample_fs [''srv'']" by code_simp
  show "fs_get sample_fs [''srv''] = Some FsDir" by code_simp
  show "under_allowed files_env sample_fs (fo_allowed_paths sample_policy) [''srv'']" by code_simp
  show "walk False MAX_LINKS sample_fs [] [''srv'', ''link''] = Some [''etc'', ''shadow'']" by code_simp
  show "fs_get sample_fs [''etc'', ''shadow''] = Some (FsFile [7])" by code_simp
  show "\<not> under_allowed files_env sample_fs (fo_allowed_paths sample_policy) [''etc'', ''shadow'']" by code_simp
  show "plain_name sample_fs (with_extension [''srv'', ''link''] ''guestkit-bak'')" by code_simp
  show "plain_name sample_fs (with_extension [''srv'', ''link''] ''guestkit-tmp'')" by code_simp
qed

end
