(* ===== verification/Replay.thy ===== *)
theory Replay
  imports Bounded_Log
begin

text \<open>
  The replay protection of the agent runtime, \<^verbatim>\<open>src/agent/state.rs\<close>: the nonce window and the
  cache of responses to idempotent requests, both behind the \<open>replay\<close> mutex, so each operation is
  one atomic step.  Instants are milliseconds since the runtime started, passed in where the code
  reads the clock.  The nonce window provides \<open>bounded_log\<close> with the accepted nonces as entries.
\<close>

definition IDEMPOTENCY_TTL :: nat where
  "IDEMPOTENCY_TTL = 600 * 1000"

record 'r replay_cache =
  nonce_order :: "string list"
  nonces :: "string set"
  idempotent :: "string \<rightharpoonup> nat \<times> 'r"

definition replay_default :: "'r replay_cache" where
  "replay_default = \<lparr>nonce_order = [], nonces = {}, idempotent = Map.empty\<rparr>"

text \<open>The eviction loop: pop from the front while the window is too long.\<close>

fun evict :: "nat \<Rightarrow> string list \<Rightarrow> string set \<Rightarrow> string list \<times> string set" where
  "evict limit [] ns = ([], ns)"
| "evict limit (old # order) ns =
     (if length (old # order) > limit then evict limit order (ns - {old}) else (old # order, ns))"

definition nonce_fresh :: "string \<Rightarrow> nat \<Rightarrow> 'r replay_cache \<Rightarrow> bool \<times> 'r replay_cache" where
  "nonce_fresh nonce cap c =
     (if nonce \<in> nonces c then (False, c)
      else (case evict (max cap 1) (nonce_order c @ [nonce]) (insert nonce (nonces c)) of
              (order, ns) \<Rightarrow> (True, c\<lparr>nonce_order := order, nonces := ns\<rparr>)))"

definition idempotent_get :: "nat \<Rightarrow> string \<Rightarrow> 'r replay_cache \<Rightarrow> 'r option \<times> 'r replay_cache" where
  "idempotent_get now key c =
     (let kept = (\<lambda>k. case idempotent c k of
                    Some (at, r) \<Rightarrow> if now - at < IDEMPOTENCY_TTL then Some (at, r) else None
                  | None \<Rightarrow> None)
      in (map_option snd (kept key), c\<lparr>idempotent := kept\<rparr>))"

definition idempotent_store :: "nat \<Rightarrow> string \<Rightarrow> 'r \<Rightarrow> 'r replay_cache \<Rightarrow> 'r replay_cache" where
  "idempotent_store now key r c = c\<lparr>idempotent := (idempotent c)(key \<mapsto> (now, r))\<rparr>"

subsection \<open>The nonce window\<close>

definition window_ok :: "'r replay_cache \<Rightarrow> bool" where
  "window_ok c \<longleftrightarrow> distinct (nonce_order c) \<and> nonces c = set (nonce_order c)"

lemma evict_take_last:
  "distinct order \<Longrightarrow> evict limit order (set order) = (take_last limit order, set (take_last limit order))"
proof (induction order)
  case (Cons old order)
  show ?case
  proof (cases "length (old # order) > limit")
    case True
    have "set (old # order) - {old} = set order" using Cons.prems by auto
    moreover have "take_last limit (old # order) = take_last limit order"
      using True by (simp add: take_last_def Suc_diff_le)
    ultimately show ?thesis using True Cons by simp
  qed simp
qed simp

text \<open>An accepting call, as a partial operation.\<close>

definition accept_nonce :: "nat \<Rightarrow> string \<Rightarrow> 'r replay_cache \<Rightarrow> 'r replay_cache option" where
  "accept_nonce cap nonce c = (case nonce_fresh nonce cap c of (b, c') \<Rightarrow> if b then Some c' else None)"

lemma nonce_fresh_window:
  assumes "window_ok c"
  shows "nonce_fresh nonce cap c =
    (if nonce \<in> set (nonce_order c) then (False, c)
     else (let order = take_last (max cap 1) (nonce_order c @ [nonce])
           in (True, c\<lparr>nonce_order := order, nonces := set order\<rparr>)))"
proof -
  have "evict (max cap 1) (nonce_order c @ [nonce]) (insert nonce (nonces c)) =
      (take_last (max cap 1) (nonce_order c @ [nonce]),
       set (take_last (max cap 1) (nonce_order c @ [nonce])))" if "nonce \<notin> set (nonce_order c)"
    using evict_take_last [of "nonce_order c @ [nonce]" "max cap 1"] that assms
    by (simp add: window_ok_def)
  then show ?thesis using assms by (simp add: nonce_fresh_def window_ok_def Let_def)
qed

lemma distinct_take_last: "distinct xs \<Longrightarrow> distinct (take_last n xs)"
  by (simp add: take_last_def)

lemma accept_nonce_window:
  assumes "window_ok c"
  shows "accept_nonce cap nonce c =
    (if nonce \<in> set (nonce_order c) then None
     else (let order = take_last (max cap 1) (nonce_order c @ [nonce])
           in Some (c\<lparr>nonce_order := order, nonces := set order\<rparr>)))"
  unfolding accept_nonce_def nonce_fresh_window [OF assms] by (simp add: Let_def)

lemma accept_nonceD:
  assumes "window_ok c" "accept_nonce cap nonce c = Some c'"
  shows "window_ok c'" "nonce_order c' = take_last (max cap 1) (nonce_order c @ [nonce])"
    "nonce \<notin> set (nonce_order c)"
proof -
  let ?o = "take_last (max cap 1) (nonce_order c @ [nonce])"
  show new: "nonce \<notin> set (nonce_order c)" using assms by (auto simp: accept_nonce_window)
  then have c': "c' = c\<lparr>nonce_order := ?o, nonces := set ?o\<rparr>"
    using assms(2) unfolding accept_nonce_window [OF assms(1)] by (simp add: Let_def)
  show "nonce_order c' = ?o" by (simp add: c')
  have "distinct ?o" using new assms(1) by (intro distinct_take_last) (simp add: window_ok_def)
  then show "window_ok c'" by (simp add: c' window_ok_def)
qed

interpretation nonce_log: bounded_log "accept_nonce cap" nonce_order "max cap 1" window_ok for cap
  by unfold_locales (erule (1) accept_nonceD(1), erule (1) accept_nonceD(2))

text \<open>The runtime's steps: nonce checks, cache lookups and cache stores.\<close>

datatype 'r replay_op =
    OpNonce string
  | OpGet nat string
  | OpStore nat string 'r

fun replay_step :: "nat \<Rightarrow> 'r replay_op \<Rightarrow> 'r replay_cache \<Rightarrow> 'r replay_cache" where
  "replay_step cap (OpNonce n) c = snd (nonce_fresh n cap c)"
| "replay_step cap (OpGet now k) c = snd (idempotent_get now k c)"
| "replay_step cap (OpStore now k r) c = idempotent_store now k r c"

text \<open>The nonces a run accepts, in order.\<close>

fun accepted :: "nat \<Rightarrow> 'r replay_op list \<Rightarrow> 'r replay_cache \<Rightarrow> string list" where
  "accepted cap [] c = []"
| "accepted cap (op # ops) c =
     (case op of
        OpNonce n \<Rightarrow> (if fst (nonce_fresh n cap c) then [n] else [])
      | _ \<Rightarrow> []) @ accepted cap ops (replay_step cap op c)"

fun replay_run :: "nat \<Rightarrow> 'r replay_op list \<Rightarrow> 'r replay_cache \<Rightarrow> 'r replay_cache" where
  "replay_run cap [] c = c"
| "replay_run cap (op # ops) c = replay_run cap ops (replay_step cap op c)"

lemma replay_step_nonce:
  assumes "window_ok c"
  shows "replay_step cap (OpNonce n) c =
    (case accept_nonce cap n c of None \<Rightarrow> c | Some c' \<Rightarrow> c')"
  using assms by (simp add: accept_nonce_def nonce_fresh_window Let_def)

lemma replay_step_other:
  "nonce_order (replay_step cap (OpGet now k) c) = nonce_order c"
  "nonces (replay_step cap (OpGet now k) c) = nonces c"
  "nonce_order (replay_step cap (OpStore now k r) c) = nonce_order c"
  "nonces (replay_step cap (OpStore now k r) c) = nonces c"
  by (simp_all add: idempotent_get_def idempotent_store_def Let_def)

lemma replay_step_ok:
  assumes "window_ok c"
  shows "window_ok (replay_step cap op c)"
proof (cases op)
  case (OpNonce n)
  show ?thesis
  proof (cases "accept_nonce cap n c")
    case None
    then show ?thesis using assms by (simp only: OpNonce replay_step_nonce option.case)
  next
    case (Some c')
    then show ?thesis
      using accept_nonceD(1) [OF assms Some] by (simp only: OpNonce replay_step_nonce [OF assms] option.case)
  qed
next
  case (OpGet now k)
  then show ?thesis using assms by (simp add: window_ok_def replay_step_other del: replay_step.simps)
next
  case (OpStore now k r)
  then show ?thesis using assms by (simp add: window_ok_def replay_step_other del: replay_step.simps)
qed

lemma replay_step_bound:
  assumes "window_ok c" "length (nonce_order c) \<le> max cap 1"
  shows "length (nonce_order (replay_step cap op c)) \<le> max cap 1"
proof (cases op)
  case (OpNonce n)
  then show ?thesis using assms by (simp add: nonce_fresh_window Let_def)
qed (use assms(2) in \<open>simp_all add: replay_step_other del: replay_step.simps\<close>)

text \<open>The window is the tail of the accepted sequence, whatever else the runtime does.\<close>

lemma replay_run_window:
  "window_ok c \<Longrightarrow> length (nonce_order c) \<le> max cap 1 \<Longrightarrow>
     window_ok (replay_run cap ops c) \<and>
     nonce_order (replay_run cap ops c) = take_last (max cap 1) (nonce_order c @ accepted cap ops c)"
proof (induction ops arbitrary: c)
  case (Cons op ops)
  let ?c = "replay_step cap op c"
  let ?a = "case op of OpNonce n \<Rightarrow> if fst (nonce_fresh n cap c) then [n] else [] | _ \<Rightarrow> []"
  have ok: "window_ok ?c" "length (nonce_order ?c) \<le> max cap 1"
    using replay_step_ok [OF Cons.prems(1)] replay_step_bound [OF Cons.prems] by blast+
  have "nonce_order ?c = take_last (max cap 1) (nonce_order c @ ?a)"
  proof (cases op)
    case (OpNonce n)
    then show ?thesis using Cons.prems by (simp add: nonce_fresh_window Let_def)
  qed (use Cons.prems(2) in \<open>simp_all add: replay_step_other del: replay_step.simps\<close>)
  then have "take_last (max cap 1) (nonce_order ?c @ accepted cap ops ?c) =
      take_last (max cap 1) (nonce_order c @ ?a @ accepted cap ops ?c)"
    by (simp only: take_last_take_last_append append.assoc)
  then show ?case using Cons.IH [OF ok] by simp
qed simp

subsection \<open>The idempotency cache\<close>

text \<open>Operations that cannot disturb the entry of \<open>key\<close> before instant \<open>t\<close>.\<close>

fun quiet :: "string \<Rightarrow> nat \<Rightarrow> 'r replay_op \<Rightarrow> bool" where
  "quiet key t (OpNonce _) = True"
| "quiet key t (OpGet now _) = (now \<le> t)"
| "quiet key t (OpStore _ k _) = (k \<noteq> key)"

lemma idempotent_nonce_fresh: "idempotent (snd (nonce_fresh n cap c)) = idempotent c"
  by (simp add: nonce_fresh_def split: prod.splits)

lemma idempotent_quiet_step:
  assumes "quiet key t op" "idempotent c key = Some (at, r)" "t - at < IDEMPOTENCY_TTL"
  shows "idempotent (replay_step cap op c) key = Some (at, r)"
proof (cases op)
  case (OpGet now k)
  then have "now - at < IDEMPOTENCY_TTL" using assms by auto
  then show ?thesis using assms OpGet by (simp add: idempotent_get_def Let_def)
qed (use assms in \<open>simp_all add: idempotent_nonce_fresh idempotent_store_def\<close>)

lemma idempotent_quiet_run:
  "\<forall>op \<in> set ops. quiet key t op \<Longrightarrow> idempotent c key = Some (at, r) \<Longrightarrow> t - at < IDEMPOTENCY_TTL \<Longrightarrow>
     idempotent (replay_run cap ops c) key = Some (at, r)"
proof (induction ops arbitrary: c)
  case (Cons op ops)
  then have "idempotent (replay_step cap op c) key = Some (at, r)"
    by (intro idempotent_quiet_step) auto
  with Cons show ?case by simp
qed simp

lemma idempotent_only_expires:
  "\<forall>op \<in> set ops. quiet key t op \<Longrightarrow> idempotent c key \<in> {None, Some e} \<Longrightarrow>
     idempotent (replay_run cap ops c) key \<in> {None, Some e}"
proof (induction ops arbitrary: c)
  case (Cons op ops)
  have "idempotent (replay_step cap op c) key \<in> {None, Some e}"
  proof (cases op)
    case (OpGet now k)
    then show ?thesis
      using Cons.prems(2) by (auto simp: idempotent_get_def Let_def split: prod.splits)
  qed (use Cons.prems in \<open>auto simp: idempotent_nonce_fresh idempotent_store_def\<close>)
  with Cons show ?case by simp
qed simp

subsection \<open>Properties\<close>

text \<open>
  Claim C3.  The nonce window is exact: after any run of the runtime's replay operations, a nonce
  is accepted if and only if it is not among the last \<open>max cap 1\<close> accepted nonces.  So a request is
  never replayed while its nonce is in the window, a new nonce is never refused, and the window
  never holds more than \<open>max cap 1\<close> nonces.
\<close>

theorem nonce_window_exact:
  fixes ops :: "'r replay_op list"
  shows "(fst (nonce_fresh n cap (replay_run cap ops (replay_default :: 'r replay_cache))) \<longleftrightarrow>
      n \<notin> set (take_last (max cap 1) (accepted cap ops replay_default))) \<and>
    card (nonces (replay_run cap ops (replay_default :: 'r replay_cache))) \<le> max cap 1"
proof -
  let ?c = "replay_run cap ops (replay_default :: 'r replay_cache)"
  have "window_ok (replay_default :: 'r replay_cache)"
    "nonce_order (replay_default :: 'r replay_cache) = []"
    by (simp_all add: window_ok_def replay_default_def)
  then have w: "window_ok ?c"
    "nonce_order ?c = take_last (max cap 1) (accepted cap ops replay_default)"
    using replay_run_window [of "replay_default :: 'r replay_cache" cap ops] by simp_all
  then have "card (nonces ?c) \<le> max cap 1"
    using card_length [of "nonce_order ?c"] by (simp add: window_ok_def)
  with w show ?thesis by (simp add: nonce_fresh_window Let_def)
qed

text \<open>
  A stored response answers its idempotency key for ten minutes and not longer: after
  a store at instant \<open>t0\<close> and any operations that do not store under the same key, a lookup at
  instant \<open>t\<close> returns the stored response exactly while \<open>t - t0\<close> is below the time to live.
\<close>

theorem idempotent_replays:
  assumes "\<forall>op \<in> set ops. quiet key t op"
  shows "fst (idempotent_get t key (replay_run cap ops (idempotent_store t0 key r c))) =
    (if t - t0 < IDEMPOTENCY_TTL then Some r else None)"
proof -
  have st: "idempotent (idempotent_store t0 key r c) key = Some (t0, r)"
    by (simp add: idempotent_store_def)
  show ?thesis
  proof (cases "t - t0 < IDEMPOTENCY_TTL")
    case True
    then show ?thesis
      using idempotent_quiet_run [OF assms st True] by (simp add: idempotent_get_def Let_def)
  next
    case False
    then show ?thesis
      using idempotent_only_expires [OF assms, of "idempotent_store t0 key r c" "(t0, r)" cap] st
      by (auto simp: idempotent_get_def Let_def)
  qed
qed

theorem idempotent_replays_witness:
  "fst (idempotent_get 900 ''k'' (replay_run 4 [OpNonce ''n'', OpGet 500 ''j'', OpStore 1 ''j'' 7]
     (idempotent_store 100 ''k'' (5 :: nat) replay_default))) =
     (if 900 - 100 < IDEMPOTENCY_TTL then Some 5 else None)"
  by (rule idempotent_replays) simp

end
