(* ===== verification/Agent_Handler.thy ===== *)
theory Agent_Handler
  imports Cutover File_Ops Replay
begin

text \<open>
  The in-guest request handler, \<^verbatim>\<open>src/agent/handler.rs\<close>: \<open>handle_frame_on\<close>, which tells the commands of
  the QEMU guest agent from JSON-RPC requests, \<open>handle_on\<close> with its security choke point, \<open>enforce_security\<close>,
  and the dispatch to the method handlers.  The handlers that make a decision of their own are modelled
  (\<open>exec\<close>, the power actions, unit control, remediation plans, fix plans, file operations, entering and leaving
  the cutover, and the guards of the migration repair); the others act on the guest through \<open>ae_serve\<close>, and the
  commands of the QEMU guest agent through \<open>ae_qga\<close>.  JSON values of requests and responses
  are the type parameter \<open>'v\<close>, read and built by the fields of \<open>agent_env\<close>; time is passed in, wall-clock
  instants as nanoseconds on unbounded integers, instants of the runtime as milliseconds.  The
  policy is loaded anew at each of the points where the code loads it: \<open>ae_load\<close> 0 is the load of the
  authorization, 1 that of \<open>enforce_security\<close>, 2 that of the method handler.
\<close>

subsection \<open>Environment and state\<close>

record ('v, 'g) agent_env =
  ae_parse :: "byte list \<Rightarrow> (string, 'v json_rpc_request) result"
  ae_glob :: "string \<Rightarrow> string \<Rightarrow> bool option"
  ae_load :: "nat \<Rightarrow> agent_policy"
  ae_rfc3339 :: "string \<Rightarrow> (string, int) result"
  ae_utc_now :: int
  ae_get_at :: nat
  ae_store_at :: nat
  ae_serve :: "rpc_method \<Rightarrow> 'v json_rpc_request \<Rightarrow> 'g \<Rightarrow> 'v json_rpc_response \<times> 'g"
  ae_get_bool :: "'v \<Rightarrow> string \<Rightarrow> bool option"
  ae_get_str :: "'v \<Rightarrow> string \<Rightarrow> string option"
  ae_get_u64 :: "'v \<Rightarrow> string \<Rightarrow> u64 option"
  ae_get_actions :: "'v \<Rightarrow> remediation_action_spec list option"
  ae_message :: "string \<Rightarrow> 'v"
  ae_of_remediation :: "remediation_result \<Rightarrow> 'v"
  ae_units :: "'g unit_env"
  ae_exec_sync :: "'v \<Rightarrow> 'g \<Rightarrow> (string, 'v) result \<times> 'g"
  ae_power_helper :: "string \<Rightarrow> u64 \<Rightarrow> 'g \<Rightarrow> 'v option \<times> 'g"
  ae_run_power_action :: "string \<Rightarrow> u64 \<Rightarrow> 'g \<Rightarrow> (string, string) result \<times> 'g"
  ae_repair :: "bool \<Rightarrow> bool \<Rightarrow> 'v json_rpc_request \<Rightarrow> 'g \<Rightarrow> 'v json_rpc_response \<times> 'g"
  ae_capabilities :: agent_capabilities
  ae_get_plan :: "'v \<Rightarrow> (string, 'v) result option"
  ae_apply_plan :: "bool \<Rightarrow> 'v \<Rightarrow> 'g \<Rightarrow> (string, 'v) result \<times> 'g"
  ae_json :: "'v \<Rightarrow> json"
  ae_of_json :: "json \<Rightarrow> 'v"
  ae_files :: file_env
  ae_fs :: "'g \<Rightarrow> fs"
  ae_set_fs :: "fs \<Rightarrow> 'g \<Rightarrow> 'g"
  ae_cutover :: "'g cutover_env"
  ae_get_token :: "'v \<Rightarrow> readiness_token option"
  ae_get_cutover :: "'v \<Rightarrow> cutover_params option"
  ae_of_cutover :: "cutover_state \<Rightarrow> 'v"
  ae_from_slice :: "byte list \<Rightarrow> json option"
  ae_to_vec :: "json \<Rightarrow> byte list option"
  ae_response_vec :: "'v json_rpc_response \<Rightarrow> (string, byte list) result"
  ae_qga :: "byte list \<Rightarrow> 'g \<Rightarrow> byte list \<times> 'g"

text \<open>The executor's own audit lines go to the file of \<open>exec_state\<close>; the handler's to \<open>as_audit\<close>,
  as method, outcome and detail.\<close>

record ('v, 'g) agent_state =
  as_replay :: "'v json_rpc_response replay_cache"
  as_exec :: "'g exec_state"
  as_audit :: "(string \<times> string \<times> string) list"

abbreviation as_guest :: "('v, 'g) agent_state \<Rightarrow> 'g" where
  "as_guest st \<equiv> xs_guest (as_exec st)"

definition agent_audit :: "string \<Rightarrow> string \<Rightarrow> string \<Rightarrow> ('v, 'g) agent_state \<Rightarrow> ('v, 'g) agent_state" where
  "agent_audit method outcome detail st =
     st\<lparr>as_audit := as_audit st @ [(method, outcome, one_line detail)]\<rparr>"

subsection \<open>Method handlers\<close>

definition unwrap_bool :: "bool option \<Rightarrow> bool \<Rightarrow> bool" where
  "unwrap_bool b d = (case b of Some x \<Rightarrow> x | None \<Rightarrow> d)"

definition dquoted :: "string \<Rightarrow> string" where
  "dquoted s = CHR 0x22 # s @ [CHR 0x22]"

text \<open>\<open>Ok\<close> to a success with a message object, \<open>Err\<close> to an internal error.\<close>

definition message_result ::
    "('v, 'g) agent_env \<Rightarrow> 'v option \<Rightarrow> (string, string) result \<Rightarrow> 'v json_rpc_response" where
  "message_result env i r =
     (case r of Inr msg \<Rightarrow> rpc_success i (ae_message env msg) | Inl e \<Rightarrow> rpc_error i InternalError e)"

definition exec ::
    "('v, 'g) agent_env \<Rightarrow> 'v json_rpc_request \<Rightarrow> 'g exec_state \<Rightarrow> 'v json_rpc_response \<times> 'g exec_state" where
  "exec env req x =
     (if \<not> shell_enabled (ae_load env 2)
      then (from_agent_error (rq_id req) (CapabilityDenied ''shell exec disabled by policy''), x)
      else (case on_guest (ae_exec_sync env (rq_params req)) x of
              (Inr v, x1) \<Rightarrow> (rpc_success (rq_id req) v, x1)
            | (Inl e, x1) \<Rightarrow> (rpc_error (rq_id req) InternalError e, x1)))"

definition power_action ::
    "('v, 'g) agent_env \<Rightarrow> string \<Rightarrow> 'v json_rpc_request \<Rightarrow> 'g exec_state \<Rightarrow> 'v json_rpc_response \<times> 'g exec_state" where
  "power_action env action req x =
     (let confirmed = unwrap_bool (ae_get_bool env (rq_params req) ''confirm'') False in
      if pa_reboot_vm_require_approval (ap_actions (ae_load env 2)) \<and> \<not> confirmed
      then (from_agent_error (rq_id req)
              (PolicyDenied (action @ '' requires explicit approval: pass {'' @ dquoted ''confirm'' @ '': true}'')), x)
      else
        (let delay = (case ae_get_u64 env (rq_params req) ''delay_secs'' of Some d \<Rightarrow> d | None \<Rightarrow> 1);
             (helped, x1) =
               (if ue_available (ae_units env) (xs_guest x)
                then on_guest (ae_power_helper env action delay) x else (None, x))
         in case helped of
              Some v \<Rightarrow> (rpc_success (rq_id req) v, x1)
            | None \<Rightarrow>
                (case on_guest (ae_run_power_action env action delay) x1 of
                   (r, x2) \<Rightarrow> (message_result env (rq_id req) r, x2))))"

definition with_unit ::
    "('v, 'g) agent_env \<Rightarrow> (string \<Rightarrow> 'g exec_state \<Rightarrow> (string, string) result \<times> 'g exec_state) \<Rightarrow>
       'v json_rpc_request \<Rightarrow> 'g exec_state \<Rightarrow> 'v json_rpc_response \<times> 'g exec_state" where
  "with_unit env f req x =
     (case ae_get_str env (rq_params req) ''unit'' of
        None \<Rightarrow> (rpc_error (rq_id req) InvalidParamsCode ''missing required param: unit'', x)
      | Some unit \<Rightarrow> (case f unit x of (r, x1) \<Rightarrow> (message_result env (rq_id req) r, x1)))"

definition handle_restart_unit ::
    "('v, 'g) agent_env \<Rightarrow> 'v json_rpc_request \<Rightarrow> 'g exec_state \<Rightarrow> 'v json_rpc_response \<times> 'g exec_state" where
  "handle_restart_unit env = with_unit env (restart_unit (ae_units env) (ae_load env 2))"

definition handle_control_unit ::
    "('v, 'g) agent_env \<Rightarrow> string \<Rightarrow> 'v json_rpc_request \<Rightarrow> 'g exec_state \<Rightarrow> 'v json_rpc_response \<times> 'g exec_state" where
  "handle_control_unit env op = with_unit env (control_unit (ae_units env) (ae_load env 2) op)"

definition handle_remediation_plan ::
    "('v, 'g) agent_env \<Rightarrow> 'v json_rpc_request \<Rightarrow> 'g exec_state \<Rightarrow> 'v json_rpc_response \<times> 'g exec_state" where
  "handle_remediation_plan env req x =
     (let plan_id = (case ae_get_str env (rq_params req) ''plan_id'' of Some s \<Rightarrow> s | None \<Rightarrow> ''local'');
          actions = (case ae_get_actions env (rq_params req) of Some as \<Rightarrow> as | None \<Rightarrow> [])
      in case execute_remediation_plan (ae_units env) (ae_load env 2) plan_id actions x of
           (r, x1) \<Rightarrow> (rpc_success (rq_id req) (ae_of_remediation env r), x1))"

text \<open>The guards; \<open>ae_repair\<close> is what follows them, with the two flags.\<close>

definition migration_repair ::
    "('v, 'g) agent_env \<Rightarrow> 'v json_rpc_request \<Rightarrow> 'g exec_state \<Rightarrow> 'v json_rpc_response \<times> 'g exec_state" where
  "migration_repair env req x =
     (let p = rq_params req;
          dry_run = unwrap_bool (ae_get_bool env p ''dry_run'') True;
          confirmed = unwrap_bool (ae_get_bool env p ''confirm'') False;
          destructive = unwrap_bool (ae_get_bool env p ''include_destructive'') False
      in if \<not> dry_run \<and> \<not> confirmed
         then (from_agent_error (rq_id req)
                 (PolicyDenied (''applying repairs requires {'' @ dquoted ''dry_run'' @ '': false, ''
                    @ dquoted ''confirm'' @ '': true}'')), x)
         else if destructive \<and> \<not> gp_repair_destructive (pa_migration (ap_actions (ae_load env 2)))
         then (from_agent_error (rq_id req)
                 (PolicyDenied ''destructive repairs disabled by local policy (migration.repair_destructive)''), x)
         else on_guest (ae_repair env dry_run destructive req) x)"

definition run_fix_plan ::
    "('v, 'g) agent_env \<Rightarrow> 'v json_rpc_request \<Rightarrow> 'g exec_state \<Rightarrow> 'v json_rpc_response \<times> 'g exec_state" where
  "run_fix_plan env req x =
     (if \<not> ac_fix_apply (ae_capabilities env)
      then (from_agent_error (rq_id req) (CapabilityDenied ''fix_apply not enabled''), x)
      else case ae_get_plan env (rq_params req) of
        None \<Rightarrow> (rpc_error (rq_id req) InvalidParamsCode ''missing required param: plan'', x)
      | Some (Inl e) \<Rightarrow> (rpc_error (rq_id req) InvalidParamsCode (''invalid plan: '' @ e), x)
      | Some (Inr plan) \<Rightarrow>
          (case on_guest (ae_apply_plan env (unwrap_bool (ae_get_bool env (rq_params req) ''dry_run'') False) plan) x of
             (Inr v, x1) \<Rightarrow> (rpc_success (rq_id req) v, x1)
           | (Inl e, x1) \<Rightarrow> (rpc_error (rq_id req) PlanApplyFailed (''apply failed: '' @ e), x1)))"

text \<open>A file operation with the policy of the moment: on a file system, to its reply or the error's text.\<close>

definition file_reply :: "file_env \<Rightarrow> (file_error, json) result \<Rightarrow> (string, json) result" where
  "file_reply env r = map_sum (file_message env) id r"

definition file_call :: "file_env \<Rightarrow> rpc_method \<Rightarrow> file_ops_policy \<Rightarrow> json \<Rightarrow> fs \<Rightarrow> (string, json) result" where
  "file_call env m policy params fs =
     (if m = FileRead then file_reply env (map_sum id (file_ops_read_reply env) (file_ops_read env policy fs params))
      else if m = FileWrite then file_reply env (map_sum id file_ops_write_reply (fst (file_ops_write env policy fs params)))
      else if m = FileStat then file_reply env (file_ops_stat env policy fs params)
      else if m = FileList then file_reply env (file_ops_list env policy fs params)
      else file_reply env (file_ops_checksum env policy fs params))"

text \<open>Only a write whose request was accepted touches files.\<close>

definition file_op ::
    "('v, 'g) agent_env \<Rightarrow> rpc_method \<Rightarrow> 'v json_rpc_request \<Rightarrow> 'g exec_state \<Rightarrow> 'v json_rpc_response \<times> 'g exec_state" where
  "file_op env m req x =
     (let policy = ct_file_ops (ap_capabilities (ae_load env 2)); params = ae_json env (rq_params req);
          fs = ae_fs env (xs_guest x) in
      (case file_call (ae_files env) m policy params fs of
         Inr v \<Rightarrow> rpc_success (rq_id req) (ae_of_json env v)
       | Inl e \<Rightarrow> rpc_error (rq_id req) CapabilityDeniedCode e,
       if m = FileWrite \<and> is_ok (write_request (ae_files env) policy fs params)
       then x\<lparr>xs_guest := ae_set_fs env (snd (file_ops_write (ae_files env) policy fs params)) (xs_guest x)\<rparr> else x))"

definition cutover_result ::
    "('v, 'g) agent_env \<Rightarrow> 'v option \<Rightarrow> (string, cutover_state) result \<Rightarrow> 'v json_rpc_response" where
  "cutover_result env i r =
     (case r of Inr s \<Rightarrow> rpc_success i (ae_of_cutover env s) | Inl e \<Rightarrow> rpc_error i InternalError e)"

definition cutover_enter ::
    "('v, 'g) agent_env \<Rightarrow> 'v json_rpc_request \<Rightarrow> 'g exec_state \<Rightarrow> 'v json_rpc_response \<times> 'g exec_state" where
  "cutover_enter env req x =
     (case ae_get_token env (rq_params req) of
        None \<Rightarrow> (rpc_error (rq_id req) InvalidParamsCode ''missing readiness token (run migration.preCheck first)'', x)
      | Some token \<Rightarrow>
          (case on_guest (verify_token (ae_cutover env) token) x of
             (Inl e, x1) \<Rightarrow> (from_agent_error (rq_id req) (PolicyDenied (''invalid readiness token: '' @ e)), x1)
           | (Inr _, x1) \<Rightarrow>
               (let params = (case ae_get_cutover env (rq_params req) of
                      Some p \<Rightarrow> p | None \<Rightarrow> \<lparr>cp_stop_services = [], cp_freeze = False, cp_watchdog_secs = None\<rparr>) in
                case enter_cutover (ae_cutover env) (ae_units env) (ae_load env 2) params x1 of
                  (r, x2) \<Rightarrow> (cutover_result env (rq_id req) r, x2))))"

definition cutover_exit ::
    "('v, 'g) agent_env \<Rightarrow> 'v json_rpc_request \<Rightarrow> 'g exec_state \<Rightarrow> 'v json_rpc_response \<times> 'g exec_state" where
  "cutover_exit env req x =
     (case exit_cutover (ae_cutover env) (ae_units env) (ae_load env 2) x of (r, x1) \<Rightarrow> (cutover_result env (rq_id req) r, x1))"

subsection \<open>Dispatch\<close>

definition file_methods :: "rpc_method list" where
  "file_methods = [FileRead, FileWrite, FileStat, FileList, FileChecksum]"

definition dispatch_arms :: "rpc_method list" where
  "dispatch_arms =
     [Ping, GetVersion, GetCapabilities, GetEvidence, GetStatus, Doctor, MigrateScore, GetMetrics,
      GetFilesystem, Exec, EnableRdp, DisableRdp, RunFixPlan, RunFixPlanRollback, GetGuestHealth,
      GetSystemdUnits, GetFailedUnits, GetBootAnalysis, GetJournalSlice, GetLoginState, GetDnsState,
      GetTimedateState, GetSnapshotReadiness, FreezeFilesystem, ThawFilesystem, RestartUnit,
      ExecuteRemediationPlan, CollectSupportBundle, GetGuestInfo, GetSystemdUnit, GetSystemdEvents,
      GetProcesses, GetAgentHealth, SubscribeEvents, UnsubscribeEvents, GetCpuStats, GetMemoryStats,
      GetPerformanceSummary, GetPerformanceHistory, SnapshotPrepare, SnapshotComplete,
      MigrationAssess, MigrationPlan, MigrationRepair, MigrationPreCheck, MigrationCutoverEnter,
      MigrationCutoverExit, MigrationValidate, BaselineCapture, BaselineDiff, StartUnit, StopUnit,
      FileRead, FileWrite, FileStat, FileList, FileChecksum, StorageRescan, StorageTrim,
      StorageExpand, GetProcess, NetworkTest, SecurityPosture, NetworkConnections, TimeSyncNow,
      Reboot, Shutdown, ContainersInventory, NetpolicyApply, NetpolicyStatus, LsmApply, LsmStatus,
      IntegrityBaseline, IntegrityCheck, InventoryCacheWrite, PackagesInventory, PackagesUpdates,
      PackagesInstall, CertificatesInventory, UsersInventory, SetHostname, SetTimezone, SetDns]"

text \<open>The variant names, which \<open>Debug\<close> prints.\<close>

definition variant_names :: "(rpc_method \<times> string) list" where
  "variant_names =
     [(Ping, ''Ping''), (GetVersion, ''GetVersion''), (GetCapabilities, ''GetCapabilities''),
      (GetEvidence, ''GetEvidence''), (GetStatus, ''GetStatus''), (Doctor, ''Doctor''),
      (MigrateScore, ''MigrateScore''), (GetMetrics, ''GetMetrics''),
      (GetFilesystem, ''GetFilesystem''), (Exec, ''Exec''), (EnableRdp, ''EnableRdp''),
      (DisableRdp, ''DisableRdp''), (RunFixPlan, ''RunFixPlan''),
      (RunFixPlanRollback, ''RunFixPlanRollback''), (GetGuestHealth, ''GetGuestHealth''),
      (GetSystemdUnits, ''GetSystemdUnits''), (GetFailedUnits, ''GetFailedUnits''),
      (GetBootAnalysis, ''GetBootAnalysis''), (GetJournalSlice, ''GetJournalSlice''),
      (GetLoginState, ''GetLoginState''), (GetDnsState, ''GetDnsState''),
      (GetTimedateState, ''GetTimedateState''), (GetSnapshotReadiness, ''GetSnapshotReadiness''),
      (FreezeFilesystem, ''FreezeFilesystem''), (ThawFilesystem, ''ThawFilesystem''),
      (RestartUnit, ''RestartUnit''), (ExecuteRemediationPlan, ''ExecuteRemediationPlan''),
      (CollectSupportBundle, ''CollectSupportBundle''), (GetGuestInfo, ''GetGuestInfo''),
      (GetSystemdUnit, ''GetSystemdUnit''), (GetSystemdEvents, ''GetSystemdEvents''),
      (GetProcesses, ''GetProcesses''), (GetAgentHealth, ''GetAgentHealth''),
      (SubscribeEvents, ''SubscribeEvents''), (UnsubscribeEvents, ''UnsubscribeEvents''),
      (GetCpuStats, ''GetCpuStats''), (GetMemoryStats, ''GetMemoryStats''),
      (GetPerformanceSummary, ''GetPerformanceSummary''),
      (GetPerformanceHistory, ''GetPerformanceHistory''), (StartUnit, ''StartUnit''),
      (StopUnit, ''StopUnit''), (GetProcess, ''GetProcess''), (NetworkTest, ''NetworkTest''),
      (NetworkConnections, ''NetworkConnections''), (SecurityPosture, ''SecurityPosture''),
      (StorageRescan, ''StorageRescan''), (StorageTrim, ''StorageTrim''),
      (StorageExpand, ''StorageExpand''), (FileRead, ''FileRead''), (FileWrite, ''FileWrite''),
      (FileStat, ''FileStat''), (FileList, ''FileList''), (FileChecksum, ''FileChecksum''),
      (SetTime, ''SetTime''), (TimeSyncNow, ''TimeSyncNow''), (Reboot, ''Reboot''),
      (Shutdown, ''Shutdown''), (SnapshotPrepare, ''SnapshotPrepare''),
      (SnapshotComplete, ''SnapshotComplete''), (ContainersInventory, ''ContainersInventory''),
      (InventoryCacheWrite, ''InventoryCacheWrite''), (IntegrityBaseline, ''IntegrityBaseline''),
      (IntegrityCheck, ''IntegrityCheck''), (PackagesInventory, ''PackagesInventory''),
      (PackagesUpdates, ''PackagesUpdates''), (PackagesInstall, ''PackagesInstall''),
      (CertificatesInventory, ''CertificatesInventory''), (UsersInventory, ''UsersInventory''),
      (SetHostname, ''SetHostname''), (SetTimezone, ''SetTimezone''), (SetDns, ''SetDns''),
      (MigrationAssess, ''MigrationAssess''), (MigrationPlan, ''MigrationPlan''),
      (MigrationRepair, ''MigrationRepair''), (MigrationPreCheck, ''MigrationPreCheck''),
      (MigrationCutoverEnter, ''MigrationCutoverEnter''),
      (MigrationCutoverExit, ''MigrationCutoverExit''), (MigrationValidate, ''MigrationValidate''),
      (BaselineCapture, ''BaselineCapture''), (BaselineDiff, ''BaselineDiff''),
      (NetpolicyApply, ''NetpolicyApply''), (NetpolicyStatus, ''NetpolicyStatus''),
      (LsmApply, ''LsmApply''), (LsmStatus, ''LsmStatus'')]"

definition dispatch ::
    "('v, 'g) agent_env \<Rightarrow> 'v json_rpc_request \<Rightarrow> 'g exec_state \<Rightarrow> 'v json_rpc_response \<times> 'g exec_state" where
  "dispatch env req x =
     (let m = request_method req in
      if m = Unknown (rq_method req)
      then (rpc_error (rq_id req) MethodNotFoundCode (''unknown method: '' @ rq_method req), x)
      else if m = Exec then exec env req x
      else if m = Reboot then power_action env ''reboot'' req x
      else if m = Shutdown then power_action env ''shutdown'' req x
      else if m = RestartUnit then handle_restart_unit env req x
      else if m = StartUnit then handle_control_unit env ''start'' req x
      else if m = StopUnit then handle_control_unit env ''stop'' req x
      else if m = ExecuteRemediationPlan then handle_remediation_plan env req x
      else if m = MigrationRepair then migration_repair env req x
      else if m = RunFixPlan then run_fix_plan env req x
      else if m = MigrationCutoverEnter then cutover_enter env req x
      else if m = MigrationCutoverExit then cutover_exit env req x
      else if m \<in> set file_methods then file_op env m req x
      else if m \<in> set dispatch_arms then on_guest (ae_serve env m req) x
      else (rpc_error (rq_id req) NotImplementedCode
              (''method not implemented yet: '' @ the (map_of variant_names m)), x))"

subsection \<open>The choke point\<close>

definition negotiation :: "rpc_method \<Rightarrow> bool" where
  "negotiation m \<longleftrightarrow> m \<in> {Ping, GetVersion, GetCapabilities}"

text \<open>The expiry check: \<open>None\<close> to go on, or the error and the audit line to write first.\<close>

definition check_expiry ::
    "('v, 'g) agent_env \<Rightarrow> 'v json_rpc_request \<Rightarrow> (agent_error \<times> bool) option" where
  "check_expiry env req =
     (let sec = ap_security (ae_load env 1) in
      case rq_ts req of
        Some ts \<Rightarrow>
          (case ae_rfc3339 env ts of
             Inl e \<Rightarrow> Some (InvalidRequest (''bad ts: '' @ e), False)
           | Inr issued \<Rightarrow>
               (let ttl = (case rq_ttl_ms req of Some t \<Rightarrow> min t (sp_max_ttl_ms sec) | None \<Rightarrow> sp_max_ttl_ms sec);
                    deadline = issued + sint ttl * 1000000
                in if ae_utc_now env > deadline
                   then Some (RequestExpired (''issued '' @ ts @ '', ttl '' @ show_nat (unat ttl) @ ''ms''), True)
                   else None))
      | None \<Rightarrow>
          if sp_require_request_expiry sec
          then Some (RequestExpired ''policy requires ts/ttl_ms on mutating requests'', False)
          else None)"

text \<open>\<open>Inl\<close> is a rejection, \<open>Inr (Some r)\<close> a cached response, \<open>Inr None\<close> leave to proceed.\<close>

definition enforce_security ::
    "('v, 'g) agent_env \<Rightarrow> 'v json_rpc_request \<Rightarrow> ('v, 'g) agent_state \<Rightarrow>
       ('v json_rpc_response, 'v json_rpc_response option) result \<times> ('v, 'g) agent_state" where
  "enforce_security env req st =
     (case check_expiry env req of
        Some (e, audited) \<Rightarrow>
          (Inl (from_agent_error (rq_id req) e),
           if audited then agent_audit (rq_method req) ''expired'' [] st else st)
      | None \<Rightarrow>
          (let (fresh, st1) =
                 (case rq_nonce req of
                    None \<Rightarrow> (True, st)
                  | Some n \<Rightarrow>
                      (case nonce_fresh n (sp_nonce_cache_size (ap_security (ae_load env 1))) (as_replay st) of
                         (b, c) \<Rightarrow> (b, st\<lparr>as_replay := c\<rparr>)))
           in if \<not> fresh
              then (Inl (from_agent_error (rq_id req)
                           (ReplayDetected (''nonce '' @ the (rq_nonce req) @ '' already used''))),
                    agent_audit (rq_method req) ''replay'' [] st1)
              else (case rq_idempotency_key req of
                      None \<Rightarrow> (Inr None, st1)
                    | Some key \<Rightarrow>
                        (case idempotent_get (ae_get_at env) key (as_replay st1) of
                           (cached, c) \<Rightarrow>
                             (Inr (map_option (\<lambda>r. r\<lparr>rs_id := rq_id req\<rparr>) cached), st1\<lparr>as_replay := c\<rparr>)))))"

definition run_dispatch ::
    "('v, 'g) agent_env \<Rightarrow> 'v json_rpc_request \<Rightarrow> ('v, 'g) agent_state \<Rightarrow> 'v json_rpc_response \<times> ('v, 'g) agent_state" where
  "run_dispatch env req st =
     (case dispatch env req (as_exec st) of (resp, x) \<Rightarrow> (resp, st\<lparr>as_exec := x\<rparr>))"

text \<open>What follows the dispatch of a mutating method: store a successful response under the key,
  and write the audit line.\<close>

definition finish_mutating ::
    "('v, 'g) agent_env \<Rightarrow> 'v json_rpc_request \<Rightarrow> 'v json_rpc_response \<Rightarrow> ('v, 'g) agent_state \<Rightarrow> ('v, 'g) agent_state" where
  "finish_mutating env req resp st =
     (let st1 = (case rq_idempotency_key req of
                   Some key \<Rightarrow>
                     if rs_error resp = None
                     then st\<lparr>as_replay := idempotent_store (ae_store_at env) key resp (as_replay st)\<rparr> else st
                 | None \<Rightarrow> st)
      in agent_audit (rq_method req) (if rs_error resp = None then ''ok'' else ''error'')
           (case rq_idempotency_key req of Some key \<Rightarrow> key | None \<Rightarrow> []) st1)"

definition handle_request ::
    "('v, 'g) agent_env \<Rightarrow> 'v json_rpc_request \<Rightarrow> ('v, 'g) agent_state \<Rightarrow> 'v json_rpc_response \<times> ('v, 'g) agent_state" where
  "handle_request env req st =
     (let m = request_method req in
      case (if negotiation m then Inr () else authorize (ae_glob env) (ae_load env 0) m (rq_method req)) of
        Inl e \<Rightarrow> (from_agent_error (rq_id req) e, agent_audit (rq_method req) ''policy_denied'' [] st)
      | Inr _ \<Rightarrow>
          if is_mutating m
          then (case enforce_security env req st of
                  (Inl resp, st1) \<Rightarrow> (resp, st1)
                | (Inr (Some cached), st1) \<Rightarrow> (cached, st1)
                | (Inr None, st1) \<Rightarrow>
                    (case run_dispatch env req st1 of
                       (resp, st2) \<Rightarrow> (resp, finish_mutating env req resp st2)))
          else run_dispatch env req st)"

definition handle_on ::
    "('v, 'g) agent_env \<Rightarrow> byte list \<Rightarrow> ('v, 'g) agent_state \<Rightarrow> 'v json_rpc_response \<times> ('v, 'g) agent_state" where
  "handle_on env bytes st =
     (case ae_parse env bytes of
        Inl e \<Rightarrow> (from_agent_error None (Parse e), st)
      | Inr req \<Rightarrow>
          (case request_validate req of
             Inl e \<Rightarrow> (from_agent_error (rq_id req) e, st)
           | Inr _ \<Rightarrow> handle_request env req st))"

subsection \<open>Frames\<close>

definition is_qga_request :: "('v, 'g) agent_env \<Rightarrow> byte list \<Rightarrow> bool" where
  "is_qga_request env bytes =
     (case ae_from_slice env bytes of None \<Rightarrow> False | Some v \<Rightarrow> Option.bind (json_get v ''execute'') as_str \<noteq> None)"

definition json_or :: "json \<Rightarrow> string \<Rightarrow> json \<Rightarrow> json" where
  "json_or v key d = (case json_get v key of Some x \<Rightarrow> x | None \<Rightarrow> d)"

text \<open>The JSON-RPC request inside a \<open>guestkit-rpc\<close> command.\<close>

definition extract_rpc_passthrough :: "('v, 'g) agent_env \<Rightarrow> byte list \<Rightarrow> byte list option" where
  "extract_rpc_passthrough env bytes =
     (case ae_from_slice env bytes of
        None \<Rightarrow> None
      | Some req \<Rightarrow>
          if Option.bind (json_get req ''execute'') as_str \<noteq> Some ''guestkit-rpc'' then None
          else (let args = json_or req ''arguments'' (JObject []) in
                case Option.bind (json_get args ''method'') as_str of
                  None \<Rightarrow> None
                | Some m \<Rightarrow> ae_to_vec env (JObject
                    [(''jsonrpc'', JString ''2.0''), (''id'', json_or args ''id'' (JNumber 1)), (''method'', JString m),
                     (''params'', json_or args ''params'' (JObject []))])))"

definition with_id :: "json option \<Rightarrow> (string \<times> json) list \<Rightarrow> json" where
  "with_id i fs = JObject (fs @ (case i of Some v \<Rightarrow> [(''id'', v)] | None \<Rightarrow> []))"

definition qga_ok :: "('v, 'g) agent_env \<Rightarrow> json option \<Rightarrow> json \<Rightarrow> byte list" where
  "qga_ok env i ret =
     (case ae_to_vec env (with_id i [(''return'', ret)]) of
        Some b \<Rightarrow> b | None \<Rightarrow> of_string (''{'' @ dquoted ''return'' @ '':{}}''))"

definition qga_error :: "('v, 'g) agent_env \<Rightarrow> json option \<Rightarrow> string \<Rightarrow> byte list" where
  "qga_error env i desc =
     (case ae_to_vec env (with_id i [(''error'', JObject [(''class'', JString ''GenericError''), (''desc'', JString desc)])]) of
        Some b \<Rightarrow> b
      | None \<Rightarrow> of_string (''{'' @ dquoted ''error'' @ '':{'' @ dquoted ''class'' @ '':'' @ dquoted ''GenericError'' @ '',''
          @ dquoted ''desc'' @ '':'' @ dquoted ''error'' @ ''}}''))"

definition wrap_qga_response :: "('v, 'g) agent_env \<Rightarrow> 'v json_rpc_response \<Rightarrow> byte list" where
  "wrap_qga_response env resp =
     (let i = map_option (ae_json env) (rs_id resp) in
      case rs_error resp of
        Some err \<Rightarrow> qga_error env i (eo_message err)
      | None \<Rightarrow> qga_ok env i (case rs_result resp of Some v \<Rightarrow> ae_json env v | None \<Rightarrow> JNull))"

definition response_bytes :: "('v, 'g) agent_env \<Rightarrow> 'v json_rpc_response \<Rightarrow> byte list" where
  "response_bytes env resp =
     (case ae_response_vec env resp of
        Inr b \<Rightarrow> b
      | Inl e \<Rightarrow> (case ae_response_vec env (rpc_error None InternalError (''serialize: '' @ e)) of Inr b \<Rightarrow> b | Inl _ \<Rightarrow> []))"

definition handle_frame_on ::
    "('v, 'g) agent_env \<Rightarrow> byte list \<Rightarrow> ('v, 'g) agent_state \<Rightarrow> byte list \<times> ('v, 'g) agent_state" where
  "handle_frame_on env bytes st =
     (if is_qga_request env bytes
      then (case extract_rpc_passthrough env bytes of
              Some inner \<Rightarrow> (case handle_on env inner st of (resp, st1) \<Rightarrow> (wrap_qga_response env resp, st1))
            | None \<Rightarrow> (case on_guest (ae_qga env bytes) (as_exec st) of (out, x) \<Rightarrow> (out, st\<lparr>as_exec := x\<rparr>)))
      else (case handle_on env bytes st of (resp, st1) \<Rightarrow> (response_bytes env resp, st1)))"

text \<open>The JSON-RPC request that a frame carries: the frame itself, or what a \<open>guestkit-rpc\<close> command has inside.\<close>

definition carried_rpc :: "('v, 'g) agent_env \<Rightarrow> byte list \<Rightarrow> byte list option" where
  "carried_rpc env bytes = (if is_qga_request env bytes then extract_rpc_passthrough env bytes else Some bytes)"

subsection \<open>What reaches the guest\<close>

text \<open>
  The decisions the method handlers make themselves, for a guest \<open>g\<close>.  A readiness token in time makes the agent create
  its key when it has none, even when the token is then refused.  A remediation plan goes to the privileged helper
  when there is one, which decides by itself.
\<close>

definition token_guard :: "('v, 'g) agent_env \<Rightarrow> 'v \<Rightarrow> 'g \<Rightarrow> bool" where
  "token_guard env p g \<longleftrightarrow>
     (\<exists>token. ae_get_token env p = Some token \<and> unexpired (ae_cutover env) token \<and>
        (case stored_key (ae_cutover env) g of None \<Rightarrow> True | Some key \<Rightarrow> signed_with (ae_cutover env) key token))"

definition plan_actions :: "('v, 'g) agent_env \<Rightarrow> 'v \<Rightarrow> remediation_action_spec list" where
  "plan_actions env p = (case ae_get_actions env p of Some as \<Rightarrow> as | None \<Rightarrow> [])"

definition handler_guard :: "('v, 'g) agent_env \<Rightarrow> 'v json_rpc_request \<Rightarrow> 'g \<Rightarrow> bool" where
  "handler_guard env req g \<longleftrightarrow>
     (let m = request_method req; pol = ae_load env 2; p = rq_params req in
      (m = Exec \<longrightarrow> shell_enabled pol) \<and>
      (m \<in> {Reboot, Shutdown} \<longrightarrow>
         pa_reboot_vm_require_approval (ap_actions pol) \<longrightarrow> ae_get_bool env p ''confirm'' = Some True) \<and>
      (m \<in> {RestartUnit, StartUnit, StopUnit} \<longrightarrow>
         (\<exists>u. ae_get_str env p ''unit'' = Some u \<and> can_restart_unit pol u)) \<and>
      (m = MigrationRepair \<longrightarrow>
         (ae_get_bool env p ''dry_run'' = Some False \<longrightarrow> ae_get_bool env p ''confirm'' = Some True) \<and>
         (ae_get_bool env p ''include_destructive'' = Some True \<longrightarrow>
            gp_repair_destructive (pa_migration (ap_actions pol)))) \<and>
      (m = ExecuteRemediationPlan \<longrightarrow> ue_available (ae_units env) g \<or> \<not> list_all (harmless pol) (plan_actions env p)) \<and>
      (m = RunFixPlan \<longrightarrow> ac_fix_apply (ae_capabilities env) \<and> (\<exists>plan. ae_get_plan env p = Some (Inr plan))) \<and>
      (m = MigrationCutoverEnter \<longrightarrow> token_guard env p g) \<and>
      (m \<in> set file_methods \<longrightarrow>
         m = FileWrite \<and>
         is_ok (write_request (ae_files env) (ct_file_ops (ap_capabilities pol)) (ae_fs env g) (ae_json env p))))"

text \<open>The security check passes: in time, with an unused nonce, not a retry of a stored request.\<close>

definition security_ok :: "('v, 'g) agent_env \<Rightarrow> 'v json_rpc_request \<Rightarrow> ('v, 'g) agent_state \<Rightarrow> bool" where
  "security_ok env req st \<longleftrightarrow>
     check_expiry env req = None \<and>
     (case rq_nonce req of None \<Rightarrow> True | Some n \<Rightarrow> n \<notin> nonces (as_replay st)) \<and>
     (case rq_idempotency_key req of
        None \<Rightarrow> True | Some key \<Rightarrow> fst (idempotent_get (ae_get_at env) key (as_replay st)) = None)"

lemma unwrap_bool_simps:
  "unwrap_bool b False \<longleftrightarrow> b = Some True" "unwrap_bool b True \<longleftrightarrow> b \<noteq> Some False"
  by (auto simp: unwrap_bool_def split: option.splits)

lemma exec_guest: "\<not> shell_enabled (ae_load env 2) \<Longrightarrow> snd (exec env req x) = x"
  by (simp add: exec_def)

lemma power_action_guest:
  "pa_reboot_vm_require_approval (ap_actions (ae_load env 2)) \<Longrightarrow>
     ae_get_bool env (rq_params req) ''confirm'' \<noteq> Some True \<Longrightarrow> snd (power_action env a req x) = x"
  by (simp add: power_action_def unwrap_bool_simps)

lemma unit_guest:
  assumes "\<not> (\<exists>u. ae_get_str env (rq_params req) ''unit'' = Some u \<and> can_restart_unit (ae_load env 2) u)"
  shows "snd (handle_restart_unit env req x) = x" "snd (handle_control_unit env op req x) = x"
proof -
  have "snd (restart_unit (ae_units env) (ae_load env 2) u x) = x"
    "snd (control_unit (ae_units env) (ae_load env 2) op u x) = x"
    if "ae_get_str env (rq_params req) ''unit'' = Some u" for u
    using assms that by (simp_all add: denied_untouched)
  then show "snd (handle_restart_unit env req x) = x" "snd (handle_control_unit env op req x) = x"
    by (simp_all add: handle_restart_unit_def handle_control_unit_def with_unit_def split_beta split: option.split)
qed

lemma repair_guest:
  assumes "ae_get_bool env (rq_params req) ''dry_run'' = Some False \<and>
        ae_get_bool env (rq_params req) ''confirm'' \<noteq> Some True \<or>
      ae_get_bool env (rq_params req) ''include_destructive'' = Some True \<and>
        \<not> gp_repair_destructive (pa_migration (ap_actions (ae_load env 2)))"
  shows "snd (migration_repair env req x) = x"
  using assms by (auto simp: migration_repair_def unwrap_bool_simps Let_def)

lemma remediation_guest:
  assumes "\<not> ue_available (ae_units env) (xs_guest x)"
    and "list_all (harmless (ae_load env 2)) (plan_actions env (rq_params req))"
  shows "xs_guest (snd (handle_remediation_plan env req x)) = xs_guest x"
  using assms(1) run_actions_harmless [OF assms(2), of "ae_units env" x]
  by (simp add: handle_remediation_plan_def execute_remediation_plan_def plan_actions_def split_beta Let_def)

lemma fix_plan_guest:
  assumes "\<not> (ac_fix_apply (ae_capabilities env) \<and> (\<exists>plan. ae_get_plan env (rq_params req) = Some (Inr plan)))"
  shows "snd (run_fix_plan env req x) = x"
  using assms by (auto simp: run_fix_plan_def split: option.split sum.split)

lemma cutover_guest:
  assumes "\<not> token_guard env (rq_params req) (xs_guest x)"
  shows "snd (cutover_enter env req x) = x"
proof (cases "ae_get_token env (rq_params req)")
  case (Some token)
  have "\<exists>e. verify_token (ae_cutover env) token (xs_guest x) = (Inl e, xs_guest x)"
    by (rule verify_token_refused) (use assms Some in \<open>simp add: token_guard_def split: option.splits\<close>)
  then obtain e where "verify_token (ae_cutover env) token (xs_guest x) = (Inl e, xs_guest x)" ..
  then show ?thesis using Some by (simp add: cutover_enter_def on_guest_def)
qed (simp add: cutover_enter_def)

lemma file_guest:
  assumes "\<not> (m = FileWrite \<and> is_ok (write_request (ae_files env) (ct_file_ops (ap_capabilities (ae_load env 2)))
      (ae_fs env (xs_guest x)) (ae_json env (rq_params req))))"
  shows "snd (file_op env m req x) = x"
  using assms by (auto simp: file_op_def Let_def)

lemma dispatch_guest:
  assumes "xs_guest (snd (dispatch env req x)) \<noteq> xs_guest x"
  shows "request_method req \<noteq> Unknown (rq_method req)" "handler_guard env req (xs_guest x)"
proof -
  show known: "request_method req \<noteq> Unknown (rq_method req)"
    using assms by (auto simp: dispatch_def)
  have "handler_guard env req (xs_guest x)" if meth: "request_method req = m" for m
  proof (rule ccontr)
    let ?pol = "ae_load env 2" and ?p = "rq_params req"
    assume no: "\<not> handler_guard env req (xs_guest x)"
    then consider "m = Exec" "\<not> shell_enabled ?pol"
      | "m \<in> {Reboot, Shutdown}" "pa_reboot_vm_require_approval (ap_actions ?pol)" "ae_get_bool env ?p ''confirm'' \<noteq> Some True"
      | "m \<in> {RestartUnit, StartUnit, StopUnit}" "\<not> (\<exists>u. ae_get_str env ?p ''unit'' = Some u \<and> can_restart_unit ?pol u)"
      | "m = MigrationRepair" "ae_get_bool env ?p ''dry_run'' = Some False \<and> ae_get_bool env ?p ''confirm'' \<noteq> Some True \<or>
        ae_get_bool env ?p ''include_destructive'' = Some True \<and> \<not> gp_repair_destructive (pa_migration (ap_actions ?pol))"
      | "m = ExecuteRemediationPlan" "\<not> ue_available (ae_units env) (xs_guest x)" "list_all (harmless ?pol) (plan_actions env ?p)"
      | "m = RunFixPlan" "\<not> (ac_fix_apply (ae_capabilities env) \<and> (\<exists>plan. ae_get_plan env ?p = Some (Inr plan)))"
      | "m = MigrationCutoverEnter" "\<not> token_guard env ?p (xs_guest x)"
      | "m \<in> set file_methods" "\<not> (m = FileWrite \<and>
          is_ok (write_request (ae_files env) (ct_file_ops (ap_capabilities ?pol)) (ae_fs env (xs_guest x)) (ae_json env ?p)))"
      unfolding handler_guard_def Let_def meth by blast
    then have "xs_guest (snd (dispatch env req x)) = xs_guest x"
    proof cases
      case 1
      then show ?thesis using meth by (simp add: dispatch_def exec_guest)
    next
      case 2
      then show ?thesis using meth power_action_guest [OF 2(2,3)] by (auto simp: dispatch_def)
    next
      case 3
      then show ?thesis using meth unit_guest [OF 3(2)] by (auto simp: dispatch_def)
    next
      case 4
      then show ?thesis using meth repair_guest [OF 4(2)] by (auto simp: dispatch_def)
    next
      case 5
      then show ?thesis using meth remediation_guest [OF 5(2, 3)] by (simp add: dispatch_def)
    next
      case 6
      then show ?thesis using meth fix_plan_guest [OF 6(2)] by (simp add: dispatch_def)
    next
      case 7
      then show ?thesis using meth cutover_guest [OF 7(2)] by (simp add: dispatch_def)
    next
      case 8
      then have "snd (dispatch env req x) = snd (file_op env m req x)" using meth by (auto simp: dispatch_def file_methods_def)
      then show ?thesis using file_guest [OF 8(2)] by simp
    qed
    with assms show False by simp
  qed
  then show "handler_guard env req (xs_guest x)" by blast
qed

lemma enforce_security_state:
  "as_exec (snd (enforce_security env req st)) = as_exec st"
  by (auto simp: enforce_security_def agent_audit_def Let_def split: option.splits prod.splits)

lemma enforce_security_proceeds:
  assumes "fst (enforce_security env req st) = Inr None"
  shows "security_ok env req st"
proof -
  have fresh: "fst (nonce_fresh n cap c) \<longleftrightarrow> n \<notin> nonces c" for n cap and c :: "'a json_rpc_response replay_cache"
    by (simp add: nonce_fresh_def split: prod.split)
  have get: "fst (idempotent_get t k (snd (nonce_fresh n cap c))) = fst (idempotent_get t k c)"
    for t k n cap and c :: "'a json_rpc_response replay_cache"
    by (simp add: idempotent_get_def idempotent_nonce_fresh)
  have exp: "check_expiry env req = None"
    using assms by (auto simp: enforce_security_def split: option.splits)
  show ?thesis
  proof (cases "rq_nonce req")
    case None
    then show ?thesis using assms exp
      by (auto simp: enforce_security_def security_ok_def split: option.splits prod.splits)
  next
    case (Some n)
    let ?nf = "nonce_fresh n (sp_nonce_cache_size (ap_security (ae_load env 1))) (as_replay st)"
    have ok: "fst ?nf" using assms exp Some by (auto simp: enforce_security_def split_beta split: if_splits)
    show ?thesis
    proof (cases "rq_idempotency_key req")
      case None
      then show ?thesis using Some ok exp by (simp add: security_ok_def fresh)
    next
      case (Some key)
      then have "fst (idempotent_get (ae_get_at env) key (snd ?nf)) = None"
        using assms exp ok \<open>rq_nonce req = Some n\<close> by (simp add: enforce_security_def split_beta)
      then show ?thesis using Some ok exp \<open>rq_nonce req = Some n\<close> by (simp add: security_ok_def fresh get)
    qed
  qed
qed

lemma enforce_security_passes:
  assumes "security_ok env req st"
  shows "fst (enforce_security env req st) = Inr None"
proof -
  have fresh: "n \<notin> nonces c \<Longrightarrow> fst (nonce_fresh n cap c)" for n cap and c :: "'a json_rpc_response replay_cache"
    by (simp add: nonce_fresh_def split: prod.split)
  have get: "fst (idempotent_get t k (snd (nonce_fresh n cap c))) = fst (idempotent_get t k c)"
    for t k n cap and c :: "'a json_rpc_response replay_cache"
    by (simp add: idempotent_get_def idempotent_nonce_fresh)
  show ?thesis
    using assms
    by (auto simp: security_ok_def enforce_security_def fresh get split_beta split: option.splits)
qed

lemma finish_mutating_guest: "as_exec (finish_mutating env req resp st) = as_exec st"
  by (simp add: finish_mutating_def agent_audit_def Let_def split: option.split)

lemma run_dispatch_guest: "as_exec (snd (run_dispatch env req st)) = snd (dispatch env req (as_exec st))"
  by (simp add: run_dispatch_def split_beta)

lemma handle_request_guest:
  assumes "as_guest (snd (handle_request env req st)) \<noteq> as_guest st"
  shows "negotiation (request_method req) \<or>
      is_ok (authorize (ae_glob env) (ae_load env 0) (request_method req) (rq_method req))"
    and "is_mutating (request_method req) \<longrightarrow> security_ok env req st"
    and "xs_guest (snd (dispatch env req (as_exec st))) \<noteq> as_guest st"
proof -
  let ?m = "request_method req"
  let ?auth = "if negotiation ?m then Inr () else authorize (ae_glob env) (ae_load env 0) ?m (rq_method req)"
  have auth: "?auth = Inr ()"
    using assms by (cases ?auth) (auto simp: handle_request_def agent_audit_def Let_def)
  then show "negotiation ?m \<or> is_ok (authorize (ae_glob env) (ae_load env 0) ?m (rq_method req))"
    by (auto split: if_splits)
  have go: "fst (enforce_security env req st) = Inr None \<and>
      xs_guest (snd (dispatch env req (as_exec st))) \<noteq> as_guest st" if "is_mutating ?m"
  proof -
    obtain o' st1 where e: "enforce_security env req st = (o', st1)" by fastforce
    have ex: "as_exec st1 = as_exec st" using enforce_security_state [of env req st] e by simp
    have *: "handle_request env req st = (case o' of Inl r \<Rightarrow> (r, st1) | Inr (Some c) \<Rightarrow> (c, st1)
        | Inr None \<Rightarrow> (case run_dispatch env req st1 of (resp, st2) \<Rightarrow> (resp, finish_mutating env req resp st2)))"
      using auth that by (simp add: handle_request_def e Let_def split: sum.split option.split)
    then have "o' = Inr None" using assms ex by (auto split: sum.splits option.splits)
    moreover from this * have "snd (handle_request env req st) =
        finish_mutating env req (fst (run_dispatch env req st1)) (snd (run_dispatch env req st1))"
      by (simp add: split_beta)
    ultimately show ?thesis
      using assms e by (simp add: finish_mutating_guest run_dispatch_guest ex)
  qed
  show "is_mutating ?m \<longrightarrow> security_ok env req st"
    using go enforce_security_proceeds [of env req st] by blast
  show "xs_guest (snd (dispatch env req (as_exec st))) \<noteq> as_guest st"
  proof (cases "is_mutating ?m")
    case False
    then have "handle_request env req st = run_dispatch env req st"
      using auth by (simp add: handle_request_def Let_def)
    then show ?thesis using assms by (simp add: run_dispatch_guest)
  qed (use go in blast)
qed

lemma handle_on_served:
  assumes "ae_parse env bytes = Inr req" and "request_validate req = Inr ()"
    and "negotiation (request_method req) \<or>
       is_ok (authorize (ae_glob env) (ae_load env 0) (request_method req) (rq_method req))"
    and "is_mutating (request_method req) \<longrightarrow> security_ok env req st"
  shows "fst (handle_on env bytes st) = fst (dispatch env req (as_exec st)) \<and>
    as_exec (snd (handle_on env bytes st)) = snd (dispatch env req (as_exec st))"
proof -
  let ?m = "request_method req"
  have auth: "(if negotiation ?m then Inr () else authorize (ae_glob env) (ae_load env 0) ?m (rq_method req)) = Inr ()"
    using assms(3) by (auto simp: is_ok_iff)
  have "fst (handle_request env req st) = fst (dispatch env req (as_exec st)) \<and>
      as_exec (snd (handle_request env req st)) = snd (dispatch env req (as_exec st))"
  proof (cases "is_mutating ?m")
    case True
    then obtain st1 where e: "enforce_security env req st = (Inr None, st1)"
      using enforce_security_passes [of env req st] assms(4) by (metis prod.collapse)
    then have "as_exec st1 = as_exec st" using enforce_security_state [of env req st] by simp
    then show ?thesis
      using auth True e
      by (simp add: handle_request_def Let_def split_beta finish_mutating_guest run_dispatch_guest)
        (simp add: run_dispatch_def split_beta)
  next
    case False
    then show ?thesis using auth by (simp add: handle_request_def Let_def run_dispatch_def split_beta)
  qed
  then show ?thesis using assms(1,2) by (simp add: handle_on_def)
qed

subsection \<open>A test agent\<close>

text \<open>An agent whose guest counts the requests that reach it; requests are always the same
  reboot request, confirmed or not.\<close>

definition reboot_request :: "nat json_rpc_request" where
  "reboot_request =
     \<lparr>rq_jsonrpc = ''2.0'', rq_method = ''system.reboot'', rq_params = 0, rq_id = Some 1, rq_ts = None,
      rq_ttl_ms = None, rq_nonce = Some ''n1'', rq_idempotency_key = Some ''k1''\<rparr>"

definition test_cutover :: "nat cutover_env" where
  "test_cutover =
     \<lparr>ce_sha256 = id, ce_show_f64 = (\<lambda>_. []), ce_rfc3339 = (\<lambda>_. Inr 0), ce_to_rfc3339 = (\<lambda>_. []), ce_now = (\<lambda>_. 0),
      ce_random = replicate 32 0, ce_read_key = (\<lambda>_. None), ce_write_key = (\<lambda>_ g. (Inr (), Suc g)),
      ce_freeze = (\<lambda>g. (Inr (), Suc g)), ce_thaw = (\<lambda>g. (Inr (), Suc g)), ce_frozen = (\<lambda>_. False), ce_arm = (\<lambda>_ g. g),
      ce_read_marker = (\<lambda>_. None), ce_write_marker = (\<lambda>_ g. (Inr (), Suc g)), ce_remove_marker = (\<lambda>g. g)\<rparr>"

definition test_env :: "bool \<Rightarrow> (nat, nat) agent_env" where
  "test_env confirm =
     \<lparr>ae_parse = (\<lambda>_. Inr reboot_request), ae_glob = (\<lambda>_ _. None), ae_load = (\<lambda>_. default_permissive_dev),
      ae_rfc3339 = (\<lambda>_. Inl []), ae_utc_now = 0, ae_get_at = 0, ae_store_at = 0,
      ae_serve = (\<lambda>_ r g. (rpc_success (rq_id r) 0, Suc g)), ae_get_bool = (\<lambda>_ _. Some confirm),
      ae_get_str = (\<lambda>_ _. None), ae_get_u64 = (\<lambda>_ _. None), ae_get_actions = (\<lambda>_. None),
      ae_message = (\<lambda>_. 0), ae_of_remediation = (\<lambda>_. 0), ae_units = counting_env,
      ae_exec_sync = (\<lambda>_ g. (Inr 0, Suc g)), ae_power_helper = (\<lambda>_ _ g. (None, g)),
      ae_run_power_action = (\<lambda>_ _ g. (Inr ''ok'', Suc g)),
      ae_repair = (\<lambda>_ _ r g. (rpc_success (rq_id r) 0, Suc g)), ae_capabilities = standard ''linux'' False ''1.0'',
      ae_get_plan = (\<lambda>_. None), ae_apply_plan = (\<lambda>_ _ g. (Inr 0, Suc g)), ae_json = (\<lambda>_. JNull), ae_of_json = (\<lambda>_. 0),
      ae_files = files_env, ae_fs = (\<lambda>_. Map.empty), ae_set_fs = (\<lambda>_ g. g), ae_cutover = test_cutover,
      ae_get_token = (\<lambda>_. None), ae_get_cutover = (\<lambda>_. None), ae_of_cutover = (\<lambda>_. 0), ae_from_slice = (\<lambda>_. None),
      ae_to_vec = (\<lambda>_. None), ae_response_vec = (\<lambda>_. Inr []), ae_qga = (\<lambda>_ g. ([], Suc g))\<rparr>"

definition test_state :: "(nat, nat) agent_state" where
  "test_state = \<lparr>as_replay = replay_default, as_exec = \<lparr>xs_guest = 0, xs_audit = []\<rparr>, as_audit = []\<rparr>"

lemma reboot_request_parse: "request_method reboot_request = Reboot"
  unfolding request_method_def by (rule rpc_parse_alias) (simp add: reboot_request_def alias_arms_def)

lemma test_env_load [simp]: "ae_load (test_env b) k = default_permissive_dev"
  by (simp add: test_env_def)

lemma reboot_security: "security_ok (test_env b) reboot_request test_state"
  by (simp add: security_ok_def check_expiry_def reboot_request_def test_state_def replay_default_def
      idempotent_get_def policy_defaults)

lemma reboot_authorized: "is_ok (authorize (ae_glob (test_env b)) (ae_load (test_env b) 0) Reboot w)"
  by (simp add: authorize_ok category_arms_def policy_defaults Let_def glob_match_def)

lemma reboot_dispatch: "xs_guest (snd (dispatch (test_env True) reboot_request (as_exec test_state))) = 1"
  by (simp add: dispatch_def reboot_request_parse Let_def power_action_def test_env_def test_state_def
        unwrap_bool_def counting_env_def on_guest_def policy_defaults)

lemma reboot_reaches_guest: "as_guest (snd (handle_on (test_env True) [] test_state)) = 1"
proof -
  have "fst (handle_on (test_env True) [] test_state) =
        fst (dispatch (test_env True) reboot_request (as_exec test_state)) \<and>
      as_exec (snd (handle_on (test_env True) [] test_state)) =
        snd (dispatch (test_env True) reboot_request (as_exec test_state))"
  proof (rule handle_on_served)
    show "ae_parse (test_env True) [] = Inr reboot_request" by (simp add: test_env_def)
    show "request_validate reboot_request = Inr ()" by (simp add: request_validate_def reboot_request_def)
  qed (use reboot_authorized reboot_security in \<open>simp_all add: reboot_request_parse\<close>)
  then show ?thesis using reboot_dispatch by simp
qed

subsection \<open>Properties\<close>



text \<open>
  Claim C37.  A permitted request is served: if the bytes parse to a valid request, the policy
  authorizes it or it is negotiation, and, for a mutating method, the security check passes, then the
  response is the method handler's and the guest is as the handler leaves it.
\<close>

theorem permitted_request_served:
  assumes "ae_parse env bytes = Inr req" and "request_validate req = Inr ()"
    and "negotiation (request_method req) \<or>
       is_ok (authorize (ae_glob env) (ae_load env 0) (request_method req) (rq_method req))"
    and "is_mutating (request_method req) \<longrightarrow> security_ok env req st"
  shows "fst (handle_on env bytes st) = fst (dispatch env req (as_exec st)) \<and>
    as_exec (snd (handle_on env bytes st)) = snd (dispatch env req (as_exec st))"
  by (rule handle_on_served [OF assms])

theorem permitted_request_served_witness:
  "as_guest (snd (handle_on (test_env True) [] test_state)) = 1"
proof -
  have "fst (handle_on (test_env True) [] test_state) =
        fst (dispatch (test_env True) reboot_request (as_exec test_state)) \<and>
      as_exec (snd (handle_on (test_env True) [] test_state)) =
        snd (dispatch (test_env True) reboot_request (as_exec test_state))"
  proof (rule permitted_request_served)
    show "ae_parse (test_env True) [] = Inr reboot_request" by (simp add: test_env_def)
    show "request_validate reboot_request = Inr ()" by (simp add: request_validate_def reboot_request_def)
  qed (use reboot_authorized reboot_security in \<open>simp_all add: reboot_request_parse\<close>)
  then show ?thesis using reboot_dispatch by simp
qed

text \<open>
  The agent advertises exactly what it dispatches: the advertised names are distinct,
  they parse to exactly the methods that have a handler, and the only known method without one
  is \<open>SetTime\<close>, which answers that it is not implemented.
\<close>

theorem advertised_iff_dispatched:
  "distinct (ac_methods (standard os win v)) \<and>
   rpc_parse ` set (ac_methods (standard os win v)) = set dispatch_arms \<and>
   rpc_parse ` (fst ` set (method_arms @ alias_arms)) = insert SetTime (set dispatch_arms) \<and>
   SetTime \<notin> set dispatch_arms"
proof (intro conjI)
  let ?kept = "filter (\<lambda>(n, m). m \<noteq> SetTime) method_arms"
  have sub: "list_all (\<lambda>n. n \<in> set (map fst ?kept)) (ac_methods (standard os win v))"
      "list_all (\<lambda>n. n \<in> set (ac_methods (standard os win v))) (map fst ?kept)"
    by (simp_all add: standard_def method_arms_def)
  have names: "set (ac_methods (standard os win v)) = fst ` set ?kept"
    using sub by (auto simp: list_all_iff)
  have snds: "list_all (\<lambda>m. m \<in> set dispatch_arms) (map snd ?kept)"
      "list_all (\<lambda>m. m \<in> set (map snd ?kept)) dispatch_arms"
    by (simp_all add: dispatch_arms_def method_arms_def)
  have parse: "rpc_parse ` fst ` A = snd ` A" if "A \<subseteq> set (method_arms @ alias_arms)" for A
    unfolding image_image using that
    by (intro image_cong refl) (auto simp: rpc_parse_canonical rpc_parse_alias)
  have "set ?kept \<subseteq> set (method_arms @ alias_arms)" by auto
  then show "rpc_parse ` set (ac_methods (standard os win v)) = set dispatch_arms"
    using snds unfolding names parse [OF \<open>set ?kept \<subseteq> _\<close>] by (auto simp: list_all_iff)
  have "list_all (\<lambda>m. m \<in> set (SetTime # dispatch_arms)) (map snd (method_arms @ alias_arms))"
      "list_all (\<lambda>m. m \<in> set (map snd method_arms)) (SetTime # dispatch_arms)"
    by (simp_all add: dispatch_arms_def method_arms_def alias_arms_def)
  then have "snd ` set (method_arms @ alias_arms) = insert SetTime (set dispatch_arms)"
    by (auto simp: list_all_iff image_iff)
  then show "rpc_parse ` (fst ` set (method_arms @ alias_arms)) = insert SetTime (set dispatch_arms)"
    unfolding parse [OF subset_refl] .
  show "SetTime \<notin> set dispatch_arms" by (simp add: dispatch_arms_def)
  have "length (ac_methods (standard os win v)) = length (map fst ?kept)"
    by (simp add: standard_def method_arms_def)
  moreover have "distinct (map fst ?kept)"
    using method_names_distinct by (rule distinct_map_filter)
  ultimately show "distinct (ac_methods (standard os win v))"
    using names by (metis card_distinct distinct_card set_map)
qed

end
