(* ===== verification/Agent_Threads.thy ===== *)
theory Agent_Threads
  imports Agent_Handler "HOL-Library.Multiset"
begin

text \<open>
  Concurrent requests.  The daemon (\<^verbatim>\<open>src/agent/daemon.rs\<close>) serves every channel on a thread
  of its own with one shared \<open>RequestHandler\<close>, and the handler takes the mutex of the replay cache
  separately for the nonce check, the cache lookup and the cache store, with the method handler in
  between.  A thread is a mutating request that the policy has authorized and that is in time; its
  program counter is the next of these atomic steps.  The system is the interleaving of any number of
  threads over one agent state.
\<close>

subsection \<open>Threads and steps\<close>

datatype 'v pc = PcNonce | PcGet | PcRun | PcStore "'v json_rpc_response" | PcDone | PcRejected

record ('v, 'g) thread =
  th_env :: "('v, 'g) agent_env"
  th_req :: "'v json_rpc_request"
  th_pc :: "'v pc"

abbreviation th_cap :: "('v, 'g) thread \<Rightarrow> nat" where
  "th_cap t \<equiv> sp_nonce_cache_size (ap_security (ae_load (th_env t) 1))"

definition nonce_step ::
    "('v, 'g) thread \<Rightarrow> ('v, 'g) agent_state \<Rightarrow> ('v, 'g) thread \<times> ('v, 'g) agent_state" where
  "nonce_step t st =
     (case rq_nonce (th_req t) of
        None \<Rightarrow> (t\<lparr>th_pc := PcGet\<rparr>, st)
      | Some n \<Rightarrow>
          (case nonce_fresh n (th_cap t) (as_replay st) of
             (True, c) \<Rightarrow> (t\<lparr>th_pc := PcGet\<rparr>, st\<lparr>as_replay := c\<rparr>)
           | (False, c) \<Rightarrow>
               (t\<lparr>th_pc := PcRejected\<rparr>, agent_audit (rq_method (th_req t)) ''replay'' [] (st\<lparr>as_replay := c\<rparr>))))"

definition get_step ::
    "('v, 'g) thread \<Rightarrow> ('v, 'g) agent_state \<Rightarrow> ('v, 'g) thread \<times> ('v, 'g) agent_state" where
  "get_step t st =
     (case rq_idempotency_key (th_req t) of
        None \<Rightarrow> (t\<lparr>th_pc := PcRun\<rparr>, st)
      | Some key \<Rightarrow>
          (case idempotent_get (ae_get_at (th_env t)) key (as_replay st) of
             (cached, c) \<Rightarrow> (t\<lparr>th_pc := (if cached = None then PcRun else PcDone)\<rparr>, st\<lparr>as_replay := c\<rparr>)))"

definition thread_step ::
    "('v, 'g) thread \<Rightarrow> ('v, 'g) agent_state \<Rightarrow> ('v, 'g) thread \<times> ('v, 'g) agent_state" where
  "thread_step t st =
     (case th_pc t of
        PcNonce \<Rightarrow> nonce_step t st
      | PcGet \<Rightarrow> get_step t st
      | PcRun \<Rightarrow>
          (case run_dispatch (th_env t) (th_req t) st of (resp, st1) \<Rightarrow> (t\<lparr>th_pc := PcStore resp\<rparr>, st1))
      | PcStore resp \<Rightarrow> (t\<lparr>th_pc := PcDone\<rparr>, finish_mutating (th_env t) (th_req t) resp st)
      | PcDone \<Rightarrow> (t, st)
      | PcRejected \<Rightarrow> (t, st))"

type_synonym ('v, 'g) agent_config = "('v, 'g) agent_state \<times> ('v, 'g) thread list"

inductive agent_step :: "('v, 'g) agent_config \<Rightarrow> ('v, 'g) agent_config \<Rightarrow> bool" where
  step: "i < length ts \<Longrightarrow> th_pc (ts ! i) \<notin> {PcDone, PcRejected} \<Longrightarrow>
           thread_step (ts ! i) st = (t', st') \<Longrightarrow> agent_step (st, ts) (st', ts[i := t'])"

inductive_cases agent_stepE: "agent_step (st, ts) c"

subsection \<open>One thread alone is the sequential handler\<close>

lemma thread_alone:
  assumes "is_mutating (request_method req)"
    and "negotiation (request_method req) \<or>
      is_ok (authorize (ae_glob env) (ae_load env 0) (request_method req) (rq_method req))"
    and "check_expiry env req = None"
  shows "\<exists>t'. agent_step\<^sup>*\<^sup>* (st, [\<lparr>th_env = env, th_req = req, th_pc = PcNonce\<rparr>])
      (snd (handle_request env req st), [t']) \<and> th_pc t' \<in> {PcDone, PcRejected}"
proof -
  let ?t = "\<lambda>p. \<lparr>th_env = env, th_req = req, th_pc = p\<rparr>"
  have step: "agent_step (s, [?t p]) (s', [t'])"
    if "p \<notin> {PcDone, PcRejected}" "thread_step (?t p) s = (t', s')" for p s s' t'
    using agent_step.step [of 0 "[?t p]" s t' s'] that by simp
  obtain t1 s1 where n: "nonce_step (?t PcNonce) st = (t1, s1)" by fastforce
  have first: "agent_step (st, [?t PcNonce]) (s1, [t1])"
    by (rule step) (simp_all add: thread_step_def n)
  have auth: "(if negotiation (request_method req) then Inr ()
      else authorize (ae_glob env) (ae_load env 0) (request_method req) (rq_method req)) = Inr ()"
    using assms(2) by (auto simp: is_ok_iff)
  have h: "handle_request env req st =
      (case enforce_security env req st of
         (Inl resp, st1) \<Rightarrow> (resp, st1)
       | (Inr (Some cached), st1) \<Rightarrow> (cached, st1)
       | (Inr None, st1) \<Rightarrow>
           (case run_dispatch env req st1 of (resp, st2) \<Rightarrow> (resp, finish_mutating env req resp st2)))"
    using assms(1) auth by (simp add: handle_request_def Let_def)
  show ?thesis
  proof (cases "t1 = ?t PcRejected")
    case True
    have "enforce_security env req st = (fst (enforce_security env req st), s1) \<and>
        \<not> is_ok (fst (enforce_security env req st))"
      using n True assms(3)
      by (auto simp: nonce_step_def enforce_security_def split: option.splits prod.splits bool.splits)
    then have "snd (handle_request env req st) = s1"
      using h by (auto simp: is_ok_def split: sum.splits prod.splits)
    then show ?thesis using first True by (intro exI [of _ t1]) auto
  next
    case False
    then have t1: "t1 = ?t PcGet"
      using n by (auto simp: nonce_step_def split: option.splits prod.splits bool.splits)
    obtain t2 s2 where g: "get_step (?t PcGet) s1 = (t2, s2)" by fastforce
    have second: "agent_step (s1, [?t PcGet]) (s2, [t2])"
      by (rule step) (simp_all add: thread_step_def g)
    have e: "snd (enforce_security env req st) = s2 \<and>
        (if t2 = ?t PcRun then fst (enforce_security env req st) = Inr None
         else t2 = ?t PcDone \<and> (\<exists>r. fst (enforce_security env req st) = Inr (Some r)))"
      using n g t1 assms(3)
      by (auto simp: nonce_step_def get_step_def enforce_security_def
          split: option.splits prod.splits bool.splits if_splits)
    show ?thesis
    proof (cases "t2 = ?t PcRun")
      case True
      obtain resp s3 where r: "run_dispatch env req s2 = (resp, s3)" by fastforce
      have "agent_step (s2, [?t PcRun]) (s3, [?t (PcStore resp)])"
        by (rule step) (simp_all add: thread_step_def r)
      moreover have "agent_step (s3, [?t (PcStore resp)]) (finish_mutating env req resp s3, [?t PcDone])"
        by (rule step) (simp_all add: thread_step_def)
      moreover have "snd (handle_request env req st) = finish_mutating env req resp s3"
        using h e True r by (cases "enforce_security env req st") auto
      ultimately show ?thesis
        using first second t1 True
        by (intro exI [of _ "?t PcDone"]) (auto intro: converse_rtranclp_into_rtranclp)
    next
      case False
      then have "snd (handle_request env req st) = s2"
        using h e by (cases "enforce_security env req st") auto
      then show ?thesis
        using first second t1 False e
        by (intro exI [of _ t2]) (auto intro: converse_rtranclp_into_rtranclp)
    qed
  qed
qed

subsection \<open>Nonces under interleaving\<close>

text \<open>The nonces of the threads that got past the check, thread by thread.\<close>

definition passed_nonce :: "('v, 'g) thread \<Rightarrow> string list" where
  "passed_nonce t =
     (if th_pc t \<in> {PcNonce, PcRejected} then []
      else case rq_nonce (th_req t) of None \<Rightarrow> [] | Some n \<Rightarrow> [n])"

definition passed_nonces :: "('v, 'g) thread list \<Rightarrow> string list" where
  "passed_nonces ts = concat (map passed_nonce ts)"

lemma mset_concat_update:
  "i < length ts \<Longrightarrow>
     mset (concat (map f (ts[i := t]))) + mset (f (ts ! i)) = mset (concat (map f ts)) + mset (f t)"
proof (induction ts arbitrary: i)
  case (Cons a ts)
  then show ?case by (cases i) (simp_all add: algebra_simps)
qed simp

lemma length_passed_nonces: "length (passed_nonces ts) \<le> length ts"
proof (induction ts)
  case (Cons t ts)
  have "length (passed_nonce t) \<le> 1" by (simp add: passed_nonce_def split: option.split)
  with Cons show ?case by (simp add: passed_nonces_def)
qed (simp add: passed_nonces_def)

lemma suffix_take_last: "suffix a xs \<Longrightarrow> length a \<le> n \<Longrightarrow> suffix a (take_last n xs)"
  by (auto simp: suffix_def take_last_def)

text \<open>The invariant: the window is well formed, all threads use the same capacity, and the nonces that
  passed are the newest entries of the window.\<close>

definition nonce_inv :: "nat \<Rightarrow> ('v, 'g) agent_config \<Rightarrow> bool" where
  "nonce_inv cap c \<longleftrightarrow>
     (case c of (st, ts) \<Rightarrow>
        length ts \<le> max cap 1 \<and> list_all (\<lambda>t. th_cap t = cap) ts \<and> window_ok (as_replay st) \<and>
        (\<exists>acc. suffix acc (nonce_order (as_replay st)) \<and> mset acc = mset (passed_nonces ts)))"

text \<open>Only the nonce check touches the window; the other steps keep a passed thread passed.\<close>

lemma finish_mutating_window:
  "nonce_order (as_replay (finish_mutating env req resp st)) = nonce_order (as_replay st)"
  "nonces (as_replay (finish_mutating env req resp st)) = nonces (as_replay st)"
  by (simp_all add: finish_mutating_def agent_audit_def idempotent_store_def Let_def split: option.split)

lemma other_step_window:
  assumes "th_pc t \<notin> {PcNonce, PcDone, PcRejected}" "thread_step t st = (t', st')"
  shows "nonce_order (as_replay st') = nonce_order (as_replay st)"
    "nonces (as_replay st') = nonces (as_replay st)"
    "passed_nonce t' = passed_nonce t" "th_cap t' = th_cap t"
  using assms
  by (auto simp: thread_step_def get_step_def run_dispatch_def idempotent_get_def finish_mutating_window
      passed_nonce_def Let_def split: pc.splits option.splits prod.splits if_splits)

lemma nonce_step_cases:
  assumes "th_pc t = PcNonce" "thread_step t st = (t', st')" "window_ok (as_replay st)"
  obtains "nonce_order (as_replay st') = nonce_order (as_replay st)"
      "nonces (as_replay st') = nonces (as_replay st)" "passed_nonce t' = []" "th_cap t' = th_cap t"
  | n where "nonce_order (as_replay st') = take_last (max (th_cap t) 1) (nonce_order (as_replay st) @ [n])"
      "window_ok (as_replay st')" "passed_nonce t' = [n]" "th_cap t' = th_cap t"
proof (cases "rq_nonce (th_req t)")
  case None
  then show ?thesis using assms that(1) by (auto simp: thread_step_def nonce_step_def passed_nonce_def)
next
  case (Some n)
  show ?thesis
  proof (cases "n \<in> set (nonce_order (as_replay st))")
    case True
    then have "nonce_fresh n (th_cap t) (as_replay st) = (False, as_replay st)"
      using assms(3) by (simp add: nonce_fresh_window)
    then show ?thesis
      using assms(1,2) Some that(1)
      by (auto simp: thread_step_def nonce_step_def passed_nonce_def agent_audit_def)
  next
    case False
    obtain c where c: "accept_nonce (th_cap t) n (as_replay st) = Some c"
      using False assms(3) by (auto simp: accept_nonce_window Let_def)
    then have "nonce_fresh n (th_cap t) (as_replay st) = (True, c)"
      by (auto simp: accept_nonce_def split: prod.splits if_splits)
    then show ?thesis
      using assms(1,2) Some accept_nonceD [OF assms(3) c] that(2) [of n]
      by (auto simp: thread_step_def nonce_step_def passed_nonce_def)
  qed
qed

lemma nonce_inv_step:
  assumes "nonce_inv cap c" "agent_step c c'"
  shows "nonce_inv cap c'"
  using assms(2)
proof cases
  case (step i ts st t' st')
  let ?t = "ts ! i"
  from assms(1) step obtain acc where inv: "length ts \<le> max cap 1" "list_all (\<lambda>t. th_cap t = cap) ts"
      "window_ok (as_replay st)" "suffix acc (nonce_order (as_replay st))" "mset acc = mset (passed_nonces ts)"
    by (auto simp: nonce_inv_def)
  have cap: "th_cap ?t = cap" using inv(2) step(3) by (simp add: list_all_length)
  have upd: "mset (passed_nonces (ts[i := t'])) + mset (passed_nonce ?t) =
      mset (passed_nonces ts) + mset (passed_nonce t')"
    using mset_concat_update [OF step(3)] by (simp add: passed_nonces_def)
  have caps: "th_cap t' = cap \<Longrightarrow> list_all (\<lambda>t. th_cap t = cap) (ts[i := t'])"
    using inv(2) set_update_subset_insert [of ts i t'] by (auto simp: list_all_iff)
  have quiet: "nonce_inv cap (st', ts[i := t'])"
    if "nonce_order (as_replay st') = nonce_order (as_replay st)" "nonces (as_replay st') = nonces (as_replay st)"
      "passed_nonce t' = passed_nonce ?t" "th_cap t' = th_cap ?t"
    using that inv upd caps cap unfolding nonce_inv_def by (auto simp: window_ok_def)
  show ?thesis
  proof (cases "th_pc ?t = PcNonce")
    case True
    then have none: "passed_nonce ?t = []" by (simp add: passed_nonce_def)
    from nonce_step_cases [OF True step(5) inv(3)] show ?thesis
    proof cases
      case 1
      then show ?thesis using quiet none step by simp
    next
      case (2 n)
      have m: "mset (acc @ [n]) = mset (passed_nonces (ts[i := t']))"
        using upd none 2(3) inv(5) by simp
      have "length (acc @ [n]) \<le> max cap 1"
        using length_passed_nonces [of "ts[i := t']"] inv(1) arg_cong [OF m, of size] by simp
      moreover have "suffix (acc @ [n]) (nonce_order (as_replay st) @ [n])"
        using inv(4) by (auto simp: suffix_def)
      ultimately have "suffix (acc @ [n]) (nonce_order (as_replay st'))"
        using 2(1) cap suffix_take_last by metis
      then show ?thesis
        using inv 2 m caps cap step unfolding nonce_inv_def by auto
    qed
  next
    case False
    then show ?thesis using quiet other_step_window [OF _ step(5)] step by auto
  qed
qed

lemma nonce_inv_reachable: "agent_step\<^sup>*\<^sup>* c c' \<Longrightarrow> nonce_inv cap c \<Longrightarrow> nonce_inv cap c'"
  by (induction rule: rtranclp_induct) (auto intro: nonce_inv_step)

lemma nonce_inv_distinct:
  assumes "nonce_inv cap (st, ts)"
  shows "distinct (passed_nonces ts)"
proof -
  obtain acc where "suffix acc (nonce_order (as_replay st))" "mset acc = mset (passed_nonces ts)"
    "distinct (nonce_order (as_replay st))"
    using assms by (auto simp: nonce_inv_def window_ok_def)
  then have "distinct acc" by (auto simp: suffix_def)
  then show ?thesis using \<open>mset acc = mset (passed_nonces ts)\<close> mset_eq_imp_distinct_iff by blast
qed

subsection \<open>Two threads\<close>

lemma step_first:
  "thread_step t st = (t', st') \<Longrightarrow> th_pc t \<notin> {PcDone, PcRejected} \<Longrightarrow> agent_step (st, [t, u]) (st', [t', u])"
  using agent_step.step [of 0 "[t, u]" st t' st'] by simp

lemma step_second:
  "thread_step u st = (u', st') \<Longrightarrow> th_pc u \<notin> {PcDone, PcRejected} \<Longrightarrow> agent_step (st, [t, u]) (st', [t, u'])"
  using agent_step.step [of 1 "[t, u]" st u' st'] by simp

lemma check_and_get:
  assumes "rq_nonce (th_req t) = None" "rq_idempotency_key (th_req t) = Some key"
    "idempotent (as_replay st) key = None"
  obtains st' where "thread_step (t\<lparr>th_pc := PcNonce\<rparr>) st = (t\<lparr>th_pc := PcGet\<rparr>, st)"
    "thread_step (t\<lparr>th_pc := PcGet\<rparr>) st = (t\<lparr>th_pc := PcRun\<rparr>, st')"
    "idempotent (as_replay st') key = None" "as_exec st' = as_exec st"
  using assms
  by (auto simp: thread_step_def nonce_step_def get_step_def idempotent_get_def Let_def)

subsection \<open>Properties\<close>

text \<open>
  Claim C7.  Nonces are single use within one window, under every interleaving: starting from a well-formed
  window and any threads that have not checked their nonce yet, all with the same window size and at most as many as the
  window holds (one for a window of size 0), no two of the threads that got past the nonce check carry the same nonce, at any moment of
  any schedule.  With more threads a nonce may be evicted and then pass again.
\<close>

theorem nonce_single_use:
  assumes "agent_step\<^sup>*\<^sup>* (st, ts) (st', ts')"
    and "list_all (\<lambda>t. th_pc t = PcNonce \<and> th_cap t = cap) ts"
    and "length ts \<le> max cap 1" and "window_ok (as_replay st)"
  shows "distinct (passed_nonces ts')"
proof -
  have "passed_nonces ts = []"
    using assms(2) by (induction ts) (simp_all add: passed_nonces_def passed_nonce_def)
  then have "nonce_inv cap (st, ts)"
    using assms(2-4) by (auto simp: nonce_inv_def list_all_iff)
  then have "nonce_inv cap (st', ts')" by (rule nonce_inv_reachable [OF assms(1)])
  then show ?thesis by (rule nonce_inv_distinct)
qed

abbreviation reboot_thread :: "nat pc \<Rightarrow> (nat, nat) thread" where
  "reboot_thread p \<equiv> \<lparr>th_env = test_env True, th_req = reboot_request, th_pc = p\<rparr>"

lemma reboot_thread_check:
  "\<exists>st'. agent_step (test_state, [reboot_thread PcNonce, reboot_thread PcNonce])
     (st', [reboot_thread PcGet, reboot_thread PcNonce])"
proof -
  let ?st = "test_state\<lparr>as_replay := replay_default\<lparr>nonce_order := [''n1''], nonces := {''n1''}\<rparr>\<rparr>"
  have "thread_step (reboot_thread PcNonce) test_state = (reboot_thread PcGet, ?st)"
    by (simp add: thread_step_def nonce_step_def nonce_fresh_def reboot_request_def test_state_def
        replay_default_def policy_defaults default_nonce_cache_def)
  then show ?thesis
    using agent_step.step [of 0 "[reboot_thread PcNonce, reboot_thread PcNonce]"] by auto
qed

theorem nonce_single_use_witness:
  "\<exists>st'. distinct (passed_nonces [reboot_thread PcGet, reboot_thread PcNonce]) \<and>
     agent_step (test_state, [reboot_thread PcNonce, reboot_thread PcNonce])
       (st', [reboot_thread PcGet, reboot_thread PcNonce])"
proof -
  obtain st' where s: "agent_step (test_state, [reboot_thread PcNonce, reboot_thread PcNonce])
      (st', [reboot_thread PcGet, reboot_thread PcNonce])"
    using reboot_thread_check by blast
  have "distinct (passed_nonces [reboot_thread PcGet, reboot_thread PcNonce])"
    by (rule nonce_single_use [OF r_into_rtranclp [of agent_step, OF s], of default_nonce_cache])
      (simp_all add: policy_defaults default_nonce_cache_def test_state_def replay_default_def window_ok_def)
  with s show ?thesis by blast
qed

text \<open>
  Claim C39.  The idempotency cache does not have that guarantee.  Two requests with the same key
  (and no nonce) that arrive on two channels while nothing is stored under the key can both pass the
  lookup before either stores its response, and both are executed.
\<close>

theorem idempotency_race:
  assumes "rq_nonce (th_req t) = None" "rq_nonce (th_req u) = None"
    and "rq_idempotency_key (th_req t) = Some key" "rq_idempotency_key (th_req u) = Some key"
    and "idempotent (as_replay st) key = None"
  shows "\<exists>st' r1 r2. agent_step\<^sup>*\<^sup>* (st, [t\<lparr>th_pc := PcNonce\<rparr>, u\<lparr>th_pc := PcNonce\<rparr>])
      (st', [t\<lparr>th_pc := PcStore r1\<rparr>, u\<lparr>th_pc := PcStore r2\<rparr>]) \<and>
    as_exec st' = snd (dispatch (th_env u) (th_req u) (snd (dispatch (th_env t) (th_req t) (as_exec st))))"
proof -
  obtain s1 where t: "thread_step (t\<lparr>th_pc := PcNonce\<rparr>) st = (t\<lparr>th_pc := PcGet\<rparr>, st)"
    "thread_step (t\<lparr>th_pc := PcGet\<rparr>) st = (t\<lparr>th_pc := PcRun\<rparr>, s1)"
    "idempotent (as_replay s1) key = None" "as_exec s1 = as_exec st"
    using check_and_get [OF assms(1,3,5)] by blast
  obtain s2 where u: "thread_step (u\<lparr>th_pc := PcNonce\<rparr>) s1 = (u\<lparr>th_pc := PcGet\<rparr>, s1)"
    "thread_step (u\<lparr>th_pc := PcGet\<rparr>) s1 = (u\<lparr>th_pc := PcRun\<rparr>, s2)" "as_exec s2 = as_exec s1"
    using check_and_get [OF assms(2,4) t(3)] by metis
  obtain r1 s3 where rt: "run_dispatch (th_env t) (th_req t) s2 = (r1, s3)" by fastforce
  obtain r2 s4 where ru: "run_dispatch (th_env u) (th_req u) s3 = (r2, s4)" by fastforce
  have "agent_step\<^sup>*\<^sup>* (st, [t\<lparr>th_pc := PcNonce\<rparr>, u\<lparr>th_pc := PcNonce\<rparr>])
      (st, [t\<lparr>th_pc := PcGet\<rparr>, u\<lparr>th_pc := PcNonce\<rparr>])"
    by (rule r_into_rtranclp, rule step_first [OF t(1)]) simp
  also have "agent_step \<dots> (s1, [t\<lparr>th_pc := PcRun\<rparr>, u\<lparr>th_pc := PcNonce\<rparr>])"
    by (rule step_first [OF t(2)]) simp
  also have "agent_step \<dots> (s1, [t\<lparr>th_pc := PcRun\<rparr>, u\<lparr>th_pc := PcGet\<rparr>])"
    by (rule step_second [OF u(1)]) simp
  also have "agent_step \<dots> (s2, [t\<lparr>th_pc := PcRun\<rparr>, u\<lparr>th_pc := PcRun\<rparr>])"
    by (rule step_second [OF u(2)]) simp
  also have "agent_step \<dots> (s3, [t\<lparr>th_pc := PcStore r1\<rparr>, u\<lparr>th_pc := PcRun\<rparr>])"
    by (rule step_first) (simp_all add: thread_step_def rt)
  also have "agent_step \<dots> (s4, [t\<lparr>th_pc := PcStore r1\<rparr>, u\<lparr>th_pc := PcStore r2\<rparr>])"
    by (rule step_second) (simp_all add: thread_step_def ru)
  finally have "agent_step\<^sup>*\<^sup>* (st, [t\<lparr>th_pc := PcNonce\<rparr>, u\<lparr>th_pc := PcNonce\<rparr>])
    (s4, [t\<lparr>th_pc := PcStore r1\<rparr>, u\<lparr>th_pc := PcStore r2\<rparr>])" .
  moreover have "as_exec s4 =
      snd (dispatch (th_env u) (th_req u) (snd (dispatch (th_env t) (th_req t) (as_exec st))))"
    using run_dispatch_guest [of "th_env t" "th_req t" s2] run_dispatch_guest [of "th_env u" "th_req u" s3]
      rt ru t(4) u(3) by simp
  ultimately show ?thesis by blast
qed

theorem idempotency_race_witness:
  "let t = \<lparr>th_env = test_env True, th_req = reboot_request\<lparr>rq_nonce := None\<rparr>, th_pc = PcNonce\<rparr>
   in \<exists>st' r1 r2. agent_step\<^sup>*\<^sup>* (test_state, [t\<lparr>th_pc := PcNonce\<rparr>, t\<lparr>th_pc := PcNonce\<rparr>])
      (st', [t\<lparr>th_pc := PcStore r1\<rparr>, t\<lparr>th_pc := PcStore r2\<rparr>]) \<and>
    as_exec st' = snd (dispatch (th_env t) (th_req t) (snd (dispatch (th_env t) (th_req t) (as_exec test_state))))"
  unfolding Let_def
  by (rule idempotency_race [of _ _ "''k1''"])
    (simp_all add: reboot_request_def test_state_def replay_default_def)

end
