(* ===== verification/Kahn.thy ===== *)
theory Kahn
  imports GK_Prelude "HOL-Library.Multiset"
begin

text \<open>
  Topological sorting by in-degrees (Kahn's algorithm), shared by the ordering of fix-plan operations
  and the planning of migration waves.  \<open>relax\<close> is the inner loop both have: decrement the in-degree of
  each neighbour and collect those that reach zero, with the wrap-around of \<open>usize\<close> written out.  The
  locale \<open>kahn\<close> is a finite graph given as a list of edges from a dependency to its dependent, with
  the invariant of the outer loop and what it yields at the end.
\<close>

fun relax :: "'n list \<Rightarrow> ('n \<rightharpoonup> nat) \<Rightarrow> 'n list \<times> ('n \<rightharpoonup> nat)" where
  "relax [] deg = ([], deg)"
| "relax (v # vs) deg =
     (case deg v of
        None \<Rightarrow> relax vs deg
      | Some d \<Rightarrow>
          (let d' = (if d = 0 then 2 ^ 64 - 1 else d - 1);
               (push, deg') = relax vs (deg(v \<mapsto> d'))
           in (if d' = 0 then v # push else push, deg')))"

text \<open>As long as no in-degree is overrun, \<open>relax\<close> subtracts the number of occurrences and collects the
  nodes that reach zero, each once.\<close>

lemma relax_spec:
  "\<forall>v d. deg v = Some d \<longrightarrow> count_list vs v \<le> d \<Longrightarrow>
     snd (relax vs deg) = (\<lambda>v. map_option (\<lambda>d. d - count_list vs v) (deg v)) \<and>
     distinct (fst (relax vs deg)) \<and>
     set (fst (relax vs deg)) = {v. \<exists>d. deg v = Some d \<and> 0 < d \<and> d = count_list vs v}"
proof (induction vs arbitrary: deg)
  case Nil
  show ?case by (auto simp: option.map_ident)
next
  case (Cons w vs)
  show ?case
  proof (cases "deg w")
    case None
    then have "\<forall>v d. deg v = Some d \<longrightarrow> count_list vs v \<le> d"
      using Cons.prems by (metis count_list.simps(2) option.distinct(1))
    moreover have "deg v = Some d \<Longrightarrow> count_list (w # vs) v = count_list vs v" for v d
      using None by auto
    ultimately show ?thesis
      using Cons.IH [of deg] None
      by (auto simp: fun_eq_iff)
  next
    case (Some d)
    then have pos: "0 < d" "count_list vs w \<le> d - 1" using Cons.prems [rule_format, of w d] by auto
    let ?deg = "deg(w \<mapsto> d - 1)"
    have "\<forall>v e. ?deg v = Some e \<longrightarrow> count_list vs v \<le> e"
      using Cons.prems pos by (auto split: if_splits)
    note pre = this
    obtain push deg' where r: "relax vs ?deg = (push, deg')" by fastforce
    note IH = Cons.IH [OF pre, unfolded r fst_conv snd_conv]
    have eq: "relax (w # vs) deg = (if d - 1 = 0 then w # push else push, deg')"
      using Some pos r by simp
    have "deg' = (\<lambda>v. map_option (\<lambda>d. d - count_list (w # vs) v) (deg v))"
      using IH Some by (auto simp: fun_eq_iff)
    moreover have "distinct (if d - 1 = 0 then w # push else push)"
      using IH by auto
    moreover have "set (if d - 1 = 0 then w # push else push) =
        {v. \<exists>d. deg v = Some d \<and> 0 < d \<and> d = count_list (w # vs) v}"
    proof -
      have push: "set push = {v. \<exists>e. ?deg v = Some e \<and> 0 < e \<and> e = count_list vs v}"
        using IH by blast
      have "v \<in> set (if d - 1 = 0 then w # push else push) \<longleftrightarrow>
          (\<exists>d. deg v = Some d \<and> 0 < d \<and> d = count_list (w # vs) v)" for v
        using pos Some by (cases "v = w") (auto simp: push)
      then show ?thesis by blast
    qed
    ultimately show ?thesis unfolding eq fst_conv snd_conv by blast
  qed
qed

subsection \<open>Graphs\<close>

text \<open>The entry of an adjacency table, empty if there is none.\<close>

definition neighbours :: "('n \<rightharpoonup> 'n list) \<Rightarrow> 'n \<Rightarrow> 'n list" where
  "neighbours adj v = (case adj v of None \<Rightarrow> [] | Some l \<Rightarrow> l)"

lemma neighbours_update:
  "neighbours (adj(d \<mapsto> l)) u = (if u = d then l else neighbours adj u)"
  by (simp add: neighbours_def)

definition successors :: "('n \<times> 'n) list \<Rightarrow> 'n \<Rightarrow> 'n list" where
  "successors E u = map snd (filter (\<lambda>e. fst e = u) E)"

text \<open>The number of edges into a node whose source is not yet done.\<close>

definition pending :: "('n \<times> 'n) list \<Rightarrow> 'n set \<Rightarrow> 'n \<Rightarrow> nat" where
  "pending E P v = length (filter (\<lambda>(u, w). w = v \<and> u \<notin> P) E)"

lemma successors_append: "successors (E @ F) u = successors E u @ successors F u"
  by (simp add: successors_def)

lemma pending_append: "pending (E @ F) P v = pending E P v + pending F P v"
  by (simp add: pending_def)

text \<open>A node can be scheduled if all its dependencies can.\<close>

inductive schedulable :: "'n set \<Rightarrow> ('n \<times> 'n) list \<Rightarrow> 'n \<Rightarrow> bool" for N E where
  "v \<in> N \<Longrightarrow> (\<And>u. (u, v) \<in> set E \<Longrightarrow> schedulable N E u) \<Longrightarrow> schedulable N E v"

inductive_cases schedulableE: "schedulable N E v"

text \<open>Every node of the list comes after all its dependencies.\<close>

definition ordered :: "('n \<times> 'n) list \<Rightarrow> 'n list \<Rightarrow> bool" where
  "ordered E P \<longleftrightarrow> (\<forall>xs v ys. P = xs @ v # ys \<longrightarrow> (\<forall>u. (u, v) \<in> set E \<longrightarrow> u \<in> set xs))"

lemma pending_insert:
  "u \<notin> P \<Longrightarrow> pending E P v = pending E (insert u P) v + count_list (successors E u) v"
  by (induction E) (auto simp: pending_def successors_def)

lemma pending_union:
  "distinct F \<Longrightarrow> set F \<inter> P = {} \<Longrightarrow>
     pending E P v = pending E (P \<union> set F) v + count_list (concat (map (successors E) F)) v"
proof (induction F arbitrary: P)
  case (Cons u F)
  then have "pending E (insert u P) v =
      pending E (insert u P \<union> set F) v + count_list (concat (map (successors E) F)) v"
    by (intro Cons.IH) auto
  then show ?case using Cons.prems pending_insert [of u P E v] by simp
qed simp

lemma pending_zero: "pending E P v = 0 \<longleftrightarrow> (\<forall>u. (u, v) \<in> set E \<longrightarrow> u \<in> P)"
  by (auto simp: pending_def filter_empty_conv)

lemma orderedI_snoc:
  assumes "ordered E P" "\<And>v u. v \<in> set F \<Longrightarrow> (u, v) \<in> set E \<Longrightarrow> u \<in> set P"
  shows "ordered E (P @ F)"
  unfolding ordered_def
proof (intro allI impI)
  fix xs v ys u
  assume split: "P @ F = xs @ v # ys" and e: "(u, v) \<in> set E"
  from split obtain us where "P = xs @ us \<and> us @ F = v # ys \<or> P @ us = xs \<and> F = us @ v # ys"
    by (auto simp: append_eq_append_conv2)
  then show "u \<in> set xs"
  proof
    assume us: "P = xs @ us \<and> us @ F = v # ys"
    show ?thesis
    proof (cases us)
      case Nil
      then show ?thesis using us assms(2) [of v u] e by simp
    next
      case (Cons v' us')
      then have "P = xs @ v # us'" using us by simp
      then show ?thesis using assms(1) e unfolding ordered_def by blast
    qed
  next
    assume "P @ us = xs \<and> F = us @ v # ys"
    then show ?thesis using assms(2) [of v u] e by auto
  qed
qed

text \<open>The in-degree map once the nodes of \<open>P\<close> are done.\<close>

definition degrees :: "'n set \<Rightarrow> ('n \<times> 'n) list \<Rightarrow> 'n set \<Rightarrow> ('n \<rightharpoonup> nat)" where
  "degrees N E P = (\<lambda>v. if v \<in> N then Some (pending E P v) else None)"

text \<open>The outer loop's invariant: done and queued nodes are those without pending dependencies.\<close>

definition ready :: "'n set \<Rightarrow> ('n \<times> 'n) list \<Rightarrow> 'n list \<Rightarrow> 'n list \<Rightarrow> bool" where
  "ready N E P Q \<longleftrightarrow>
     distinct (P @ Q) \<and> set P \<union> set Q = {v \<in> N. pending E (set P) v = 0} \<and> ordered E P"

locale kahn =
  fixes N :: "'n set" and E :: "('n \<times> 'n) list"
  assumes finite_nodes: "finite N"
    and targets: "(u, v) \<in> set E \<Longrightarrow> v \<in> N"
begin

lemma ready_subset: "ready N E P Q \<Longrightarrow> set (P @ Q) \<subseteq> N"
  by (auto simp: ready_def)

lemma ready_length: "ready N E P Q \<Longrightarrow> length (P @ Q) \<le> card N"
  using finite_nodes ready_subset [of P Q] card_mono [of N "set (P @ Q)"]
  by (simp add: ready_def distinct_card del: set_append)

lemma ready_start:
  assumes "distinct Q" "set Q = {v \<in> N. pending E {} v = 0}"
  shows "ready N E [] Q"
  using assms by (simp add: ready_def ordered_def)

text \<open>Doing the nodes \<open>F\<close> at the front of the queue.\<close>

lemma ready_step:
  assumes "ready N E P (F @ Q)"
    and "relax (concat (map (successors E) F)) (degrees N E (set P)) = (push, deg)"
  shows "deg = degrees N E (set (P @ F))" and "ready N E (P @ F) (Q @ push)"
    and "set push = {v \<in> N. 0 < pending E (set P) v \<and> pending E (set (P @ F)) v = 0}"
proof -
  let ?vs = "concat (map (successors E) F)"
  have F: "distinct F" "set F \<inter> set P = {}" using assms(1) by (auto simp: ready_def)
  note pu = pending_union [OF F, of E]
  have "\<forall>v d. degrees N E (set P) v = Some d \<longrightarrow> count_list ?vs v \<le> d"
  proof (intro allI impI)
    fix v d
    assume "degrees N E (set P) v = Some d"
    then have "d = pending E (set P) v" by (simp add: degrees_def split: if_splits)
    then show "count_list ?vs v \<le> d" using pu [of v] by simp
  qed
  note spec = relax_spec [OF this, unfolded assms(2) fst_conv snd_conv]
  show "deg = degrees N E (set (P @ F))"
  proof
    fix v
    have "deg v = map_option (\<lambda>d. d - count_list ?vs v) (degrees N E (set P) v)" using spec by simp
    then show "deg v = degrees N E (set (P @ F)) v" using pu [of v] by (simp add: degrees_def)
  qed
  have "v \<in> set push \<longleftrightarrow> v \<in> N \<and> 0 < pending E (set P) v \<and> pending E (set (P @ F)) v = 0" for v
  proof -
    have "v \<in> set push \<longleftrightarrow> (\<exists>d. degrees N E (set P) v = Some d \<and> 0 < d \<and> d = count_list ?vs v)"
      using spec by blast
    then show ?thesis using pu [of v] by (cases "v \<in> N") (auto simp: degrees_def)
  qed
  then show push: "set push = {v \<in> N. 0 < pending E (set P) v \<and> pending E (set (P @ F)) v = 0}"
    by blast
  have "ordered E (P @ F)"
  proof (rule orderedI_snoc)
    fix v u assume "v \<in> set F" "(u, v) \<in> set E"
    then show "u \<in> set P" using assms(1) by (auto simp: ready_def pending_zero)
  qed (use assms(1) in \<open>simp add: ready_def\<close>)
  moreover have old: "set P \<union> (set F \<union> set Q) = {v \<in> N. pending E (set P) v = 0}"
    using assms(1) by (simp add: ready_def)
  moreover have "set push \<inter> {v \<in> N. pending E (set P) v = 0} = {}" unfolding push by auto
  then have "distinct ((P @ F) @ Q @ push)"
    using assms(1) spec old by (auto simp: ready_def)
  moreover have "pending E (set P) v = 0 \<Longrightarrow> pending E (set (P @ F)) v = 0" for v
    by (auto simp: pending_zero)
  then have "{v \<in> N. pending E (set (P @ F)) v = 0} = {v \<in> N. pending E (set P) v = 0} \<union> set push"
    unfolding push by auto
  then have "set (P @ F) \<union> set (Q @ push) = {v \<in> N. pending E (set (P @ F)) v = 0}"
    using old by (metis Un_assoc set_append)
  ultimately show "ready N E (P @ F) (Q @ push)" unfolding ready_def by blast
qed

lemma ready_final:
  assumes "ready N E P []"
  shows "set P = {v. schedulable N E v}"
proof
  have "set xs \<subseteq> {v. schedulable N E v}" if "\<exists>ys. P = xs @ ys" for xs
    using that
  proof (induction xs rule: rev_induct)
    case (snoc v xs)
    then obtain ys where P: "P = xs @ v # ys" by auto
    have "schedulable N E u" if "(u, v) \<in> set E" for u
    proof -
      have "ordered E P" using assms by (simp add: ready_def)
      then have "u \<in> set xs" using P that unfolding ordered_def by blast
      then show ?thesis using snoc.IH P by blast
    qed
    moreover have "v \<in> N" using ready_subset [OF assms] P by auto
    ultimately show ?case using snoc.IH P by (auto intro: schedulable.intros)
  qed simp
  then show "set P \<subseteq> {v. schedulable N E v}" by blast
  have "schedulable N E v \<Longrightarrow> v \<in> set P" for v
  proof (induction rule: schedulable.induct)
    case (1 v)
    then have "pending E (set P) v = 0" by (simp add: pending_zero)
    with 1(1) show ?case using assms by (auto simp: ready_def)
  qed
  then show "{v. schedulable N E v} \<subseteq> set P" by blast
qed

end

end
