(* ===== verification/Waves.thy ===== *)
theory Waves
  imports Kahn Complex_Main "HOL-Library.List_Lexorder" "HOL-Library.Char_ord" "HOL-Library.Product_Lexorder"
begin

text \<open>
  Migration wave planning, \<^verbatim>\<open>src/fleet/wave.rs\<close>: the roles and storage dependencies read from the
  evidence of each image, the waves as topological levels, and the grouping of the images that could
  not be placed.  \<open>fleet_evidence\<close> has the fields of an evidence snapshot the planner reads.  Boot scores
  are rationals (the code's \<open>f64\<close> without NaN), hash-map iteration order is the parameter \<open>ho\<close>, and
  lower-casing is that of ASCII, which decides the same unit names because no character outside ASCII
  lower-cases to a run of letters of the hints.
\<close>

subsection \<open>Roles and dependencies\<close>

definition DB_UNIT_HINTS :: "string list" where
  "DB_UNIT_HINTS = [''postgresql'', ''mysql'', ''mariadb'', ''mongod'', ''redis'', ''cassandra'']"

datatype vm_role = Database | Standard

record wave_member =
  wm_image :: string
  wm_hostname :: string
  wm_role :: vm_role
  wm_depends_on :: "string list"

record migration_wave =
  mw_wave :: nat
  mw_images :: "string list"

record wave_plan =
  wp_members :: "wave_member list"
  wp_waves :: "migration_wave list"
  wp_cycles :: "string list list"

record fstab_entry =
  fe_device :: string
  fe_fstype :: string

record fleet_evidence =
  ev_hostname :: string
  ev_unit_names :: "string list option"
  ev_fstab :: "fstab_entry list"

definition to_lowercase :: "string \<Rightarrow> string" where
  "to_lowercase s = map ascii_lower s"

definition detect_role :: "fleet_evidence \<Rightarrow> vm_role" where
  "detect_role ev =
     (case ev_unit_names ev of
        None \<Rightarrow> Standard
      | Some names \<Rightarrow>
          if list_ex (\<lambda>n. list_ex (contains (to_lowercase n)) DB_UNIT_HINTS) names
          then Database else Standard)"

text \<open>\<open>str::split_once\<close>, of which only the part before the separator is used.\<close>

definition before_colon :: "string \<Rightarrow> string option" where
  "before_colon s = (if CHR '':'' \<in> set s then Some (takeWhile (\<lambda>c. c \<noteq> CHR '':'') s) else None)"

fun storage_deps :: "string \<Rightarrow> (string \<rightharpoonup> string) \<Rightarrow> fstab_entry list \<Rightarrow> string list \<Rightarrow> string list" where
  "storage_deps img h2i [] deps = deps"
| "storage_deps img h2i (e # es) deps =
     storage_deps img h2i es
       (if to_lowercase (fe_fstype e) \<notin> {''nfs'', ''nfs4''} then deps
        else (case before_colon (fe_device e) of
                None \<Rightarrow> deps
              | Some server \<Rightarrow>
                  (case h2i server of
                     None \<Rightarrow> deps
                   | Some dep \<Rightarrow> if dep \<noteq> img \<and> dep \<notin> set deps then deps @ [dep] else deps)))"

definition detect_storage_deps :: "string \<Rightarrow> fleet_evidence \<Rightarrow> (string \<rightharpoonup> string) \<Rightarrow> string list" where
  "detect_storage_deps img ev h2i = storage_deps img h2i (ev_fstab ev) []"

subsection \<open>Waves\<close>

fun push_edges :: "'n \<Rightarrow> 'n list \<Rightarrow> ('n \<rightharpoonup> 'n list) \<Rightarrow> ('n \<rightharpoonup> 'n list)" where
  "push_edges i [] adj = adj"
| "push_edges i (d # ds) adj = push_edges i ds (adj(d \<mapsto> neighbours adj d @ [i]))"

fun dependents_table :: "wave_member list \<Rightarrow> (string \<rightharpoonup> string list) \<Rightarrow> (string \<rightharpoonup> string list)" where
  "dependents_table [] adj = adj"
| "dependents_table (m # ms) adj = dependents_table ms (push_edges (wm_image m) (wm_depends_on m) adj)"

text \<open>Collecting pairs into a map keeps the last value of a key.\<close>

definition collect_map :: "('k \<times> 'v) list \<Rightarrow> ('k \<rightharpoonup> 'v)" where
  "collect_map kvs = map_of (rev kvs)"

text \<open>The comparison of the stable sort as a key: databases first, then by descending score.\<close>

definition wave_key :: "(string \<rightharpoonup> wave_member) \<Rightarrow> (string \<rightharpoonup> rat) \<Rightarrow> string \<Rightarrow> bool \<times> rat" where
  "wave_key by_image scores img = (wm_role (the (by_image img)) \<noteq> Database, - the (scores img))"

partial_function (option) wave_loop ::
    "(string \<rightharpoonup> string list) \<Rightarrow> (string \<Rightarrow> bool \<times> rat) \<Rightarrow> (string \<rightharpoonup> nat) \<Rightarrow> string list \<Rightarrow> nat \<Rightarrow>
       migration_wave list \<Rightarrow> migration_wave list option" where
  "wave_loop dependents key deg frontier n waves =
     (if frontier = [] then Some waves
      else
        (let f = sort_key key frontier;
             (push, deg') = relax (concat (map (neighbours dependents) f)) deg
         in wave_loop dependents key deg' push (n + 1) (waves @ [\<lparr>mw_wave = n, mw_images = f\<rparr>])))"

definition topo_waves ::
    "(string list \<Rightarrow> string list) \<Rightarrow> wave_member list \<Rightarrow> (string \<rightharpoonup> rat) \<Rightarrow> migration_wave list option" where
  "topo_waves ho ms scores =
     (let deg = collect_map (map (\<lambda>m. (wm_image m, length (wm_depends_on m))) ms);
          dependents = dependents_table ms Map.empty;
          frontier = filter (\<lambda>v. deg v = Some 0) (ho (remdups (map wm_image ms)));
          by_image = collect_map (map (\<lambda>m. (wm_image m, m)) ms)
      in wave_loop dependents (wave_key by_image scores) deg frontier 0 [])"

subsection \<open>What could not be placed\<close>

fun link_both :: "'n set \<Rightarrow> 'n \<Rightarrow> 'n list \<Rightarrow> ('n \<rightharpoonup> 'n list) \<Rightarrow> ('n \<rightharpoonup> 'n list)" where
  "link_both placed i [] adj = adj"
| "link_both placed i (d # ds) adj =
     (if d \<in> placed then link_both placed i ds adj
      else
        (let adj1 = adj(i \<mapsto> neighbours adj i @ [d])
         in link_both placed i ds (adj1(d \<mapsto> neighbours adj1 d @ [i]))))"

fun adjacency :: "string set \<Rightarrow> wave_member list \<Rightarrow> (string \<rightharpoonup> string list) \<Rightarrow> (string \<rightharpoonup> string list)" where
  "adjacency placed [] adj = adj"
| "adjacency placed (m # ms) adj =
     adjacency placed ms (link_both placed (wm_image m) (wm_depends_on m) adj)"

partial_function (option) component_loop ::
    "('n \<rightharpoonup> 'n list) \<Rightarrow> 'n list \<Rightarrow> 'n set \<Rightarrow> 'n list \<Rightarrow> ('n list \<times> 'n set) option" where
  "component_loop adj queue visited component =
     (case queue of
        [] \<Rightarrow> Some (component, visited)
      | node # rest \<Rightarrow>
          if node \<in> visited then component_loop adj rest visited component
          else component_loop adj
                 (rest @ filter (\<lambda>n. n \<notin> insert node visited) (neighbours adj node))
                 (insert node visited) (component @ [node]))"

fun components_of ::
    "(string \<rightharpoonup> string list) \<Rightarrow> string list \<Rightarrow> string set \<Rightarrow> string list list option" where
  "components_of adj [] visited = Some []"
| "components_of adj (v # vs) visited =
     (if v \<in> visited then components_of adj vs visited
      else Option.bind (component_loop adj [v] visited [])
             (\<lambda>(c, visited'). map_option ((#) (sort c)) (components_of adj vs visited')))"

definition find_cycles :: "wave_member list \<Rightarrow> string set \<Rightarrow> string list list option" where
  "find_cycles ms placed =
     (let stuck = filter (\<lambda>m. wm_image m \<notin> placed) ms in
      if stuck = [] then Some []
      else map_option sort (components_of (adjacency placed stuck Map.empty) (map wm_image stuck) {}))"

definition hostname_map :: "(string \<times> fleet_evidence \<times> rat) list \<Rightarrow> (string \<rightharpoonup> string)" where
  "hostname_map snaps =
     collect_map (map (\<lambda>(img, ev, _). (ev_hostname ev, img))
       (filter (\<lambda>(_, ev, _). ev_hostname ev \<noteq> []) snaps))"

definition wave_members :: "(string \<times> fleet_evidence \<times> rat) list \<Rightarrow> wave_member list" where
  "wave_members snaps =
     map (\<lambda>(img, ev, _).
        \<lparr>wm_image = img, wm_hostname = ev_hostname ev, wm_role = detect_role ev,
         wm_depends_on = detect_storage_deps img ev (hostname_map snaps)\<rparr>) snaps"

definition plan_waves ::
    "(string list \<Rightarrow> string list) \<Rightarrow> (string \<times> fleet_evidence \<times> rat) list \<Rightarrow> wave_plan option" where
  "plan_waves ho snaps =
     (let members = wave_members snaps;
          scores = collect_map (map (\<lambda>(img, _, score). (img, score)) snaps)
      in Option.bind (topo_waves ho members scores)
           (\<lambda>waves.
              (let placed = set (concat (map mw_images waves)) in
               map_option (\<lambda>cycles. \<lparr>wp_members = members, wp_waves = waves, wp_cycles = cycles\<rparr>)
                 (find_cycles members placed))))"

subsection \<open>The dependency graph\<close>

definition wave_edges :: "wave_member list \<Rightarrow> (string \<times> string) list" where
  "wave_edges ms = concat (map (\<lambda>m. map (\<lambda>d. (d, wm_image m)) (wm_depends_on m)) ms)"

abbreviation images :: "wave_member list \<Rightarrow> string set" where
  "images ms \<equiv> wm_image ` set ms"

interpretation wave_graph: kahn "images ms" "wave_edges ms" for ms
  by unfold_locales (auto simp: wave_edges_def)

lemma push_edges_spec:
  "neighbours (push_edges i ds adj) u = neighbours adj u @ successors (map (\<lambda>d. (d, i)) ds) u"
  by (induction ds arbitrary: adj) (simp_all add: successors_def neighbours_update)

lemma dependents_table_spec:
  "neighbours (dependents_table ms adj) u = neighbours adj u @ successors (wave_edges ms) u"
proof (induction ms arbitrary: adj)
  case (Cons m ms)
  have "wave_edges (m # ms) = map (\<lambda>d. (d, wm_image m)) (wm_depends_on m) @ wave_edges ms"
    by (simp add: wave_edges_def)
  then show ?case using Cons.IH by (simp add: push_edges_spec successors_append)
qed (simp add: wave_edges_def successors_def)

lemma pending_wave_edges:
  "distinct (map wm_image ms) \<Longrightarrow> m \<in> set ms \<Longrightarrow>
     pending (wave_edges ms) {} (wm_image m) = length (wm_depends_on m)"
proof (induction ms)
  case (Cons x ms)
  have E: "wave_edges (x # ms) = map (\<lambda>d. (d, wm_image x)) (wm_depends_on x) @ wave_edges ms"
    by (simp add: wave_edges_def)
  have p: "pending (map (\<lambda>d. (d, wm_image x)) (wm_depends_on x)) {} v =
      (if v = wm_image x then length (wm_depends_on x) else 0)" for v
    by (auto simp: pending_def filter_map o_def)
  show ?case
  proof (cases "wm_image m = wm_image x")
    case True
    then have "m = x" using Cons.prems by (auto simp: image_iff)
    moreover have "pending (wave_edges ms) {} (wm_image x) = 0"
      using Cons.prems by (auto simp: pending_zero wave_edges_def)
    ultimately show ?thesis by (simp add: E pending_append p)
  next
    case False
    then show ?thesis using Cons by (auto simp: E pending_append p)
  qed
qed simp

lemma in_degrees:
  assumes "distinct (map wm_image ms)"
  shows "collect_map (map (\<lambda>m. (wm_image m, length (wm_depends_on m))) ms) =
    degrees (images ms) (wave_edges ms) {}"
proof
  fix v
  let ?kvs = "map (\<lambda>m. (wm_image m, length (wm_depends_on m))) ms"
  have d: "distinct (map fst (rev ?kvs))" using assms by (simp add: o_def rev_map [symmetric])
  show "collect_map ?kvs v = degrees (images ms) (wave_edges ms) {} v"
  proof (cases "v \<in> images ms")
    case True
    then obtain m where m: "m \<in> set ms" "v = wm_image m" by auto
    then have "(v, length (wm_depends_on m)) \<in> set (rev ?kvs)" by auto
    then have "collect_map ?kvs v = Some (length (wm_depends_on m))"
      using d by (simp add: collect_map_def)
    then show ?thesis using True m pending_wave_edges [OF assms m(1)] by (simp add: degrees_def)
  next
    case False
    then have "v \<notin> fst ` set (rev ?kvs)" by auto
    then have "collect_map ?kvs v = None" by (simp add: collect_map_def map_of_eq_None_iff)
    then show ?thesis using False by (simp add: degrees_def)
  qed
qed

subsection \<open>The wave loop\<close>

definition placed :: "migration_wave list \<Rightarrow> string list" where
  "placed W = concat (map mw_images W)"

text \<open>Waves are numbered from 0 and not empty; the dependencies of an image are in earlier waves, and
  unless it is in the first wave one of them is in the wave just before.\<close>

definition in_level :: "(string \<times> string) list \<Rightarrow> migration_wave list \<Rightarrow> string \<Rightarrow> bool" where
  "in_level E W v \<longleftrightarrow>
     (\<forall>u. (u, v) \<in> set E \<longrightarrow> u \<in> set (placed W)) \<and>
     (W \<noteq> [] \<longrightarrow> (\<exists>u. (u, v) \<in> set E \<and> u \<in> set (mw_images (last W))))"

definition levels :: "(string \<times> string) list \<Rightarrow> migration_wave list \<Rightarrow> bool" where
  "levels E W \<longleftrightarrow>
     (\<forall>W1 w W2. W = W1 @ w # W2 \<longrightarrow>
        mw_wave w = length W1 \<and> mw_images w \<noteq> [] \<and> (\<forall>v \<in> set (mw_images w). in_level E W1 v))"

lemma levels_snoc:
  assumes "levels E W" "mw_wave w = length W" "mw_images w \<noteq> []" "\<forall>v \<in> set (mw_images w). in_level E W v"
  shows "levels E (W @ [w])"
  unfolding levels_def
proof (intro allI impI)
  fix W1 w' W2
  assume split: "W @ [w] = W1 @ w' # W2"
  show "mw_wave w' = length W1 \<and> mw_images w' \<noteq> [] \<and> (\<forall>v \<in> set (mw_images w'). in_level E W1 v)"
  proof (cases W2 rule: rev_cases)
    case Nil
    then show ?thesis using split assms by simp
  next
    case (snoc W3 w3)
    then have "W = W1 @ w' # W3" using split by simp
    then show ?thesis using assms(1) unfolding levels_def by blast
  qed
qed

lemma ready_reorder:
  assumes "ready N E P F" "mset F' = mset F"
  shows "ready N E P F'"
proof -
  have "set F' = set F" "distinct F' = distinct F"
    using assms(2) by (metis mset_eq_setD, metis mset_eq_imp_distinct_iff)
  then show ?thesis using assms(1) unfolding ready_def by auto
qed

lemma wave_loop_ends:
  assumes "\<And>u. neighbours dep u = successors (wave_edges ms) u"
  shows "ready (images ms) (wave_edges ms) (placed W) F \<Longrightarrow> levels (wave_edges ms) W \<Longrightarrow>
    \<forall>v \<in> set F. in_level (wave_edges ms) W v \<Longrightarrow> \<forall>w \<in> set W. sorted (map key (mw_images w)) \<Longrightarrow>
    \<exists>W'. wave_loop dep key (degrees (images ms) (wave_edges ms) (set (placed W))) F (length W) W = Some W' \<and>
      ready (images ms) (wave_edges ms) (placed W') [] \<and> levels (wave_edges ms) W' \<and>
      (\<forall>w \<in> set W'. sorted (map key (mw_images w)))"
proof (induction "card (images ms) - length (placed W)" arbitrary: W F rule: less_induct)
  case less
  let ?N = "images ms" and ?E = "wave_edges ms"
  show ?case
  proof (cases "F = []")
    case True
    then show ?thesis using less.prems by (intro exI [of _ W]) (simp add: wave_loop.simps)
  next
    case False
    let ?f = "sort_key key F"
    let ?w = "\<lparr>mw_wave = length W, mw_images = ?f\<rparr>"
    obtain push deg where r: "relax (concat (map (successors ?E) ?f)) (degrees ?N ?E (set (placed W))) = (push, deg)"
      by fastforce
    have f: "ready ?N ?E (placed W) (?f @ [])"
      using ready_reorder [OF less.prems(1), of ?f] by simp
    note step = wave_graph.ready_step [OF f r]
    have pl: "placed (W @ [?w]) = placed W @ ?f" by (simp add: placed_def)
    have ne: "?f \<noteq> []" using False by (metis length_sort length_0_conv)
    have lv: "levels ?E (W @ [?w])"
      by (rule levels_snoc) (use less.prems ne in auto)
    have next_level: "\<forall>v \<in> set push. in_level ?E (W @ [?w]) v"
    proof
      fix v assume "v \<in> set push"
      then have "0 < pending ?E (set (placed W)) v" "pending ?E (set (placed W @ ?f)) v = 0"
        using step(3) by auto
      then have "\<exists>u. (u, v) \<in> set ?E \<and> u \<notin> set (placed W)" "\<forall>u. (u, v) \<in> set ?E \<longrightarrow> u \<in> set (placed W @ ?f)"
        using pending_zero [of ?E "set (placed W)" v] pending_zero [of ?E "set (placed W @ ?f)" v] by auto
      then show "in_level ?E (W @ [?w]) v" unfolding in_level_def pl by auto
    qed
    have srt: "\<forall>w \<in> set (W @ [?w]). sorted (map key (mw_images w))" using less.prems(4) by simp
    have "1 \<le> length F" using False by (cases F) auto
    then have "card ?N - length (placed (W @ [?w])) < card ?N - length (placed W)"
      using wave_graph.ready_length [OF f] pl by simp
    moreover have "ready ?N ?E (placed (W @ [?w])) push" using step(2) pl by simp
    ultimately obtain W' where W':
      "wave_loop dep key (degrees ?N ?E (set (placed (W @ [?w])))) push (length (W @ [?w])) (W @ [?w]) = Some W'"
      "ready ?N ?E (placed W') []" "levels ?E W'" "\<forall>w \<in> set W'. sorted (map key (mw_images w))"
      using less.hyps [of "W @ [?w]" push] lv next_level srt by blast
    have "neighbours dep = successors ?E" using assms by (rule ext)
    then have "wave_loop dep key (degrees ?N ?E (set (placed W))) F (length W) W =
        wave_loop dep key (degrees ?N ?E (set (placed (W @ [?w])))) push (length (W @ [?w])) (W @ [?w])"
      unfolding wave_loop.simps [of dep key _ F]
      using False r step(1) pl by (simp add: Let_def)
    then show ?thesis using W' by auto
  qed
qed

lemma topo_waves_ready:
  assumes "\<And>ys. mset (ho ys) = mset ys" and "distinct (map wm_image ms)"
  shows "\<exists>W. topo_waves ho ms scores = Some W \<and>
    ready (images ms) (wave_edges ms) (placed W) [] \<and> levels (wave_edges ms) W \<and>
    (\<forall>w \<in> set W. sorted (map (wave_key (collect_map (map (\<lambda>m. (wm_image m, m)) ms)) scores) (mw_images w)))"
proof -
  let ?N = "images ms" and ?E = "wave_edges ms"
  let ?F = "filter (\<lambda>v. degrees ?N ?E {} v = Some 0) (ho (remdups (map wm_image ms)))"
  let ?key = "wave_key (collect_map (map (\<lambda>m. (wm_image m, m)) ms)) scores"
  have m: "mset (ho (remdups (map wm_image ms))) = mset (remdups (map wm_image ms))" by (rule assms(1))
  have ho: "distinct (ho (remdups (map wm_image ms)))" "set (ho (remdups (map wm_image ms))) = ?N"
    using mset_eq_imp_distinct_iff [OF m] mset_eq_setD [OF m] by simp_all
  have F: "set ?F = {v \<in> ?N. pending ?E {} v = 0}"
    using ho(2) by (auto simp: degrees_def split: if_splits)
  have "ready ?N ?E (placed []) ?F"
    using wave_graph.ready_start [of ?F ms] ho(1) F by (simp add: placed_def)
  moreover have "levels ?E []" by (simp add: levels_def)
  moreover have "\<forall>v \<in> set ?F. in_level ?E [] v"
    using F by (auto simp: in_level_def pending_zero placed_def)
  moreover have "neighbours (dependents_table ms Map.empty) u = successors ?E u" for u
    by (simp add: dependents_table_spec) (simp add: neighbours_def)
  ultimately obtain W where "wave_loop (dependents_table ms Map.empty) ?key
      (degrees ?N ?E (set (placed []))) ?F (length ([] :: migration_wave list)) [] = Some W"
      "ready ?N ?E (placed W) []" "levels ?E W" "\<forall>w \<in> set W. sorted (map ?key (mw_images w))"
    using wave_loop_ends [of "dependents_table ms Map.empty" ms "[]" ?F ?key] by auto
  then show ?thesis
    unfolding topo_waves_def Let_def in_degrees [OF assms(2)] by (simp add: placed_def)
qed

subsection \<open>Components\<close>

definition joined :: "('n \<rightharpoonup> 'n list) \<Rightarrow> ('n \<times> 'n) set" where
  "joined adj = {(a, b). b \<in> set (neighbours adj a)}"

text \<open>The search ends, and visits exactly what can be reached from the queue without passing through
  visited nodes that lead out of the visited set.\<close>

lemma component_loop_ends:
  assumes "finite U" "joined adj `` U \<subseteq> U"
  shows "set queue \<subseteq> U \<Longrightarrow> visited \<subseteq> U \<Longrightarrow>
    joined adj `` visited \<subseteq> visited \<union> set queue \<Longrightarrow>
    \<exists>new. component_loop adj queue visited acc = Some (acc @ new, visited \<union> set new) \<and>
      distinct new \<and> set new \<inter> visited = {} \<and> set queue \<subseteq> visited \<union> set new \<and>
      set new \<subseteq> (joined adj)\<^sup>* `` set queue \<and> visited \<union> set new \<subseteq> U \<and>
      joined adj `` (visited \<union> set new) \<subseteq> visited \<union> set new"
proof (induction "(card (U - visited), length queue)" arbitrary: queue visited acc rule: less_induct)
  case less
  let ?J = "joined adj"
  show ?case
  proof (cases queue)
    case Nil
    then show ?thesis using less.prems by (intro exI [of _ "[]"]) (simp add: component_loop.simps)
  next
    case (Cons node rest)
    show ?thesis
    proof (cases "node \<in> visited")
      case True
      have "(card (U - visited), length rest) < (card (U - visited), length queue)"
        using Cons by simp
      moreover have "?J `` visited \<subseteq> visited \<union> set rest" using less.prems(3) True Cons by auto
      moreover have "set rest \<subseteq> U" using less.prems(1) Cons by simp
      ultimately obtain new where new:
        "component_loop adj rest visited acc = Some (acc @ new, visited \<union> set new)"
        "distinct new" "set new \<inter> visited = {}" "set rest \<subseteq> visited \<union> set new"
        "set new \<subseteq> ?J\<^sup>* `` set rest" "visited \<union> set new \<subseteq> U"
        "?J `` (visited \<union> set new) \<subseteq> visited \<union> set new"
        using less.hyps [of visited rest acc] less.prems(2) by blast
      have "component_loop adj queue visited acc = component_loop adj rest visited acc"
        using Cons True by (simp add: component_loop.simps [of adj "node # rest"])
      moreover have "set queue \<subseteq> visited \<union> set new" using new(4) True Cons by simp
      moreover have "set new \<subseteq> ?J\<^sup>* `` set queue" using new(5) Cons by auto
      ultimately show ?thesis using new by (intro exI [of _ new]) simp
    next
      case False
      let ?v = "insert node visited"
      let ?q = "rest @ filter (\<lambda>n. n \<notin> ?v) (neighbours adj node)"
      have U: "node \<in> U" using less.prems(1) Cons by simp
      then have "card (U - ?v) < card (U - visited)"
        using False assms(1) by (intro psubset_card_mono) auto
      then have lt: "(card (U - ?v), length ?q) < (card (U - visited), length queue)" by simp
      have q: "set ?q \<subseteq> U"
        using less.prems(1) Cons assms(2) U by (auto simp: joined_def)
      have "?J `` ?v \<subseteq> ?v \<union> set ?q"
        using less.prems(3) Cons by (auto simp: joined_def)
      with less.hyps [OF lt q, of "acc @ [node]"] obtain new where new:
        "component_loop adj ?q ?v (acc @ [node]) = Some ((acc @ [node]) @ new, ?v \<union> set new)"
        "distinct new" "set new \<inter> ?v = {}" "set ?q \<subseteq> ?v \<union> set new"
        "set new \<subseteq> ?J\<^sup>* `` set ?q" "?v \<union> set new \<subseteq> U" "?J `` (?v \<union> set new) \<subseteq> ?v \<union> set new"
        using less.prems(2) U by blast
      have "component_loop adj queue visited acc = component_loop adj ?q ?v (acc @ [node])"
        using Cons False by (simp add: component_loop.simps [of adj "node # rest"])
      then have "component_loop adj queue visited acc =
          Some (acc @ node # new, visited \<union> set (node # new))"
        using new(1) by simp
      moreover have "set ?q \<subseteq> ?J\<^sup>* `` set queue"
        using Cons by (auto simp: joined_def)
      then have "?J\<^sup>* `` set ?q \<subseteq> ?J\<^sup>* `` (?J\<^sup>* `` set queue)" by (rule Image_mono [OF order_refl])
      then have "set new \<subseteq> ?J\<^sup>* `` set queue"
        using new(5) by (simp only: relcomp_Image [symmetric] rtrancl_idemp_self_comp)
      then have "set (node # new) \<subseteq> ?J\<^sup>* `` set queue" using Cons by auto
      moreover have "distinct (node # new)" "set (node # new) \<inter> visited = {}"
        using new(2,3) False by auto
      moreover have "set queue \<subseteq> visited \<union> set (node # new)" using new(4) Cons by auto
      moreover have "visited \<union> set (node # new) \<subseteq> U" "?J `` (visited \<union> set (node # new)) \<subseteq> visited \<union> set (node # new)"
        using new(6,7) by auto
      ultimately show ?thesis by blast
    qed
  qed
qed

text \<open>With symmetric edges and a closed visited set the search from one node visits its
  connected component.\<close>

lemma component_loop_component:
  assumes "finite U" "joined adj `` U \<subseteq> U" "sym (joined adj)"
    and "v \<in> U" "v \<notin> visited" "visited \<subseteq> U" "joined adj `` visited \<subseteq> visited"
  obtains new where "component_loop adj [v] visited [] = Some (new, visited \<union> set new)" "distinct new"
    "set new = (joined adj)\<^sup>* `` {v}" "set new \<inter> visited = {}" "visited \<union> set new \<subseteq> U"
    "joined adj `` (visited \<union> set new) \<subseteq> visited \<union> set new"
proof -
  let ?J = "joined adj"
  have "?J `` visited \<subseteq> visited \<union> set [v]" using assms(7) by blast
  then obtain new where new: "component_loop adj [v] visited [] = Some (new, visited \<union> set new)" "distinct new"
      "set new \<inter> visited = {}" "v \<in> visited \<union> set new" "set new \<subseteq> ?J\<^sup>* `` {v}" "visited \<union> set new \<subseteq> U"
      "?J `` (visited \<union> set new) \<subseteq> visited \<union> set new"
    using component_loop_ends [of U adj "[v]" visited "[]", OF assms(1,2)] assms(4,6) by auto
  have "?J\<^sup>* `` {v} \<subseteq> visited \<union> set new"
    using Image_closed_trancl [OF new(7)] new(4) by blast
  moreover have "x \<notin> visited" if "(v, x) \<in> ?J\<^sup>*" for x
  proof
    assume "x \<in> visited"
    moreover have "(x, v) \<in> ?J\<^sup>*" using that assms(3) by (metis sym_rtrancl symD)
    ultimately show False using Image_closed_trancl [OF assms(7)] assms(5) by blast
  qed
  ultimately have "set new = ?J\<^sup>* `` {v}" using new(5) by blast
  then show ?thesis using that new by blast
qed

lemma components_of_spec:
  assumes "finite U" "joined adj `` U \<subseteq> U" "sym (joined adj)"
  shows "set vs \<subseteq> U \<Longrightarrow> visited \<subseteq> U \<Longrightarrow> joined adj `` visited \<subseteq> visited \<Longrightarrow>
    \<exists>cs. components_of adj vs visited = Some cs \<and> distinct (concat cs) \<and>
      set (concat cs) \<inter> visited = {} \<and> set vs \<subseteq> visited \<union> set (concat cs) \<and> set (concat cs) \<subseteq> U \<and>
      (\<forall>c \<in> set cs. \<exists>v \<in> set vs. set c = (joined adj)\<^sup>* `` {v})"
proof (induction vs arbitrary: visited)
  case (Cons v vs)
  show ?case
  proof (cases "v \<in> visited")
    case True
    then obtain cs where "components_of adj vs visited = Some cs" "distinct (concat cs)"
        "set (concat cs) \<inter> visited = {}" "set vs \<subseteq> visited \<union> set (concat cs)" "set (concat cs) \<subseteq> U"
        "\<forall>c \<in> set cs. \<exists>v \<in> set vs. set c = (joined adj)\<^sup>* `` {v}"
      using Cons.IH [of visited] Cons.prems by auto
    then show ?thesis using True by (intro exI [of _ cs]) auto
  next
    case False
    have vU: "v \<in> U" using Cons.prems(1) by simp
    obtain new where new: "component_loop adj [v] visited [] = Some (new, visited \<union> set new)" "distinct new"
      "set new = (joined adj)\<^sup>* `` {v}" "set new \<inter> visited = {}" "visited \<union> set new \<subseteq> U"
      "joined adj `` (visited \<union> set new) \<subseteq> visited \<union> set new"
      by (rule component_loop_component [OF assms vU False Cons.prems(2,3)])
    obtain cs where cs: "components_of adj vs (visited \<union> set new) = Some cs" "distinct (concat cs)"
        "set (concat cs) \<inter> (visited \<union> set new) = {}" "set vs \<subseteq> (visited \<union> set new) \<union> set (concat cs)"
        "set (concat cs) \<subseteq> U" "\<forall>c \<in> set cs. \<exists>v \<in> set vs. set c = (joined adj)\<^sup>* `` {v}"
      using Cons.IH [of "visited \<union> set new"] Cons.prems(1) new(5,6) by auto
    have "components_of adj (v # vs) visited = Some (sort new # cs)"
      using False new(1) cs(1) by simp
    moreover have "v \<in> set new" using new(3) by auto
    ultimately show ?thesis
      using cs new by (intro exI [of _ "sort new # cs"]) auto
  qed
qed simp

text \<open>The adjacency table of the images left over: both directions of every dependency that is left
  over as well.\<close>

lemma link_both_joined:
  "joined (link_both P i ds adj) = joined adj \<union> {i} \<times> (set ds - P) \<union> (set ds - P) \<times> {i}"
proof (induction ds arbitrary: adj)
  case (Cons d ds)
  have two: "joined ((adj(i \<mapsto> neighbours adj i @ [d]))(d \<mapsto> neighbours (adj(i \<mapsto> neighbours adj i @ [d])) d @ [i])) =
      joined adj \<union> {(i, d), (d, i)}"
    by (auto simp: joined_def neighbours_update split: if_splits)
  show ?case
  proof (cases "d \<in> P")
    case True
    then show ?thesis using Cons.IH by simp
  next
    case False
    then show ?thesis
      unfolding link_both.simps Let_def if_not_P [OF False] Cons.IH two by auto
  qed
qed auto

lemma adjacency_joined:
  "joined (adjacency P ms adj) = joined adj \<union>
     {(a, b). \<exists>m \<in> set ms. (a = wm_image m \<and> b \<in> set (wm_depends_on m) - P) \<or>
        (b = wm_image m \<and> a \<in> set (wm_depends_on m) - P)}"
proof (induction ms arbitrary: adj)
  case (Cons m ms)
  show ?case unfolding adjacency.simps Cons.IH link_both_joined by auto
qed auto

text \<open>Two images are connected if one depends on the other and neither is placed.\<close>

definition connected :: "wave_member list \<Rightarrow> string set \<Rightarrow> (string \<times> string) set" where
  "connected ms P =
     {(a, b). a \<notin> P \<and> b \<notin> P \<and> ((a, b) \<in> set (wave_edges ms) \<or> (b, a) \<in> set (wave_edges ms))}"

lemma stuck_joined:
  "joined (adjacency P (filter (\<lambda>m. wm_image m \<notin> P) ms) Map.empty) = connected ms P"
  unfolding adjacency_joined by (auto simp: connected_def wave_edges_def joined_def neighbours_def)

lemma find_cycles_spec:
  assumes "distinct (map wm_image ms)" and "\<And>m. m \<in> set ms \<Longrightarrow> set (wm_depends_on m) \<subseteq> images ms"
  shows "\<exists>cs. find_cycles ms P = Some cs \<and> distinct (concat cs) \<and> set (concat cs) = images ms - P \<and>
    (\<forall>c \<in> set cs. \<exists>v. set c = (connected ms P)\<^sup>* `` {v})"
proof -
  let ?stuck = "filter (\<lambda>m. wm_image m \<notin> P) ms"
  let ?adj = "adjacency P ?stuck Map.empty"
  let ?U = "images ms - P"
  have U: "set (map wm_image ?stuck) = ?U" by auto
  have closed: "joined ?adj `` ?U \<subseteq> ?U"
    unfolding stuck_joined using assms(2) by (fastforce simp: connected_def wave_edges_def)
  have sym: "sym (joined ?adj)"
    unfolding stuck_joined by (auto simp: connected_def sym_def)
  obtain cs where cs: "components_of ?adj (map wm_image ?stuck) {} = Some cs" "distinct (concat cs)"
      "?U \<subseteq> set (concat cs)" "set (concat cs) \<subseteq> ?U"
      "\<forall>c \<in> set cs. \<exists>v \<in> set (map wm_image ?stuck). set c = (joined ?adj)\<^sup>* `` {v}"
    using components_of_spec [of ?U ?adj "map wm_image ?stuck" "{}", OF _ closed sym] U by auto
  show ?thesis
  proof (cases "?stuck = []")
    case True
    then have "?U = {}" using U by simp
    then show ?thesis using True by (intro exI [of _ "[]"]) (simp add: find_cycles_def)
  next
    case False
    have "mset (concat (sort cs)) = sum_mset (mset (map mset (sort cs)))"
      by (simp only: mset_concat sum_mset_sum_list)
    also have "\<dots> = sum_mset (mset (map mset cs))" by (simp only: mset_map mset_sort)
    also have "\<dots> = mset (concat cs)" by (simp only: mset_concat sum_mset_sum_list)
    finally have "mset (concat (sort cs)) = mset (concat cs)" .
    then have "distinct (concat (sort cs))" "set (concat (sort cs)) = ?U"
      using cs by (metis mset_eq_imp_distinct_iff, metis mset_eq_setD subset_antisym)
    moreover have "find_cycles ms P = Some (sort cs)" using False cs(1) by (simp add: find_cycles_def)
    moreover have "\<forall>c \<in> set (sort cs). \<exists>v. set c = (connected ms P)\<^sup>* `` {v}"
      using cs(5) unfolding stuck_joined by auto
    ultimately show ?thesis by blast
  qed
qed

lemma storage_deps_range:
  "set (storage_deps img h2i es deps) \<subseteq> set deps \<union> ran h2i"
  by (induction es arbitrary: deps) (fastforce simp: ran_def split: option.splits if_splits)+

lemma wave_members_closed:
  assumes "m \<in> set (wave_members snaps)"
  shows "set (wm_depends_on m) \<subseteq> images (wave_members snaps)"
proof -
  have "set (wm_depends_on m) \<subseteq> ran (hostname_map snaps)"
    using assms storage_deps_range [of _ "hostname_map snaps" _ "[]"]
    by (fastforce simp: wave_members_def detect_storage_deps_def)
  also have "\<dots> \<subseteq> fst ` set snaps"
    by (force simp: hostname_map_def collect_map_def ran_def dest!: map_of_SomeD)
  also have "\<dots> = images (wave_members snaps)"
    by (force simp: wave_members_def)
  finally show ?thesis .
qed

subsection \<open>Properties\<close>

text \<open>
  Claim C18.  Planning a fleet of distinctly named images always returns, in whatever order hash maps
  are iterated, and the plan accounts for every image exactly once: in a wave if its dependencies are,
  transitively, free of cycles, and otherwise in one of the reported groups, which are the connected
  components of what is left.  Waves are numbered from 0 and not empty, the dependencies of an image
  are in earlier waves and one of them in the wave just before, and within a wave
  databases come first, then higher scores.
\<close>

theorem plan_waves_exact:
  assumes "\<And>ys. mset (ho ys) = mset ys" and "distinct (map fst snaps)"
  shows "\<exists>p. plan_waves ho snaps = Some p \<and> wp_members p = wave_members snaps \<and>
    mset (placed (wp_waves p) @ concat (wp_cycles p)) = mset (map fst snaps) \<and>
    set (placed (wp_waves p)) = {v. schedulable (images (wp_members p)) (wave_edges (wp_members p)) v} \<and>
    levels (wave_edges (wp_members p)) (wp_waves p) \<and>
    (\<forall>w \<in> set (wp_waves p). sorted (map (wave_key (collect_map (map (\<lambda>m. (wm_image m, m)) (wp_members p)))
       (collect_map (map (\<lambda>(img, _, score). (img, score)) snaps))) (mw_images w))) \<and>
    (\<forall>c \<in> set (wp_cycles p). \<exists>v. set c = (connected (wp_members p) (set (placed (wp_waves p))))\<^sup>* `` {v})"
proof -
  let ?ms = "wave_members snaps"
  let ?scores = "collect_map (map (\<lambda>(img, _, score). (img, score)) snaps)"
  have names: "map wm_image ?ms = map fst snaps" by (auto simp: wave_members_def)
  then have dist: "distinct (map wm_image ?ms)" using assms(2) by simp
  obtain W where W: "topo_waves ho ?ms ?scores = Some W"
      "ready (images ?ms) (wave_edges ?ms) (placed W) []" "levels (wave_edges ?ms) W"
      "\<forall>w \<in> set W. sorted (map (wave_key (collect_map (map (\<lambda>m. (wm_image m, m)) ?ms)) ?scores) (mw_images w))"
    using topo_waves_ready [OF assms(1) dist, of ?scores] by blast
  obtain cs where cs: "find_cycles ?ms (set (placed W)) = Some cs" "distinct (concat cs)"
      "set (concat cs) = images ?ms - set (placed W)"
      "\<forall>c \<in> set cs. \<exists>v. set c = (connected ?ms (set (placed W)))\<^sup>* `` {v}"
    using find_cycles_spec [OF dist wave_members_closed, of "set (placed W)"] by blast
  have "distinct (placed W)" "set (placed W) \<subseteq> images ?ms"
    using W(2) wave_graph.ready_subset [OF W(2)] by (simp_all add: ready_def)
  then have "distinct (placed W @ concat cs)" "set (placed W @ concat cs) = set (map fst snaps)"
    using cs(2,3) names by (auto simp flip: set_map)
  then have "mset (placed W @ concat cs) = mset (map fst snaps)"
    using assms(2) set_eq_iff_mset_eq_distinct by blast
  moreover have "plan_waves ho snaps = Some \<lparr>wp_members = ?ms, wp_waves = W, wp_cycles = cs\<rparr>"
    using W(1) cs(1) by (simp add: plan_waves_def placed_def)
  ultimately show ?thesis
    using W(3,4) cs(4) wave_graph.ready_final [OF W(2)] by auto
qed

text \<open>An application server that mounts from a storage server, and two servers that mount from each
  other.\<close>

definition nfs :: "string \<Rightarrow> fstab_entry" where
  "nfs server = \<lparr>fe_device = server @ '':/export'', fe_fstype = ''nfs4''\<rparr>"

definition sample_fleet :: "(string \<times> fleet_evidence \<times> rat) list" where
  "sample_fleet =
     [(''app.img'', \<lparr>ev_hostname = ''app'', ev_unit_names = None, ev_fstab = [nfs ''store'']\<rparr>, 85),
      (''store.img'', \<lparr>ev_hostname = ''store'', ev_unit_names = Some [''redis.service''], ev_fstab = []\<rparr>, 95),
      (''a.img'', \<lparr>ev_hostname = ''a'', ev_unit_names = None, ev_fstab = [nfs ''b'']\<rparr>, 90),
      (''b.img'', \<lparr>ev_hostname = ''b'', ev_unit_names = None, ev_fstab = [nfs ''a'']\<rparr>, 90)]"

theorem plan_waves_exact_witness:
  "\<exists>p. plan_waves (\<lambda>ys. ys) sample_fleet = Some p \<and>
     mset (placed (wp_waves p) @ concat (wp_cycles p)) = mset [''app.img'', ''store.img'', ''a.img'', ''b.img'']"
proof -
  have "distinct (map fst sample_fleet)" by (simp add: sample_fleet_def)
  from plan_waves_exact [of "\<lambda>ys. ys", OF refl this] obtain p where
    "plan_waves (\<lambda>ys. ys) sample_fleet = Some p"
    "mset (placed (wp_waves p) @ concat (wp_cycles p)) = mset (map fst sample_fleet)" by blast
  then show ?thesis by (intro exI [of _ p]) (simp add: sample_fleet_def)
qed

end
