(* ===== verification/Topo_Sort.thy ===== *)
theory Topo_Sort
  imports Kahn
begin

text \<open>
  The ordering of a fix plan's operations, \<^verbatim>\<open>src/cli/plan/topo_sort.rs\<close>, with the operation's
  identifier and dependencies of \<^verbatim>\<open>types.rs\<close>; the record is extensible for the fields the sort does
  not read.  The order in which a \<open>HashMap\<close> is iterated is the parameter \<open>ho\<close>, a rearrangement of the
  keys.  The queue loop may not end for arbitrary tables, so it is a partial function, and its result
  on the tables the code builds is proved to exist.
\<close>

record operation =
  op_id :: string
  op_depends_on :: "string list"

type_synonym 'a op_tables =
  "(string \<rightharpoonup> nat) \<times> (string \<rightharpoonup> string list) \<times> (string \<rightharpoonup> 'a operation_scheme)"

text \<open>The first loop: an entry per operation.\<close>

fun seed_tables :: "'a operation_scheme list \<Rightarrow> 'a op_tables \<Rightarrow> 'a op_tables" where
  "seed_tables [] t = t"
| "seed_tables (x # xs) (deg, adj, om) =
     seed_tables xs
       (case deg (op_id x) of None \<Rightarrow> deg(op_id x \<mapsto> 0) | Some _ \<Rightarrow> deg,
        case adj (op_id x) of None \<Rightarrow> adj(op_id x \<mapsto> []) | Some _ \<Rightarrow> adj,
        om(op_id x \<mapsto> x))"

text \<open>The second loop: an edge and an in-degree per dependency.\<close>

fun add_edges :: "string \<Rightarrow> string list \<Rightarrow> (string \<rightharpoonup> nat) \<times> (string \<rightharpoonup> string list) \<Rightarrow>
    (string \<rightharpoonup> nat) \<times> (string \<rightharpoonup> string list)" where
  "add_edges i [] t = t"
| "add_edges i (d # ds) (deg, adj) =
     add_edges i ds
       (deg(i \<mapsto> (case deg i of None \<Rightarrow> 0 | Some k \<Rightarrow> k) + 1),
        adj(d \<mapsto> (case adj d of None \<Rightarrow> [] | Some l \<Rightarrow> l) @ [i]))"

fun link_tables :: "'a operation_scheme list \<Rightarrow> (string \<rightharpoonup> nat) \<times> (string \<rightharpoonup> string list) \<Rightarrow>
    (string \<rightharpoonup> nat) \<times> (string \<rightharpoonup> string list)" where
  "link_tables [] t = t"
| "link_tables (x # xs) t = link_tables xs (add_edges (op_id x) (op_depends_on x) t)"

partial_function (option) sort_loop ::
    "(string \<rightharpoonup> string list) \<Rightarrow> (string \<rightharpoonup> 'a operation_scheme) \<Rightarrow> (string \<rightharpoonup> nat) \<Rightarrow> string list \<Rightarrow>
       'a operation_scheme list \<Rightarrow> 'a operation_scheme list option" where
  "sort_loop adj om deg queue out =
     (case queue of
        [] \<Rightarrow> Some out
      | node # rest \<Rightarrow>
          (let out' = (case om node of Some x \<Rightarrow> out @ [x] | None \<Rightarrow> out);
               (push, deg') = relax (neighbours adj node) deg
           in sort_loop adj om deg' (rest @ push) out'))"

declare sort_loop.simps [code]

definition topological_sort ::
    "(string list \<Rightarrow> string list) \<Rightarrow> 'a operation_scheme list \<Rightarrow> 'a operation_scheme list option" where
  "topological_sort ho xs =
     (if xs = [] then Some []
      else
        (let (deg0, adj0, om) = seed_tables xs (Map.empty, Map.empty, Map.empty);
             (deg, adj) = link_tables xs (deg0, adj0);
             queue = filter (\<lambda>v. deg v = Some 0) (ho (remdups (map op_id xs)))
         in sort_loop adj om deg queue []))"

subsection \<open>The tables\<close>

text \<open>The edges of a plan, from dependency to dependent.\<close>

definition plan_edges :: "'a operation_scheme list \<Rightarrow> (string \<times> string) list" where
  "plan_edges xs = concat (map (\<lambda>x. map (\<lambda>d. (d, op_id x)) (op_depends_on x)) xs)"

abbreviation plan_ids :: "'a operation_scheme list \<Rightarrow> string set" where
  "plan_ids xs \<equiv> op_id ` set xs"

lemma plan_edges_iff:
  "(d, v) \<in> set (plan_edges xs) \<longleftrightarrow> (\<exists>x \<in> set xs. op_id x = v \<and> d \<in> set (op_depends_on x))"
  by (auto simp: plan_edges_def)

lemma seed_tables_spec:
  "seed_tables xs (deg, adj, om) =
     (\<lambda>v. if deg v = None \<and> v \<in> plan_ids xs then Some 0 else deg v,
      \<lambda>v. if adj v = None \<and> v \<in> plan_ids xs then Some [] else adj v,
      \<lambda>v. case find (\<lambda>x. op_id x = v) (rev xs) of Some x \<Rightarrow> Some x | None \<Rightarrow> om v)"
proof (induction xs arbitrary: deg adj om)
  case (Cons x xs)
  have find_snoc: "find P (ys @ [y]) = (case find P ys of None \<Rightarrow> if P y then Some y else None | Some z \<Rightarrow> Some z)"
    for P and ys :: "'a operation_scheme list" and y
    by (induction ys) auto
  show ?case
    unfolding seed_tables.simps Cons.IH
    by (auto simp: fun_eq_iff find_snoc split: option.split)
qed (simp add: fun_eq_iff)

lemma add_edges_spec:
  "deg i = Some k \<Longrightarrow>
     fst (add_edges i ds (deg, adj)) = deg(i \<mapsto> k + length ds) \<and>
     neighbours (snd (add_edges i ds (deg, adj))) u =
       neighbours adj u @ successors (map (\<lambda>d. (d, i)) ds) u"
proof (induction ds arbitrary: deg adj k)
  case Nil
  then show ?case by (simp add: successors_def fun_upd_idem)
next
  case (Cons d ds)
  have "(deg(i \<mapsto> k + 1)) i = Some (k + 1)" by simp
  note IH = Cons.IH [of "deg(i \<mapsto> k + 1)" "k + 1" "adj(d \<mapsto> neighbours adj d @ [i])", OF this]
  have step: "add_edges i (d # ds) (deg, adj) =
      add_edges i ds (deg(i \<mapsto> k + 1), adj(d \<mapsto> neighbours adj d @ [i]))"
    using Cons.prems by (simp add: neighbours_def)
  show ?case
    unfolding step conjunct1 [OF IH] conjunct2 [OF IH] neighbours_update
    by (simp add: successors_def)
qed

lemma link_tables_spec:
  "\<forall>x \<in> set xs. deg (op_id x) \<noteq> None \<Longrightarrow>
     fst (link_tables xs (deg, adj)) = (\<lambda>v. map_option (\<lambda>k. k + pending (plan_edges xs) {} v) (deg v)) \<and>
     neighbours (snd (link_tables xs (deg, adj))) u = neighbours adj u @ successors (plan_edges xs) u"
proof (induction xs arbitrary: deg adj)
  case Nil
  show ?case by (simp add: plan_edges_def pending_def successors_def option.map_ident)
next
  case (Cons x xs)
  let ?i = "op_id x" and ?ds = "op_depends_on x"
  obtain k where i: "deg ?i = Some k" using Cons.prems by auto
  let ?deg = "deg(?i \<mapsto> k + length ?ds)"
  let ?adj = "snd (add_edges ?i ?ds (deg, adj))"
  note ae = add_edges_spec [of deg ?i k ?ds adj u, OF i]
  have step: "link_tables (x # xs) (deg, adj) = link_tables xs (?deg, ?adj)"
    using ae by (metis link_tables.simps(2) prod.collapse)
  have "\<forall>y \<in> set xs. ?deg (op_id y) \<noteq> None" using Cons.prems by auto
  note IH = Cons.IH [of ?deg ?adj, OF this]
  have E: "plan_edges (x # xs) = map (\<lambda>d. (d, ?i)) ?ds @ plan_edges xs" by (simp add: plan_edges_def)
  have p: "pending (map (\<lambda>d. (d, ?i)) ?ds) {} v = (if v = ?i then length ?ds else 0)" for v
    by (auto simp: pending_def filter_map o_def)
  show ?case
    unfolding step E pending_append successors_append p conjunct1 [OF IH] conjunct2 [OF IH] conjunct2 [OF ae]
    using i by (simp add: fun_eq_iff)
qed

text \<open>What the code builds before the loop: the in-degrees, the edges and the last operation of each
  identifier.\<close>

lemma tables_spec:
  assumes "seed_tables xs (Map.empty, Map.empty, Map.empty) = (deg0, adj0, om)"
    and "link_tables xs (deg0, adj0) = (deg, adj)"
  shows "deg = (\<lambda>v. if v \<in> plan_ids xs then Some (pending (plan_edges xs) {} v) else None)"
    and "neighbours adj u = successors (plan_edges xs) u"
    and "om v = find (\<lambda>x. op_id x = v) (rev xs)"
proof -
  have d0: "deg0 = (\<lambda>v. if v \<in> plan_ids xs then Some 0 else None)"
    and a0: "adj0 = (\<lambda>v. if v \<in> plan_ids xs then Some [] else None)"
    and om: "om = (\<lambda>v. case find (\<lambda>x. op_id x = v) (rev xs) of Some x \<Rightarrow> Some x | None \<Rightarrow> None)"
    using assms(1) unfolding seed_tables_spec by auto
  have "\<forall>x \<in> set xs. deg0 (op_id x) \<noteq> None" by (simp add: d0)
  note l = link_tables_spec [of xs deg0 adj0 u, OF this, unfolded assms(2) fst_conv snd_conv]
  show "deg = (\<lambda>v. if v \<in> plan_ids xs then Some (pending (plan_edges xs) {} v) else None)"
    using l by (simp add: d0 fun_eq_iff)
  show "neighbours adj u = successors (plan_edges xs) u"
    using l by (simp add: a0 neighbours_def)
  show "om v = find (\<lambda>x. op_id x = v) (rev xs)"
    by (simp add: om split: option.split)
qed

subsection \<open>The queue loop\<close>

interpretation plan_graph: kahn "plan_ids xs" "plan_edges xs" for xs :: "'a operation_scheme list"
  by unfold_locales (auto simp: plan_edges_def)

text \<open>From a state that satisfies the invariant the loop ends, with everything done.\<close>

lemma sort_loop_ends:
  assumes "\<And>u. neighbours adj u = successors (plan_edges xs) u"
    and "\<And>v. v \<in> plan_ids xs \<Longrightarrow> om v = Some (f v)"
  shows "ready (plan_ids xs) (plan_edges xs) P Q \<Longrightarrow>
    \<exists>P'. sort_loop adj om (degrees (plan_ids xs) (plan_edges xs) (set P)) Q (map f P) = Some (map f P') \<and>
      ready (plan_ids xs) (plan_edges xs) P' []"
proof (induction "card (plan_ids xs) - length P" arbitrary: P Q rule: less_induct)
  case less
  show ?case
  proof (cases Q)
    case Nil
    then show ?thesis using less.prems by (intro exI [of _ P]) (simp add: sort_loop.simps)
  next
    case (Cons v rest)
    obtain push deg where r: "relax (successors (plan_edges xs) v) (degrees (plan_ids xs) (plan_edges xs) (set P)) = (push, deg)"
      by fastforce
    have Q: "ready (plan_ids xs) (plan_edges xs) P ([v] @ rest)" using less.prems Cons by simp
    have r': "relax (concat (map (successors (plan_edges xs)) [v])) (degrees (plan_ids xs) (plan_edges xs) (set P)) = (push, deg)"
      using r by simp
    note step = plan_graph.ready_step(1,2) [OF Q r']
    have v: "om v = Some (f v)" using plan_graph.ready_subset [OF Q] assms(2) [of v] by auto
    have "length (P @ [v]) \<le> card (plan_ids xs)"
      using plan_graph.ready_length [OF Q] by simp
    then have "card (plan_ids xs) - length (P @ [v]) < card (plan_ids xs) - length P" by simp
    from less.hyps [OF this step(2)] obtain P' where
      "sort_loop adj om (degrees (plan_ids xs) (plan_edges xs) (set (P @ [v]))) (rest @ push) (map f (P @ [v])) = Some (map f P')"
      "ready (plan_ids xs) (plan_edges xs) P' []" by blast
    moreover have "sort_loop adj om (degrees (plan_ids xs) (plan_edges xs) (set P)) Q (map f P) =
        sort_loop adj om (degrees (plan_ids xs) (plan_edges xs) (set (P @ [v]))) (rest @ push) (map f (P @ [v]))"
      unfolding Cons sort_loop.simps [of adj om _ "v # rest"]
      using r step(1) v assms(1) by simp
    ultimately show ?thesis by auto
  qed
qed

text \<open>The last operation with an identifier.\<close>

definition last_op :: "'a operation_scheme list \<Rightarrow> string \<Rightarrow> 'a operation_scheme" where
  "last_op xs v = the (find (\<lambda>x. op_id x = v) (rev xs))"

lemma find_last_op:
  assumes "v \<in> plan_ids xs"
  shows "find (\<lambda>x. op_id x = v) (rev xs) = Some (last_op xs v)"
    and "op_id (last_op xs v) = v" and "last_op xs v \<in> set xs"
proof -
  obtain x where x: "find (\<lambda>x. op_id x = v) (rev xs) = Some x"
    using assms by (cases "find (\<lambda>x. op_id x = v) (rev xs)") (auto simp: find_None_iff)
  then show "find (\<lambda>x. op_id x = v) (rev xs) = Some (last_op xs v)" by (simp add: last_op_def)
  from x obtain i where i: "i < length (rev xs)" "op_id (rev xs ! i) = v" "x = rev xs ! i"
    unfolding find_Some_iff by blast
  have "x \<in> set (rev xs)" unfolding i(3) by (rule nth_mem [OF i(1)])
  then show "op_id (last_op xs v) = v" "last_op xs v \<in> set xs"
    using x i by (simp_all add: last_op_def)
qed

lemma topological_sort_ready:
  assumes "\<And>ys. mset (ho ys) = mset ys"
  shows "\<exists>P. topological_sort ho xs = Some (map (last_op xs) P) \<and> ready (plan_ids xs) (plan_edges xs) P []"
proof (cases "xs = []")
  case True
  then show ?thesis
    by (intro exI [of _ "[]"]) (simp add: topological_sort_def ready_def ordered_def)
next
  case False
  obtain deg0 adj0 om where s: "seed_tables xs (Map.empty, Map.empty, Map.empty) = (deg0, adj0, om)"
    by (metis prod.collapse)
  obtain deg adj where l: "link_tables xs (deg0, adj0) = (deg, adj)" by fastforce
  note t = tables_spec [OF s l]
  let ?Q = "filter (\<lambda>v. deg v = Some 0) (ho (remdups (map op_id xs)))"
  have deg: "deg = degrees (plan_ids xs) (plan_edges xs) (set [])" using t(1) by (simp add: degrees_def)
  have "mset (ho (remdups (map op_id xs))) = mset (remdups (map op_id xs))" by (rule assms)
  then have ho: "distinct (ho (remdups (map op_id xs)))" "set (ho (remdups (map op_id xs))) = plan_ids xs"
    by (metis distinct_remdups mset_eq_imp_distinct_iff, metis mset_eq_setD set_map set_remdups)
  have "ready (plan_ids xs) (plan_edges xs) [] ?Q"
    by (rule plan_graph.ready_start) (use ho t(1) in \<open>auto split: if_splits\<close>)
  moreover have "om v = Some (last_op xs v)" if "v \<in> plan_ids xs" for v
    unfolding t(3) by (rule find_last_op(1) [OF that])
  ultimately obtain P where "sort_loop adj om deg ?Q (map (last_op xs) []) = Some (map (last_op xs) P)"
      "ready (plan_ids xs) (plan_edges xs) P []"
    using sort_loop_ends [of adj xs om "last_op xs" "[]" ?Q, OF t(2)] unfolding deg by blast
  then show ?thesis using False s l by (auto simp: topological_sort_def)
qed

subsection \<open>Properties\<close>

text \<open>
  Claim C16.  Sorting a plan always returns, whatever the order of hash-map iteration and however the
  operations refer to each other, and what it returns is exactly this: one operation, the last, for each
  identifier whose dependencies are, transitively, operations of the plan without a cycle; each after
  all operations its identifier depends on.  Every other operation is left out.
\<close>

theorem topological_sort_exact:
  assumes "\<And>ys. mset (ho ys) = mset ys"
  shows "\<exists>out. topological_sort ho xs = Some out \<and>
    distinct (map op_id out) \<and>
    set (map op_id out) = {v. schedulable (plan_ids xs) (plan_edges xs) v} \<and>
    (\<forall>ys x zs. out = ys @ x # zs \<longrightarrow>
       x = last_op xs (op_id x) \<and>
       (\<forall>y \<in> set xs. op_id y = op_id x \<longrightarrow> set (op_depends_on y) \<subseteq> set (map op_id ys)))"
proof -
  obtain P where P: "topological_sort ho xs = Some (map (last_op xs) P)" "ready (plan_ids xs) (plan_edges xs) P []"
    using topological_sort_ready [OF assms] by blast
  have sub: "set P \<subseteq> plan_ids xs" using plan_graph.ready_subset [OF P(2)] by simp
  have ids: "map op_id (map (last_op xs) Q) = Q" if "set Q \<subseteq> set P" for Q
    unfolding map_map
  proof (rule map_idI)
    fix v assume "v \<in> set Q"
    then have "v \<in> plan_ids xs" using that sub by blast
    then show "(op_id \<circ> last_op xs) v = v" by (simp add: find_last_op(2))
  qed
  have "x = last_op xs (op_id x) \<and>
      (\<forall>y \<in> set xs. op_id y = op_id x \<longrightarrow> set (op_depends_on y) \<subseteq> set (map op_id ys))"
    if split: "map (last_op xs) P = ys @ x # zs" for ys x zs
  proof -
    obtain Q v R where Q: "P = Q @ v # R" "ys = map (last_op xs) Q" "x = last_op xs v"
      using split unfolding map_eq_append_conv map_eq_Cons_conv by blast
    then have v: "op_id x = v" using sub by (simp add: find_last_op(2))
    have "u \<in> set Q" if "(u, v) \<in> set (plan_edges xs)" for u
      using P(2) Q(1) that unfolding ready_def ordered_def by blast
    moreover have "map op_id ys = Q" unfolding Q(2) by (rule ids) (auto simp: Q(1))
    ultimately show ?thesis using v Q(3) by (auto simp: plan_edges_iff)
  qed
  moreover have "distinct P" using P(2) by (simp add: ready_def)
  ultimately show ?thesis
    using P(1) ids [of P] plan_graph.ready_final [OF P(2)] by (intro exI [of _ "map (last_op xs) P"]) simp
qed

text \<open>A plan in which one operation depends on another, and a third on one that is not in the plan.\<close>

definition sample_plan :: "operation list" where
  "sample_plan =
     [\<lparr>op_id = ''reboot'', op_depends_on = [''initrd'']\<rparr>, \<lparr>op_id = ''initrd'', op_depends_on = []\<rparr>,
      \<lparr>op_id = ''net'', op_depends_on = [''drivers'']\<rparr>]"

theorem topological_sort_exact_witness:
  "\<exists>out. topological_sort (\<lambda>ys. ys) sample_plan = Some out \<and> ''initrd'' \<in> set (map op_id out) \<and>
     ''net'' \<notin> set (map op_id out)"
proof -
  let ?S = "schedulable (plan_ids sample_plan) (plan_edges sample_plan)"
  obtain out where "topological_sort (\<lambda>ys. ys) sample_plan = Some out"
      "set (map op_id out) = {v. ?S v}"
    using topological_sort_exact [of "\<lambda>ys. ys" sample_plan] by auto
  moreover have "?S ''initrd''"
    by (rule schedulable.intros) (auto simp: sample_plan_def plan_edges_def)
  moreover have "\<not> ?S ''drivers''"
    by (auto elim!: schedulableE simp: sample_plan_def)
  then have "\<not> ?S ''net''"
    by (auto elim!: schedulableE [of _ _ "''net''"] simp: sample_plan_def plan_edges_def)
  ultimately show ?thesis by auto
qed

end
