(* ===== verification/Plan_Types.thy ===== *)
theory Plan_Types
  imports Topo_Sort
begin

text \<open>
  Fix-plan operations, \<^verbatim>\<open>src/cli/plan/types.rs\<close>, and what the live executor
  (\<^verbatim>\<open>executor_live.rs\<close>) says about one before running it: the planned change, the rollback
  procedure and the backup location.  Fields that only carry display text (context lines, size
  estimates, warnings, owners) are left out, a time stamp is its Unix seconds, and registry data are kept as printed.
\<close>

subsection \<open>Operations\<close>

record file_change =
  ch_line :: nat
  ch_before :: string
  ch_after :: string

record file_edit =
  ed_file :: string
  ed_changes :: "file_change list"

record package_install =
  pk_packages :: "string list"

record service_operation =
  sv_service :: string
  sv_state :: "string option"
  sv_start :: bool
  sv_restart :: bool

record selinux_mode =
  sm_file :: string
  sm_current :: string
  sm_target :: string

record registry_edit =
  re_key :: string
  re_value :: string
  re_new_data :: string
  re_data_type :: string

record command_exec =
  ce_command :: string
  ce_expected_exit :: int
  ce_interpreter :: "string option"

record file_copy =
  cp_source :: string
  cp_destination :: string
  cp_backup :: bool

record directory_create =
  dc_path :: string

record file_permissions =
  fp_path :: string
  fp_mode :: string

record driver_inject =
  di_inf_path :: string
  di_driver_name :: string
  di_boot_critical :: bool
  di_source :: string

record file_write =
  fw_path :: string
  fw_content :: string
  fw_mode :: "string option"

record symlink =
  sl_target :: string
  sl_link_path :: string

record file_delete =
  fd_path :: string
  fd_missing_ok :: bool

datatype operation_type =
    OpFileEdit file_edit
  | OpPackageInstall package_install
  | OpServiceOperation service_operation
  | OpSelinuxMode selinux_mode
  | OpRegistryEdit registry_edit
  | OpCommandExec command_exec
  | OpFileCopy file_copy
  | OpDirectoryCreate directory_create
  | OpFilePermissions file_permissions
  | OpDriverInject driver_inject
  | OpFileWrite file_write
  | OpSymlink symlink
  | OpFileDelete file_delete

record validation_check =
  vc_command :: string
  vc_expected_exit :: int
  vc_expected_output :: "string option"

datatype post_apply_action =
    ServiceRestart "string list" | Validation string "string option" | Message string | RebootRequired string

datatype undo_info = UndoFileChanges "file_change list" | UndoCommand string | UndoData

record plan_op = operation +
  po_type :: operation_type
  po_reversible :: bool
  po_validation :: "validation_check option"
  po_undo :: "undo_info option"

record fix_plan =
  pl_vm :: string
  pl_generated :: int
  pl_operations :: "plan_op list"
  pl_post_apply :: "post_apply_action list"

subsection \<open>Descriptions\<close>

definition show_bool :: "bool \<Rightarrow> string" where
  "show_bool b = (if b then ''true'' else ''false'')"

fun describe_type :: "operation_type \<Rightarrow> string" where
  "describe_type (OpFileEdit e) =
     ''edit '' @ ed_file e @ '' ('' @ show_nat (length (ed_changes e)) @ '' change(s))''"
| "describe_type (OpFileWrite w) = ''write '' @ fw_path w"
| "describe_type (OpSymlink l) = ''symlink '' @ sl_link_path l @ '' -> '' @ sl_target l"
| "describe_type (OpFileDelete d) = ''delete '' @ fd_path d"
| "describe_type (OpCommandExec c) = ''run: '' @ ce_command c"
| "describe_type (OpFilePermissions p) = ''chmod '' @ fp_mode p @ '' '' @ fp_path p"
| "describe_type (OpDirectoryCreate d) = ''mkdir -p '' @ dc_path d"
| "describe_type (OpFileCopy c) = ''copy '' @ cp_source c @ '' -> '' @ cp_destination c"
| "describe_type (OpSelinuxMode m) =
     ''SELinux '' @ sm_current m @ '' -> '' @ sm_target m @ '' in '' @ sm_file m"
| "describe_type (OpPackageInstall p) = ''install packages: '' @ join '', '' (pk_packages p)"
| "describe_type (OpServiceOperation s) = ''service op on '' @ sv_service s"
| "describe_type (OpRegistryEdit r) =
     ''registry set '' @ re_key r @ [CHR 0x5C] @ re_value r @ '' = '' @ re_new_data r"
| "describe_type (OpDriverInject d) =
     ''inject driver '' @ di_driver_name d @ '' from '' @ di_inf_path d @ '' (boot_critical=''
       @ show_bool (di_boot_critical d) @ '')''"

definition describe_change :: "plan_op \<Rightarrow> string" where
  "describe_change x = describe_type (po_type x)"

fun snapshot_kind :: "operation_type \<Rightarrow> bool" where
  "snapshot_kind (OpFileEdit _) = True"
| "snapshot_kind (OpFileWrite _) = True"
| "snapshot_kind (OpFileCopy _) = True"
| "snapshot_kind (OpFilePermissions _) = True"
| "snapshot_kind (OpFileDelete _) = True"
| "snapshot_kind (OpSelinuxMode _) = True"
| "snapshot_kind _ = False"

definition describe_rollback :: "plan_op \<Rightarrow> string" where
  "describe_rollback x =
     (case po_undo x of
        Some (UndoCommand c) \<Rightarrow> ''run: '' @ c
      | Some (UndoFileChanges cs) \<Rightarrow> ''revert '' @ show_nat (length cs) @ '' file change(s)''
      | Some UndoData \<Rightarrow> ''apply recorded undo data''
      | None \<Rightarrow>
          if snapshot_kind (po_type x) then ''restore file snapshot from rollback directory''
          else if \<not> po_reversible x then ''NOT REVERSIBLE''
          else ''no automatic rollback recorded'')"

text \<open>The name of a file's backup: leading slashes dropped, separators replaced.\<close>

definition backup_name :: "string \<Rightarrow> string" where
  "backup_name p =
     map (\<lambda>c. if c \<in> {CHR ''/'', CHR 0x5C, CHR '':''} then CHR ''_'' else c)
       (dropWhile (\<lambda>c. c = CHR ''/'') p)"

fun backup_file :: "operation_type \<Rightarrow> string option" where
  "backup_file (OpFileEdit e) = Some (ed_file e)"
| "backup_file (OpFileWrite w) = Some (fw_path w)"
| "backup_file (OpFileDelete d) = Some (fd_path d)"
| "backup_file (OpFileCopy c) = Some (cp_destination c)"
| "backup_file (OpFilePermissions p) = Some (fp_path p)"
| "backup_file (OpSelinuxMode m) = Some (sm_file m)"
| "backup_file (OpSymlink l) = Some (sl_link_path l)"
| "backup_file _ = None"

definition backup_path_for :: "string \<Rightarrow> plan_op \<Rightarrow> string option" where
  "backup_path_for rollback_dir x =
     map_option (\<lambda>f. rollback_dir @ ''/'' @ backup_name f) (backup_file (po_type x))"

end
