(* ===== verification/Live_Files.thy ===== *)
theory Live_Files
  imports Plan_Types Utf8
begin

text \<open>
  The part of the operating system the live executor (\<^verbatim>\<open>src/cli/plan/executor_live.rs\<close>) works on, and its
  file helpers.  A machine has files, directories and symbolic links under absolute paths written
  without dots, repeated or trailing slashes.  \<open>std::fs\<close> calls are functions that return the new
  files or an error; missing permissions, full disks and a link whose target's directory is
  missing are not covered.  Following links is the parameter \<open>le_walk\<close>, spawned programs are
  \<open>le_run\<close>, SHA-256 is \<open>le_sha256\<close> and the mode of new files is \<open>le_new_mode\<close>.  The executor's rollback
  directory is separate from the files: its backups by name and its manifest.
\<close>

datatype node = Regular string nat | Link string | Dir

type_synonym files = "string \<rightharpoonup> node"

datatype io_kind =
    NotFound | AlreadyExists | IsADirectory | NotADirectory | NotRegularFile | InvalidUtf8
  | TooManyLinks | SpawnFailed

datatype live_error = Io io_kind | Context string | Bail string | BadMode

text \<open>A spawned program: its exit code, unless a signal ended it, and its standard output.\<close>

type_synonym exec_result = "(int option \<times> string) option"

record 'g live_env =
  le_walk :: "files \<Rightarrow> string \<Rightarrow> string"
  le_run :: "string list \<Rightarrow> files \<times> 'g \<Rightarrow> exec_result \<times> files \<times> 'g"
  le_new_mode :: nat
  le_sha256 :: "string \<Rightarrow> byte list"

record rollback_entry =
  rf_original_path :: string
  rf_backup_path :: string
  rf_removed :: bool

record 'g live =
  lv_files :: files
  lv_rest :: 'g
  lv_dir :: bool
  lv_backups :: "string \<rightharpoonup> string \<times> nat"
  lv_manifest :: "rollback_entry list"

subsection \<open>Files\<close>

definition exists :: "'g live_env \<Rightarrow> files \<Rightarrow> string \<Rightarrow> bool" where
  "exists env fs p = (case fs (le_walk env fs p) of Some (Regular _ _) \<Rightarrow> True | Some Dir \<Rightarrow> True | _ \<Rightarrow> False)"

definition is_symlink :: "files \<Rightarrow> string \<Rightarrow> bool" where
  "is_symlink fs p = (case fs p of Some (Link _) \<Rightarrow> True | _ \<Rightarrow> False)"

definition read_file :: "'g live_env \<Rightarrow> files \<Rightarrow> string \<Rightarrow> (live_error, string) result" where
  "read_file env fs p =
     (case fs (le_walk env fs p) of
        Some (Regular c _) \<Rightarrow> Inr c
      | Some Dir \<Rightarrow> Inl (Io IsADirectory)
      | Some (Link _) \<Rightarrow> Inl (Io TooManyLinks)
      | None \<Rightarrow> Inl (Io NotFound))"

definition read_to_string :: "'g live_env \<Rightarrow> files \<Rightarrow> string \<Rightarrow> (live_error, string) result" where
  "read_to_string env fs p =
     rbind (read_file env fs p) (\<lambda>c. if is_utf8 c then Inr c else Inl (Io InvalidUtf8))"

definition put_file :: "'g live_env \<Rightarrow> string \<Rightarrow> (nat option \<Rightarrow> string \<times> nat) \<Rightarrow> files \<Rightarrow>
    (live_error, files) result" where
  "put_file env p f fs =
     (let q = le_walk env fs p in
      case fs q of
        Some Dir \<Rightarrow> Inl (Io IsADirectory)
      | Some (Link _) \<Rightarrow> Inl (Io TooManyLinks)
      | Some (Regular _ m) \<Rightarrow> Inr (fs(q \<mapsto> case_prod Regular (f (Some m))))
      | None \<Rightarrow> Inr (fs(q \<mapsto> case_prod Regular (f None))))"

definition write_file :: "'g live_env \<Rightarrow> string \<Rightarrow> string \<Rightarrow> files \<Rightarrow> (live_error, files) result" where
  "write_file env p c = put_file env p (\<lambda>m. (c, case m of Some k \<Rightarrow> k | None \<Rightarrow> le_new_mode env))"

text \<open>\<open>fs::copy\<close> copies contents and mode; the destination is truncated before the source is read.\<close>

definition copy_file :: "'g live_env \<Rightarrow> string \<Rightarrow> string \<Rightarrow> files \<Rightarrow> (live_error, files) result" where
  "copy_file env src dst fs =
     (case fs (le_walk env fs src) of
        Some (Regular c m) \<Rightarrow>
          put_file env dst (\<lambda>_. (if le_walk env fs src = le_walk env fs dst then [] else c, m)) fs
      | None \<Rightarrow> Inl (Io NotFound)
      | Some _ \<Rightarrow> Inl (Io NotRegularFile))"

text \<open>The mode of a directory is not kept.\<close>

definition set_permissions :: "'g live_env \<Rightarrow> string \<Rightarrow> nat \<Rightarrow> files \<Rightarrow> (live_error, files) result" where
  "set_permissions env p mode fs =
     (let q = le_walk env fs p in
      case fs q of
        Some (Regular c _) \<Rightarrow> Inr (fs(q \<mapsto> Regular c (mode mod 4096)))
      | Some Dir \<Rightarrow> Inr fs
      | Some (Link _) \<Rightarrow> Inl (Io TooManyLinks)
      | None \<Rightarrow> Inl (Io NotFound))"

definition remove_file :: "string \<Rightarrow> files \<Rightarrow> (live_error, files) result" where
  "remove_file p fs =
     (case fs p of
        None \<Rightarrow> Inl (Io NotFound) | Some Dir \<Rightarrow> Inl (Io IsADirectory) | Some _ \<Rightarrow> Inr (fs(p := None)))"

definition make_symlink :: "string \<Rightarrow> string \<Rightarrow> files \<Rightarrow> (live_error, files) result" where
  "make_symlink t p fs = (if fs p = None then Inr (fs(p \<mapsto> Link t)) else Inl (Io AlreadyExists))"

text \<open>The directories above a path, outermost first, and their creation.\<close>

definition parents :: "string \<Rightarrow> string list" where
  "parents p = map (\<lambda>k. take k p) (filter (\<lambda>k. p ! k = CHR ''/'') [1..<length p])"

fun make_dirs :: "'g live_env \<Rightarrow> string list \<Rightarrow> files \<Rightarrow> (live_error, files) result" where
  "make_dirs env [] fs = Inr fs"
| "make_dirs env (d # ds) fs =
     (let q = le_walk env fs d in
      case fs q of
        None \<Rightarrow> make_dirs env ds (fs(q \<mapsto> Dir))
      | Some Dir \<Rightarrow> make_dirs env ds fs
      | Some _ \<Rightarrow> Inl (Io NotADirectory))"

definition create_dir_all :: "'g live_env \<Rightarrow> string \<Rightarrow> files \<Rightarrow> (live_error, files) result" where
  "create_dir_all env p = make_dirs env (parents p @ (if p = ''/'' then [] else [p]))"

definition create_parent :: "'g live_env \<Rightarrow> string \<Rightarrow> files \<Rightarrow> (live_error, files) result" where
  "create_parent env p = make_dirs env (parents p)"

subsection \<open>Actions\<close>

text \<open>Code that works on the machine and may stop with an error, leaving what it did.\<close>

type_synonym ('g, 'a) act = "'g live \<Rightarrow> (live_error, 'a) result \<times> 'g live"

definition ret :: "'a \<Rightarrow> ('g, 'a) act" where
  "ret x s = (Inr x, s)"

definition stop :: "live_error \<Rightarrow> ('g, 'a) act" where
  "stop e s = (Inl e, s)"

definition andthen :: "('g, 'a) act \<Rightarrow> ('a \<Rightarrow> ('g, 'b) act) \<Rightarrow> ('g, 'b) act" where
  "andthen m f s = (case m s of (Inl e, s') \<Rightarrow> (Inl e, s') | (Inr x, s') \<Rightarrow> f x s')"

definition files_do :: "(files \<Rightarrow> (live_error, files) result) \<Rightarrow> ('g, unit) act" where
  "files_do f s = (case f (lv_files s) of Inl e \<Rightarrow> (Inl e, s) | Inr fs \<Rightarrow> (Inr (), s\<lparr>lv_files := fs\<rparr>))"

definition files_get :: "(files \<Rightarrow> 'a) \<Rightarrow> ('g, 'a) act" where
  "files_get f s = (Inr (f (lv_files s)), s)"

definition lift :: "(live_error, 'a) result \<Rightarrow> ('g, 'a) act" where
  "lift r s = (r, s)"

text \<open>An action whose error is dropped.\<close>

definition attempt :: "('g, unit) act \<Rightarrow> ('g, unit) act" where
  "attempt m s = (Inr (), snd (m s))"

definition run_cmd :: "'g live_env \<Rightarrow> string list \<Rightarrow> ('g, exec_result) act" where
  "run_cmd env argv s =
     (case le_run env argv (lv_files s, lv_rest s) of
        (r, fs, g) \<Rightarrow> (Inr r, s\<lparr>lv_files := fs, lv_rest := g\<rparr>))"

subsection \<open>Snapshots\<close>

definition snapshot_file :: "'g live_env \<Rightarrow> string \<Rightarrow> ('g, unit) act" where
  "snapshot_file env p s =
     (if \<not> exists env (lv_files s) p then (Inr (), s)
      else case lv_files s (le_walk env (lv_files s) p) of
        Some (Regular c m) \<Rightarrow>
          (Inr (), s\<lparr>lv_backups := (lv_backups s)(backup_name p \<mapsto> (c, m)),
                     lv_manifest :=
                       (if p \<in> set (map rf_original_path (lv_manifest s)) then lv_manifest s
                        else lv_manifest s @ [\<lparr>rf_original_path = p, rf_backup_path = backup_name p,
                                               rf_removed = False\<rparr>])\<rparr>)
      | _ \<Rightarrow> (Inl (Io NotRegularFile), s))"

definition restore_entry :: "'g live_env \<Rightarrow> rollback_entry \<Rightarrow> ('g, unit) act" where
  "restore_entry env e s =
     (case lv_backups s (rf_backup_path e) of
        Some (c, m) \<Rightarrow>
          andthen (files_do (create_parent env (rf_original_path e))) (\<lambda>_.
            files_do (put_file env (rf_original_path e) (\<lambda>_. (c, m)))) s
      | None \<Rightarrow>
          if rf_removed e then attempt (files_do (remove_file (rf_original_path e))) s else ret () s)"

fun restore_entries :: "'g live_env \<Rightarrow> rollback_entry list \<Rightarrow> ('g, unit) act" where
  "restore_entries env [] = ret ()"
| "restore_entries env (e # es) = andthen (restore_entry env e) (\<lambda>_. restore_entries env es)"

definition rollback :: "'g live_env \<Rightarrow> string \<Rightarrow> ('g, string) act" where
  "rollback env plan_id s =
     (if \<not> lv_dir s then stop (Bail (''rollback snapshot not found: '' @ plan_id)) s
      else andthen (restore_entries env (lv_manifest s)) (\<lambda>_.
             ret (''Rollback complete for plan '' @ plan_id)) s)"

end
