(* ===== verification/Live_Plan.thy ===== *)
theory Live_Plan
  imports Live_Files
begin

text \<open>
  The live executor of fix plans, \<^verbatim>\<open>src/cli/plan/executor_live.rs\<close>, as built for Linux with the root at
  \<^verbatim>\<open>/\<close>: one definition per kind of operation, the loop over the sorted plan, validation, automatic
  rollback from the snapshots, and the post-apply actions.  Text is trimmed of ASCII white space,
  an operation's error is kept as a value instead of its text, and log lines are left out.
\<close>

subsection \<open>Numbers as text\<close>

fun show_oct :: "nat \<Rightarrow> string" where
  "show_oct n = (if n < 8 then [char_of (48 + n)] else show_oct (n div 8) @ [char_of (48 + n mod 8)])"

declare show_oct.simps [simp del]

definition show_code :: "int option \<Rightarrow> string" where
  "show_code c = (case c of None \<Rightarrow> ''None'' | Some k \<Rightarrow> ''Some('' @ show_int k @ '')'')"

fun octal_digits :: "nat \<Rightarrow> string \<Rightarrow> nat option" where
  "octal_digits acc [] = Some acc"
| "octal_digits acc (c # cs) =
     (let d = of_char c :: nat; acc' = acc * 8 + (d - 48) in
      if 48 \<le> d \<and> d < 56 \<and> acc' < 2 ^ 32 then octal_digits acc' cs else None)"

text \<open>\<open>u32::from_str_radix\<close> with radix 8.\<close>

definition parse_octal :: "string \<Rightarrow> nat option" where
  "parse_octal s =
     (let ds = (case s of c # cs \<Rightarrow> if c = CHR ''+'' then cs else s | [] \<Rightarrow> s) in
      if ds = [] then None else octal_digits 0 ds)"

subsection \<open>State before an operation\<close>

definition file_digest :: "'g live_env \<Rightarrow> files \<Rightarrow> string \<Rightarrow> string option" where
  "file_digest env fs p =
     (case read_file env fs p of
        Inl _ \<Rightarrow> None
      | Inr c \<Rightarrow> Some (show_nat (length c) @ '' bytes, sha256:'' @ hex_encode (take 8 (le_sha256 env c))))"

text \<open>Modes are kept for files only, so a directory has none here.\<close>

definition file_mode :: "'g live_env \<Rightarrow> files \<Rightarrow> string \<Rightarrow> nat option" where
  "file_mode env fs p = (case fs (le_walk env fs p) of Some (Regular _ m) \<Rightarrow> Some (m mod 4096) | _ \<Rightarrow> None)"

definition selinux_line :: "'g live_env \<Rightarrow> files \<Rightarrow> string \<Rightarrow> string option" where
  "selinux_line env fs p =
     (case read_to_string env fs p of
        Inl _ \<Rightarrow> None
      | Inr c \<Rightarrow> find (\<lambda>l. starts_with (trim_start l) ''SELINUX='') (lines c))"

fun capture_type :: "'g live_env \<Rightarrow> operation_type \<Rightarrow> ('g, string option) act" where
  "capture_type env (OpFileEdit e) = files_get (\<lambda>fs. file_digest env fs (ed_file e))"
| "capture_type env (OpFileWrite w) = files_get (\<lambda>fs. file_digest env fs (fw_path w))"
| "capture_type env (OpSymlink l) =
     files_get (\<lambda>fs. Some (''link='' @ show_bool (exists env fs (sl_link_path l)) @ '' target='' @ sl_target l))"
| "capture_type env (OpFileDelete d) =
     files_get (\<lambda>fs. Some (''exists='' @ show_bool (exists env fs (fd_path d))))"
| "capture_type env (OpFileCopy c) = files_get (\<lambda>fs. file_digest env fs (cp_destination c))"
| "capture_type env (OpFilePermissions p) =
     files_get (\<lambda>fs. map_option (\<lambda>m. ''mode '' @ show_oct m) (file_mode env fs (fp_path p)))"
| "capture_type env (OpDirectoryCreate d) =
     files_get (\<lambda>fs. Some (''exists='' @ show_bool (exists env fs (dc_path d))))"
| "capture_type env (OpSelinuxMode m) = files_get (\<lambda>fs. selinux_line env fs (sm_file m))"
| "capture_type env (OpServiceOperation v) =
     andthen (run_cmd env [''systemctl'', ''is-active'', sv_service v]) (\<lambda>r.
       ret (map_option (\<lambda>(_, out). trim out) r))"
| "capture_type env (OpRegistryEdit _) = ret None"
| "capture_type env (OpDriverInject d) =
     ret (Some (''driver '' @ di_driver_name d @ '' not yet injected (source '' @ di_source d @ '')''))"
| "capture_type env (OpPackageInstall _) = ret None"
| "capture_type env (OpCommandExec _) = ret None"

subsection \<open>Operations\<close>

text \<open>The first line that equals the expected one, up to white space, is replaced; failing that, the
  line with the given number.\<close>

fun replace_first :: "string \<Rightarrow> string \<Rightarrow> string list \<Rightarrow> string list option" where
  "replace_first before after [] = None"
| "replace_first before after (l # ls) =
     (if trim l = trim before then Some (after # ls)
      else map_option (\<lambda>ls'. l # ls') (replace_first before after ls))"

definition apply_change :: "string list \<Rightarrow> file_change \<Rightarrow> string list" where
  "apply_change ls ch =
     (case replace_first (ch_before ch) (ch_after ch) ls of
        Some ls' \<Rightarrow> ls'
      | None \<Rightarrow> if 0 < ch_line ch \<and> ch_line ch \<le> length ls then ls[ch_line ch - 1 := ch_after ch] else ls)"

definition unlines :: "string list \<Rightarrow> string" where
  "unlines ls = join [CHR 0x0A] ls @ [CHR 0x0A]"

definition apply_edit :: "'g live_env \<Rightarrow> file_edit \<Rightarrow> ('g, bool) act" where
  "apply_edit env e =
     (let p = ed_file e in
      andthen (snapshot_file env p) (\<lambda>_.
      andthen (files_get (\<lambda>fs. read_to_string env fs p)) (\<lambda>r.
      case r of
        Inl _ \<Rightarrow> stop (Context (''read '' @ p))
      | Inr content \<Rightarrow>
          andthen (files_do (write_file env p (unlines (foldl apply_change (lines content) (ed_changes e))))) (\<lambda>_.
          ret True))))"

definition snapshot_if :: "bool \<Rightarrow> 'g live_env \<Rightarrow> string \<Rightarrow> ('g, unit) act" where
  "snapshot_if b env p =
     andthen (files_get (\<lambda>fs. exists env fs p)) (\<lambda>e. if b \<and> e then snapshot_file env p else ret ())"

definition apply_write :: "'g live_env \<Rightarrow> file_write \<Rightarrow> ('g, bool) act" where
  "apply_write env w =
     (let p = fw_path w in
      andthen (snapshot_if True env p) (\<lambda>_.
      andthen (files_do (create_parent env p)) (\<lambda>_.
      andthen (files_do (write_file env p
        (if ends_with (fw_content w) [CHR 0x0A] then fw_content w else fw_content w @ [CHR 0x0A]))) (\<lambda>_.
      case fw_mode w of
        None \<Rightarrow> ret True
      | Some m \<Rightarrow>
          andthen (files_do (set_permissions env p (case parse_octal m of Some k \<Rightarrow> k | None \<Rightarrow> 420))) (\<lambda>_.
          ret True)))))"

definition apply_symlink :: "'g live_env \<Rightarrow> symlink \<Rightarrow> ('g, bool) act" where
  "apply_symlink env l =
     (let p = sl_link_path l in
      andthen (files_do (create_parent env p)) (\<lambda>_.
      andthen (files_get (\<lambda>fs. exists env fs p \<or> is_symlink fs p)) (\<lambda>there.
      andthen (if there then attempt (files_do (remove_file p)) else ret ()) (\<lambda>_.
      andthen (files_do (make_symlink (sl_target l) p)) (\<lambda>_.
      ret True)))))"

definition apply_delete :: "'g live_env \<Rightarrow> file_delete \<Rightarrow> ('g, bool) act" where
  "apply_delete env d =
     (let p = fd_path d in
      andthen (files_get (\<lambda>fs. exists env fs p \<or> is_symlink fs p)) (\<lambda>there.
      if \<not> there then
        (if fd_missing_ok d then ret True else stop (Bail (''File to delete not found: '' @ p)))
      else
        andthen (snapshot_if True env p) (\<lambda>_.
        andthen (files_do (remove_file p)) (\<lambda>_.
        ret True))))"

definition command_argv :: "command_exec \<Rightarrow> string list" where
  "command_argv c =
     (case ce_interpreter c of
        Some i \<Rightarrow>
          (case split_whitespace i of
             [] \<Rightarrow> [''sh'', ce_command c]
           | program # args \<Rightarrow> program # args @ [ce_command c])
      | None \<Rightarrow> [''sh'', ''-c'', ce_command c])"

definition apply_command :: "'g live_env \<Rightarrow> command_exec \<Rightarrow> ('g, bool) act" where
  "apply_command env c =
     andthen (run_cmd env (command_argv c)) (\<lambda>r.
     case r of
       None \<Rightarrow> stop (Context (''exec '' @ ce_command c))
     | Some (code, _) \<Rightarrow>
         if (case code of Some k \<Rightarrow> k | None \<Rightarrow> - 1) \<noteq> ce_expected_exit c then
           stop (Bail (''command '' @ quoted (ce_command c) @ '' exited with '' @ show_code code
             @ '', expected '' @ show_int (ce_expected_exit c)))
         else ret True)"

definition apply_permissions :: "'g live_env \<Rightarrow> file_permissions \<Rightarrow> ('g, bool) act" where
  "apply_permissions env f =
     (let p = fp_path f in
      andthen (snapshot_file env p) (\<lambda>_.
      case parse_octal (if fp_mode f = [] then ''0'' else fp_mode f) of
        None \<Rightarrow> stop BadMode
      | Some m \<Rightarrow> andthen (files_do (set_permissions env p m)) (\<lambda>_. ret True)))"

definition apply_directory :: "'g live_env \<Rightarrow> directory_create \<Rightarrow> ('g, bool) act" where
  "apply_directory env d = andthen (files_do (create_dir_all env (dc_path d))) (\<lambda>_. ret True)"

definition apply_copy :: "'g live_env \<Rightarrow> file_copy \<Rightarrow> ('g, bool) act" where
  "apply_copy env c =
     andthen (snapshot_if (cp_backup c) env (cp_destination c)) (\<lambda>_.
     andthen (files_do (create_parent env (cp_destination c))) (\<lambda>_.
     andthen (files_do (copy_file env (cp_source c) (cp_destination c))) (\<lambda>_.
     ret True)))"

definition selinux_rewrite :: "selinux_mode \<Rightarrow> string \<Rightarrow> string" where
  "selinux_rewrite m content =
     unlines (map (\<lambda>line.
       let trimmed = trim_start line in
       if \<not> starts_with trimmed ''#'' \<and> starts_with trimmed (''SELINUX='' @ sm_current m)
       then ''SELINUX='' @ sm_target m else line) (lines content))"

definition apply_selinux :: "'g live_env \<Rightarrow> selinux_mode \<Rightarrow> ('g, bool) act" where
  "apply_selinux env m =
     (let p = sm_file m in
      andthen (snapshot_file env p) (\<lambda>_.
      andthen (files_get (\<lambda>fs. read_to_string env fs p)) (\<lambda>r.
      andthen (case r of
                 Inl _ \<Rightarrow> ret ()
               | Inr content \<Rightarrow> files_do (write_file env p (selinux_rewrite m content))) (\<lambda>_.
      andthen (run_cmd env [''setenforce'', if sm_target m = ''enforcing'' then ''1'' else ''0'']) (\<lambda>_.
      ret True)))))"

definition install_packages :: "'g live_env \<Rightarrow> string list \<Rightarrow> ('g, unit) act" where
  "install_packages env packages =
     (if packages = [] then ret ()
      else
        andthen (files_get (\<lambda>fs. find (\<lambda>tool. exists env fs (''/usr/bin/'' @ tool)) [''apt-get'', ''dnf'', ''zypper''])) (\<lambda>t.
        case t of
          None \<Rightarrow> stop (Bail ''no supported package manager found'')
        | Some tool \<Rightarrow>
            andthen (run_cmd env (tool # ''install'' # ''-y'' # packages)) (\<lambda>r.
            case r of
              None \<Rightarrow> stop (Io SpawnFailed)
            | Some (code, _) \<Rightarrow> if code = Some 0 then ret () else stop (Bail ''package install failed''))))"

definition apply_service :: "'g live_env \<Rightarrow> service_operation \<Rightarrow> ('g, bool) act" where
  "apply_service env v =
     andthen (if sv_restart v then andthen (run_cmd env [''systemctl'', ''restart'', sv_service v]) (\<lambda>_. ret ())
              else if sv_start v then andthen (run_cmd env [''systemctl'', ''start'', sv_service v]) (\<lambda>_. ret ())
              else ret ()) (\<lambda>_.
     andthen (case sv_state v of
                None \<Rightarrow> ret ()
              | Some state \<Rightarrow>
                  andthen (run_cmd env [''systemctl'', if state = ''enabled'' then ''enable'' else ''disable'',
                    sv_service v]) (\<lambda>_. ret ())) (\<lambda>_.
     ret True))"

fun apply_operation :: "'g live_env \<Rightarrow> operation_type \<Rightarrow> ('g, bool) act" where
  "apply_operation env (OpFileEdit e) = apply_edit env e"
| "apply_operation env (OpFileWrite w) = apply_write env w"
| "apply_operation env (OpSymlink l) = apply_symlink env l"
| "apply_operation env (OpFileDelete d) = apply_delete env d"
| "apply_operation env (OpCommandExec c) = apply_command env c"
| "apply_operation env (OpFilePermissions f) = apply_permissions env f"
| "apply_operation env (OpDirectoryCreate d) = apply_directory env d"
| "apply_operation env (OpFileCopy c) = apply_copy env c"
| "apply_operation env (OpSelinuxMode m) = apply_selinux env m"
| "apply_operation env (OpPackageInstall p) = andthen (install_packages env (pk_packages p)) (\<lambda>_. ret True)"
| "apply_operation env (OpServiceOperation v) = apply_service env v"
| "apply_operation env (OpRegistryEdit _) = ret False"
| "apply_operation env (OpDriverInject _) = stop (Bail ''driver injection is a Windows operation'')"

subsection \<open>Applying a plan\<close>

datatype op_status = Applied | Skipped | Failed | RolledBack | DryRun | NotReached

text \<open>The output excerpt of a failed validation is left out.\<close>

record validation_outcome =
  vo_command :: string
  vo_exit_code :: "int option"
  vo_passed :: bool

record operation_outcome =
  oo_op_id :: string
  oo_status :: op_status
  oo_before_state :: "string option"
  oo_planned_change :: string
  oo_executed_change :: "string option"
  oo_backup_path :: "string option"
  oo_validation :: "validation_outcome option"
  oo_rollback_procedure :: string
  oo_error :: "live_error option"

record apply_result =
  ar_success :: bool
  ar_applied :: nat
  ar_failed :: nat
  ar_skipped :: nat
  ar_message :: string
  ar_outcomes :: "operation_outcome list"
  ar_rollback_dir :: "string option"

record live_executor =
  lx_dry_run :: bool
  lx_fail_fast :: bool
  lx_auto_rollback :: bool

definition new_executor :: "bool \<Rightarrow> live_executor" where
  "new_executor dry_run = \<lparr>lx_dry_run = dry_run, lx_fail_fast = False, lx_auto_rollback = False\<rparr>"

definition for_migration :: "bool \<Rightarrow> live_executor" where
  "for_migration dry_run = \<lparr>lx_dry_run = dry_run, lx_fail_fast = True, lx_auto_rollback = True\<rparr>"

definition rollback_root :: string where
  "rollback_root = ''/var/lib/guestkit/rollback''"

definition plan_id_for :: "fix_plan \<Rightarrow> string" where
  "plan_id_for plan =
     map (\<lambda>c. if c = CHR ''/'' then CHR ''_'' else c) (pl_vm plan) @ ''-'' @ show_int (pl_generated plan)"

definition run_op_validation :: "'g live_env \<Rightarrow> plan_op \<Rightarrow> ('g, validation_outcome option) act" where
  "run_op_validation env x =
     (case po_validation x of
        None \<Rightarrow> ret None
      | Some check \<Rightarrow>
          andthen (run_cmd env [''sh'', ''-c'', vc_command check]) (\<lambda>r.
          ret (Some (case r of
            None \<Rightarrow> \<lparr>vo_command = vc_command check, vo_exit_code = None, vo_passed = False\<rparr>
          | Some (code, out) \<Rightarrow>
              \<lparr>vo_command = vc_command check, vo_exit_code = code,
               vo_passed = (code = Some (vc_expected_exit check) \<and>
                 (case vc_expected_output check of None \<Rightarrow> True | Some e \<Rightarrow> contains out e))\<rparr>))))"

definition blank_outcome :: "plan_op \<Rightarrow> op_status \<Rightarrow> operation_outcome" where
  "blank_outcome x st =
     \<lparr>oo_op_id = op_id x, oo_status = st, oo_before_state = None, oo_planned_change = describe_change x,
      oo_executed_change = None, oo_backup_path = None, oo_validation = None,
      oo_rollback_procedure = describe_rollback x, oo_error = None\<rparr>"

definition capture_before :: "'g live_env \<Rightarrow> plan_op \<Rightarrow> 'g live \<Rightarrow> string option \<times> 'g live" where
  "capture_before env x s =
     (case capture_type env (po_type x) s of (Inr b, s') \<Rightarrow> (b, s') | (Inl _, s') \<Rightarrow> (None, s'))"

fun dry_outcomes :: "'g live_env \<Rightarrow> plan_op list \<Rightarrow> 'g live \<Rightarrow> operation_outcome list \<times> 'g live" where
  "dry_outcomes env [] s = ([], s)"
| "dry_outcomes env (x # xs) s =
     (let (before, s1) = capture_before env x s;
          (outs, s2) = dry_outcomes env xs s1
      in ((blank_outcome x DryRun)\<lparr>oo_before_state := before\<rparr> # outs, s2))"

text \<open>One operation that is reached: its outcome and the machine after it.\<close>

definition execute_op :: "'g live_env \<Rightarrow> string \<Rightarrow> plan_op \<Rightarrow> 'g live \<Rightarrow> operation_outcome \<times> 'g live" where
  "execute_op env dir x s =
     (let (before, s1) = capture_before env x s;
          base = (blank_outcome x Skipped)\<lparr>oo_before_state := before, oo_backup_path := backup_path_for dir x\<rparr>
      in case apply_operation env (po_type x) s1 of
           (Inr True, s2) \<Rightarrow>
             (case run_op_validation env x s2 of
                (Inr (Some v), s3) \<Rightarrow>
                  if vo_passed v then
                    (base\<lparr>oo_validation := Some v, oo_status := Applied,
                          oo_executed_change := Some (describe_change x)\<rparr>, s3)
                  else
                    (base\<lparr>oo_validation := Some v, oo_status := Failed,
                          oo_error := Some (Bail ''post-operation validation failed'')\<rparr>, s3)
              | (_, s3) \<Rightarrow>
                  (base\<lparr>oo_status := Applied, oo_executed_change := Some (describe_change x)\<rparr>, s3))
         | (Inr False, s2) \<Rightarrow> (base, s2)
         | (Inl e, s2) \<Rightarrow> (base\<lparr>oo_status := Failed, oo_error := Some e\<rparr>, s2))"

record progress =
  pg_applied :: nat
  pg_failed :: nat
  pg_skipped :: nat
  pg_aborted :: bool
  pg_outcomes :: "operation_outcome list"

definition count_outcome :: "live_executor \<Rightarrow> operation_outcome \<Rightarrow> progress \<Rightarrow> progress" where
  "count_outcome lx o1 pg =
     (let pg1 = pg\<lparr>pg_outcomes := pg_outcomes pg @ [o1]\<rparr> in
      case oo_status o1 of
        Applied \<Rightarrow> pg1\<lparr>pg_applied := pg_applied pg + 1\<rparr>
      | Failed \<Rightarrow> pg1\<lparr>pg_failed := pg_failed pg + 1, pg_aborted := pg_aborted pg \<or> lx_fail_fast lx\<rparr>
      | _ \<Rightarrow> pg1\<lparr>pg_skipped := pg_skipped pg + 1\<rparr>)"

fun run_ops :: "live_executor \<Rightarrow> 'g live_env \<Rightarrow> string \<Rightarrow> plan_op list \<Rightarrow> progress \<Rightarrow> 'g live \<Rightarrow> progress \<times> 'g live" where
  "run_ops lx env dir [] pg s = (pg, s)"
| "run_ops lx env dir (x # xs) pg s =
     (let (o1, s1) = (if pg_aborted pg then (blank_outcome x NotReached, s) else execute_op env dir x s)
      in run_ops lx env dir xs (count_outcome lx o1 pg) s1)"

fun restart_services :: "'g live_env \<Rightarrow> string list \<Rightarrow> ('g, unit) act" where
  "restart_services env [] = ret ()"
| "restart_services env (v # vs) =
     andthen (run_cmd env [''systemctl'', ''restart'', v]) (\<lambda>_. restart_services env vs)"

fun run_post_apply :: "'g live_env \<Rightarrow> post_apply_action list \<Rightarrow> ('g, unit) act" where
  "run_post_apply env [] = ret ()"
| "run_post_apply env (ServiceRestart vs # as) =
     andthen (restart_services env vs) (\<lambda>_. run_post_apply env as)"
| "run_post_apply env (Validation command _ # as) =
     andthen (run_cmd env [''sh'', ''-c'', command]) (\<lambda>r.
     case r of None \<Rightarrow> stop (Context (''validation: '' @ command)) | Some _ \<Rightarrow> run_post_apply env as)"
| "run_post_apply env (Message _ # as) = run_post_apply env as"
| "run_post_apply env (RebootRequired _ # as) = run_post_apply env as"

definition mark_rolled_back :: "operation_outcome \<Rightarrow> operation_outcome" where
  "mark_rolled_back o1 = (if oo_status o1 = Applied then o1\<lparr>oo_status := RolledBack\<rparr> else o1)"

text \<open>The message quotes the rollback directory; characters \<open>Debug\<close> would escape are not.\<close>

definition apply_message :: "nat \<Rightarrow> nat \<Rightarrow> bool \<Rightarrow> string \<Rightarrow> string" where
  "apply_message applied failed rolled_back dir =
     (if failed = 0 then
        ''Live plan applied ('' @ show_nat applied @ '' operations, rollback: '' @ [CHR 0x22] @ dir @ [CHR 0x22] @ '')''
      else if rolled_back then
        show_nat applied @ '' applied, '' @ show_nat failed @ '' failed '' @ [CHR 0xE2, CHR 0x80, CHR 0x94]
          @ '' file snapshots restored''
      else show_nat applied @ '' applied, '' @ show_nat failed @ '' failed'')"

definition start_progress :: progress where
  "start_progress = \<lparr>pg_applied = 0, pg_failed = 0, pg_skipped = 0, pg_aborted = False, pg_outcomes = []\<rparr>"

definition apply_sorted :: "live_executor \<Rightarrow> 'g live_env \<Rightarrow> fix_plan \<Rightarrow> plan_op list \<Rightarrow> ('g, apply_result) act" where
  "apply_sorted lx env plan xs s =
     (if lx_dry_run lx then
        (let (outs, s') = dry_outcomes env xs s in
         (Inr \<lparr>ar_success = True, ar_applied = 0, ar_failed = 0, ar_skipped = length xs,
               ar_message = ''Dry run completed - no changes made'', ar_outcomes = outs,
               ar_rollback_dir = None\<rparr>, s'))
      else
        (let plan_id = plan_id_for plan;
             dir = rollback_root @ ''/'' @ plan_id;
             (pg, s1) = run_ops lx env dir xs start_progress (s\<lparr>lv_dir := True\<rparr>);
             (back, s2) = (if 0 < pg_failed pg \<and> lx_auto_rollback lx then rollback env plan_id s1
                           else (Inl (Bail ''''), s1));
             rolled_back = is_ok back;
             outs = (if rolled_back then map mark_rolled_back (pg_outcomes pg) else pg_outcomes pg);
             (post, s3) = (if pg_failed pg = 0 then run_post_apply env (pl_post_apply plan) s2 else (Inr (), s2))
         in (rbind post (\<lambda>_. Inr
              \<lparr>ar_success = (pg_failed pg = 0), ar_applied = pg_applied pg, ar_failed = pg_failed pg,
               ar_skipped = pg_skipped pg,
               ar_message = apply_message (pg_applied pg) (pg_failed pg) rolled_back dir,
               ar_outcomes = outs, ar_rollback_dir = Some dir\<rparr>), s3)))"

definition apply_live :: "(string list \<Rightarrow> string list) \<Rightarrow> live_executor \<Rightarrow> 'g live_env \<Rightarrow> fix_plan \<Rightarrow> 'g live \<Rightarrow>
    ((live_error, apply_result) result \<times> 'g live) option" where
  "apply_live ho lx env plan s =
     map_option (\<lambda>xs. apply_sorted lx env plan xs s) (topological_sort ho (pl_operations plan))"

end
