(* ===== verification/Live_Rollback.thy ===== *)
theory Live_Rollback
  imports Live_Plan
begin

text \<open>
  What the live executor of \<open>Live_Plan\<close> guarantees: its account of a run, and that automatic rollback
  restores a file.  The rollback proof follows one file through a run.  Until an operation touches it
  the file is \<open>intact\<close>; from then on it is \<open>saved\<close>, that is, the manifest lists it and the backup holds its
  original.  \<open>triple\<close> is a Hoare triple for actions with a second postcondition for errors.
\<close>

named_theorems keep \<open>actions that preserve an invariant\<close>

subsection \<open>Triples\<close>

definition triple :: "('g live \<Rightarrow> bool) \<Rightarrow> ('g, 'a) act \<Rightarrow> ('a \<Rightarrow> 'g live \<Rightarrow> bool) \<Rightarrow> ('g live \<Rightarrow> bool) \<Rightarrow> bool" where
  "triple P m Q E \<longleftrightarrow>
     (\<forall>s. P s \<longrightarrow> (case m s of (Inr x, s') \<Rightarrow> Q x s' | (Inl e, s') \<Rightarrow> E s'))"

abbreviation keeps :: "('g live \<Rightarrow> bool) \<Rightarrow> ('g, 'a) act \<Rightarrow> bool" where
  "keeps I m \<equiv> triple I m (\<lambda>_. I) I"

lemma triple_andthen:
  "triple P m Q E \<Longrightarrow> (\<And>x. triple (Q x) (f x) R E) \<Longrightarrow> triple P (andthen m f) R E"
  by (fastforce simp: triple_def andthen_def split: prod.splits sum.splits)

lemma triple_weaken:
  "triple P m Q E \<Longrightarrow> (\<And>s. P' s \<Longrightarrow> P s) \<Longrightarrow> (\<And>x s. Q x s \<Longrightarrow> Q' x s) \<Longrightarrow> (\<And>s. E s \<Longrightarrow> E' s) \<Longrightarrow>
   triple P' m Q' E'"
  by (fastforce simp: triple_def split: prod.splits sum.splits)

lemma keeps_andthen [keep]: "keeps I m \<Longrightarrow> (\<And>x. keeps I (f x)) \<Longrightarrow> keeps I (andthen m f)"
  by (rule triple_andthen)

lemma keeps_ret [keep]: "keeps I (ret x)"
  by (simp add: triple_def ret_def)

lemma keeps_stop [keep]: "keeps I (stop e)"
  by (simp add: triple_def stop_def)

lemma keeps_files_get [keep]: "keeps I (files_get f)"
  by (simp add: triple_def files_get_def)

lemma keepsD:
  assumes "keeps I m" "I s"
  shows "I (snd (m s))"
proof -
  note assms(1) [unfolded triple_def, rule_format, OF assms(2)]
  then show ?thesis by (cases "m s"; cases "fst (m s)") auto
qed

lemma keeps_attempt [keep]: "keeps I m \<Longrightarrow> keeps I (attempt m)"
  using keepsD [of I m] by (simp add: triple_def [of I "attempt m"] attempt_def)

lemma keeps_if [keep]: "(b \<Longrightarrow> keeps I m) \<Longrightarrow> (\<not> b \<Longrightarrow> keeps I n) \<Longrightarrow> keeps I (if b then m else n)"
  by simp

lemma keeps_option [keep]:
  "keeps I m \<Longrightarrow> (\<And>x. keeps I (f x)) \<Longrightarrow> keeps I (case r of None \<Rightarrow> m | Some x \<Rightarrow> f x)"
  by (cases r) simp_all

lemma keeps_sum [keep]:
  "(\<And>e. keeps I (g e)) \<Longrightarrow> (\<And>x. keeps I (f x)) \<Longrightarrow> keeps I (case r of Inl e \<Rightarrow> g e | Inr x \<Rightarrow> f x)"
  by (cases r) simp_all

lemma keeps_prod [keep]: "(\<And>a b. keeps I (f a b)) \<Longrightarrow> keeps I (case r of (a, b) \<Rightarrow> f a b)"
  by (cases r) simp

subsection \<open>Files without links\<close>

definition no_links :: "files \<Rightarrow> bool" where
  "no_links fs \<longleftrightarrow> (\<forall>q t. fs q \<noteq> Some (Link t))"

text \<open>Following links goes nowhere when there are none; and the programs the plan runs leave a file
  alone and make no links.\<close>

definition plain_walk :: "'g live_env \<Rightarrow> bool" where
  "plain_walk env \<longleftrightarrow> (\<forall>fs q. no_links fs \<longrightarrow> le_walk env fs q = q)"

definition quiet_run :: "'g live_env \<Rightarrow> string \<Rightarrow> bool" where
  "quiet_run env p \<longleftrightarrow>
     (\<forall>argv fs g. no_links fs \<longrightarrow>
        no_links (fst (snd (le_run env argv (fs, g)))) \<and> fst (snd (le_run env argv (fs, g))) p = fs p)"

text \<open>A call on the files that makes no link, and one that moreover leaves a regular file as it is.\<close>

definition linkless :: "(files \<Rightarrow> (live_error, files) result) \<Rightarrow> bool" where
  "linkless f \<longleftrightarrow> (\<forall>fs fs'. no_links fs \<longrightarrow> f fs = Inr fs' \<longrightarrow> no_links fs')"

definition spares :: "string \<Rightarrow> (files \<Rightarrow> (live_error, files) result) \<Rightarrow> bool" where
  "spares p f \<longleftrightarrow>
     (\<forall>fs fs' c m. no_links fs \<longrightarrow> f fs = Inr fs' \<longrightarrow> fs p = Some (Regular c m) \<longrightarrow> fs' p = Some (Regular c m))"

lemma no_links_upd [simp]: "no_links fs \<Longrightarrow> no_links (fs(q \<mapsto> Regular c m))" "no_links fs \<Longrightarrow> no_links (fs(q \<mapsto> Dir))"
  "no_links fs \<Longrightarrow> no_links (fs(q := None))"
  by (simp_all add: no_links_def)

lemma put_file_plain:
  assumes "plain_walk env"
  shows "linkless (put_file env q f)" and "q \<noteq> p \<Longrightarrow> spares p (put_file env q f)"
  using assms
  by (auto simp: linkless_def spares_def put_file_def plain_walk_def split: option.splits node.splits prod.splits)

lemma write_file_plain [keep]:
  assumes "plain_walk env"
  shows "linkless (write_file env q c)" and "q \<noteq> p \<Longrightarrow> spares p (write_file env q c)"
  using put_file_plain [OF assms] by (simp_all add: write_file_def)

lemma copy_file_plain [keep]:
  assumes "plain_walk env"
  shows "linkless (copy_file env src q)" and "q \<noteq> p \<Longrightarrow> spares p (copy_file env src q)"
  using put_file_plain [OF assms, of q] 
  by (fastforce simp: copy_file_def linkless_def spares_def split: option.splits node.splits)+

lemma set_permissions_plain [keep]:
  assumes "plain_walk env"
  shows "linkless (set_permissions env q k)" and "q \<noteq> p \<Longrightarrow> spares p (set_permissions env q k)"
  using assms
  by (auto simp: linkless_def spares_def set_permissions_def plain_walk_def split: option.splits node.splits)

lemma remove_file_plain [keep]:
  "linkless (remove_file q)" "q \<noteq> p \<Longrightarrow> spares p (remove_file q)"
  by (auto simp: linkless_def spares_def remove_file_def split: option.splits node.splits)

lemma make_dirs_plain:
  assumes "plain_walk env" "no_links fs" "make_dirs env ds fs = Inr fs'"
  shows "no_links fs' \<and> (\<forall>n. fs p = Some n \<longrightarrow> fs' p = Some n)"
  using assms(2, 3)
proof (induction ds arbitrary: fs)
  case (Cons d ds)
  have "le_walk env fs d = d" using assms(1) Cons.prems(1) by (simp add: plain_walk_def)
  then consider "fs d = None" "make_dirs env ds (fs(d \<mapsto> Dir)) = Inr fs'" | "make_dirs env ds fs = Inr fs'"
    using Cons.prems(2) by (auto split: option.splits node.splits)
  then show ?case
  proof cases
    case 1
    from Cons.IH [OF no_links_upd(2) [OF Cons.prems(1)] 1(2)] 1(1) show ?thesis by (auto split: if_splits)
  next
    case 2
    then show ?thesis using Cons.IH Cons.prems(1) by blast
  qed
qed simp

lemma create_plain [keep]:
  assumes "plain_walk env"
  shows "linkless (create_parent env q)" "spares p (create_parent env q)"
    "linkless (create_dir_all env q)" "spares p (create_dir_all env q)"
  using make_dirs_plain [OF assms] 
  unfolding linkless_def spares_def create_parent_def create_dir_all_def by blast+

subsection \<open>A file before and after its snapshot\<close>

definition manifest_ok :: "rollback_entry list \<Rightarrow> bool" where
  "manifest_ok es \<longleftrightarrow> (\<forall>e \<in> set es. rf_backup_path e = backup_name (rf_original_path e))"

definition intact :: "string \<Rightarrow> string \<Rightarrow> nat \<Rightarrow> 'g live \<Rightarrow> bool" where
  "intact p c m s \<longleftrightarrow>
     no_links (lv_files s) \<and> manifest_ok (lv_manifest s) \<and> lv_dir s \<and>
     lv_files s p = Some (Regular c m) \<and> p \<notin> rf_original_path ` set (lv_manifest s)"

definition saved :: "string \<Rightarrow> string \<Rightarrow> nat \<Rightarrow> 'g live \<Rightarrow> bool" where
  "saved p c m s \<longleftrightarrow>
     no_links (lv_files s) \<and> manifest_ok (lv_manifest s) \<and> lv_dir s \<and>
     lv_backups s (backup_name p) = Some (c, m) \<and> p \<in> rf_original_path ` set (lv_manifest s)"

lemma files_do_keeps [keep]:
  "linkless f \<Longrightarrow> spares p f \<Longrightarrow> keeps (intact p c m) (files_do f)"
  "linkless f \<Longrightarrow> keeps (saved p c m) (files_do f)"
  by (auto simp: triple_def files_do_def intact_def saved_def linkless_def spares_def split: sum.splits)

lemma run_cmd_keeps [keep]:
  assumes "quiet_run env p"
  shows "keeps (intact p c m) (run_cmd env argv)" "keeps (saved p c m) (run_cmd env argv)"
proof -
  have H: "no_links fs' \<and> fs' p = fs p" if "le_run env argv (fs, g) = (r, fs', g')" "no_links fs" for fs g r fs' g'
    using assms that unfolding quiet_run_def by (metis fst_conv snd_conv)
  then show "keeps (intact p c m) (run_cmd env argv)" "keeps (saved p c m) (run_cmd env argv)"
    by (auto simp: triple_def run_cmd_def intact_def saved_def split: prod.splits dest!: H)
qed

lemma snapshot_keeps [keep]:
  assumes "plain_walk env"
  shows "q \<noteq> p \<Longrightarrow> keeps (intact p c m) (snapshot_file env q)"
    and "backup_name q \<noteq> backup_name p \<Longrightarrow> keeps (saved p c m) (snapshot_file env q)"
  using assms
  by (auto simp: triple_def snapshot_file_def intact_def saved_def plain_walk_def manifest_ok_def
      split: option.splits node.splits)

lemma snapshot_saves:
  assumes "plain_walk env"
  shows "triple (intact p c m) (snapshot_file env p) (\<lambda>_. saved p c m) E"
  using assms
  by (auto simp: triple_def snapshot_file_def exists_def intact_def saved_def plain_walk_def manifest_ok_def)

lemma snapshot_if_keeps [keep]:
  assumes "plain_walk env"
  shows "q \<noteq> p \<Longrightarrow> keeps (intact p c m) (snapshot_if b env q)"
    and "backup_name q \<noteq> backup_name p \<Longrightarrow> keeps (saved p c m) (snapshot_if b env q)"
  unfolding snapshot_if_def by (intro keep assms; simp)+

lemma snapshot_if_saves:
  assumes "plain_walk env"
  shows "triple (intact p c m) (snapshot_if True env p) (\<lambda>_. saved p c m) E"
proof -
  have "exists env (lv_files s) p" if "intact p c m s" for s :: "'a live"
    using that assms by (simp add: exists_def intact_def plain_walk_def)
  then show ?thesis
    using snapshot_saves [OF assms, of p c m E] 
    by (auto simp: triple_def snapshot_if_def andthen_def files_get_def)
qed

subsection \<open>Every operation on the followed file\<close>

definition is_symlink_op :: "operation_type \<Rightarrow> bool" where
  "is_symlink_op t = (case t of OpSymlink _ \<Rightarrow> True | _ \<Rightarrow> False)"

text \<open>A copy onto the file has to ask for a backup.\<close>

definition copies_safely :: "string \<Rightarrow> operation_type \<Rightarrow> bool" where
  "copies_safely p t = (case t of OpFileCopy c \<Rightarrow> cp_destination c \<noteq> p \<or> cp_backup c | _ \<Rightarrow> True)"

lemmas op_defs = apply_edit_def apply_write_def apply_delete_def apply_permissions_def apply_copy_def
  apply_selinux_def apply_command_def apply_directory_def apply_service_def install_packages_def Let_def

lemma op_keeps_intact:
  assumes "plain_walk env" "quiet_run env p" "\<not> is_symlink_op t" "backup_file t \<noteq> Some p"
  shows "keeps (intact p c m) (apply_operation env t)"
  by (cases t; simp only: apply_operation.simps op_defs; (intro keep assms(1, 2))?;
      use assms(3, 4) in \<open>simp add: is_symlink_op_def\<close>)

lemma op_keeps_saved:
  assumes "plain_walk env" "quiet_run env p" "\<not> is_symlink_op t"
    "\<And>q. backup_file t = Some q \<Longrightarrow> backup_name q \<noteq> backup_name p"
  shows "keeps (saved p c m) (apply_operation env t)"
  by (cases t; simp only: apply_operation.simps op_defs; (intro keep assms(1, 2))?;
      use assms(3, 4) in \<open>simp add: is_symlink_op_def\<close>)

definition tracked :: "string \<Rightarrow> string \<Rightarrow> nat \<Rightarrow> 'g live \<Rightarrow> bool" where
  "tracked p c m s \<longleftrightarrow> intact p c m s \<or> saved p c m s"

lemma saves_then:
  assumes "triple (intact p c m) a (\<lambda>_. saved p c m) (tracked p c m)" "\<And>x. keeps (saved p c m) (f x)"
  shows "triple (intact p c m) (andthen a f) (\<lambda>_. tracked p c m) (tracked p c m)"
proof (rule triple_andthen [OF assms(1)])
  show "triple (saved p c m) (f x) (\<lambda>_. tracked p c m) (tracked p c m)" for x
    by (rule triple_weaken [OF assms(2)]) (simp_all add: tracked_def)
qed

lemma delete_saves:
  assumes "plain_walk env"
  shows "triple (intact (fd_path d) c m) (apply_delete env d) (\<lambda>_. tracked (fd_path d) c m) (tracked (fd_path d) c m)"
  unfolding apply_delete_def Let_def
proof (rule triple_andthen)
  let ?I = "intact (fd_path d) c m" and ?T = "tracked (fd_path d) c m"
  let ?miss = "if fd_missing_ok d then ret True else stop (Bail (''File to delete not found: '' @ fd_path d))"
  let ?del = "andthen (snapshot_if True env (fd_path d)) (\<lambda>_. andthen (files_do (remove_file (fd_path d))) (\<lambda>_. ret True))"
  show "triple ?I (files_get f) (\<lambda>_. ?I) ?T" for f by (simp add: triple_def files_get_def)
  have "triple ?I ?miss (\<lambda>_. ?T) ?T"
    by (simp add: triple_def ret_def stop_def tracked_def)
  moreover have "triple ?I ?del (\<lambda>_. ?T) ?T"
    by (rule saves_then [OF snapshot_if_saves [OF assms]]) (intro keep)
  ultimately show "triple ?I (if \<not> there then ?miss else ?del) (\<lambda>_. ?T) ?T" for there
    by (cases there) (simp_all only: simp_thms if_True if_False)
qed

lemma op_saves:
  assumes "plain_walk env" "quiet_run env p" "\<not> is_symlink_op t" "copies_safely p t" "backup_file t = Some p"
  shows "triple (intact p c m) (apply_operation env t) (\<lambda>_. tracked p c m) (tracked p c m)"
proof (cases "\<exists>d. t = OpFileDelete d")
  case True
  then show ?thesis using assms(5) delete_saves [OF assms(1)] by auto
next
  case False
  note saves = saves_then [OF snapshot_saves [OF assms(1)]] saves_then [OF snapshot_if_saves [OF assms(1)]]
  note other = assms(3-5) False
  show ?thesis
  proof (cases t)
    case (OpFileCopy f)
    then have "cp_backup f" "cp_destination f = p" using other by (simp_all add: copies_safely_def)
    then show ?thesis unfolding OpFileCopy apply_operation.simps op_defs
      by simp (rule saves; intro keep assms(1, 2))
  qed (use other in \<open>simp_all add: is_symlink_op_def\<close>,
       (simp only: op_defs, rule saves, (intro keep assms(1, 2))+)+)
qed

subsection \<open>A run of operations\<close>

lemma capture_keeps:
  assumes "\<And>argv. keeps I (run_cmd env argv)"
  shows "keeps I (capture_type env t)"
  by (cases t; simp only: capture_type.simps; intro keep assms)

lemma validation_keeps:
  assumes "\<And>argv. keeps I (run_cmd env argv)"
  shows "keeps I (run_op_validation env x)"
  unfolding run_op_validation_def by (intro keep assms)

lemma execute_op_step:
  assumes "\<And>argv. keeps I (run_cmd env argv)" "\<And>argv. keeps J (run_cmd env argv)"
    and "triple I (apply_operation env (po_type x)) (\<lambda>_. J) J" "I s"
  shows "J (snd (execute_op env dir x s))"
proof -
  obtain b s1 where c: "capture_before env x s = (b, s1)" by fastforce
  have "s1 = snd (capture_type env (po_type x) s)"
    using c by (auto simp: capture_before_def split: prod.splits sum.splits)
  then have "I s1" using keepsD [OF capture_keeps [OF assms(1)] assms(4)] by simp
  note J = assms(3) [unfolded triple_def, rule_format, OF this]
  obtain r s2 where r: "apply_operation env (po_type x) s1 = (r, s2)" by fastforce
  then have "J s2" using J by (cases r) auto
  moreover have "J (snd (run_op_validation env x s2))"
    by (rule keepsD [OF validation_keeps [OF assms(2)] \<open>J s2\<close>])
  ultimately show ?thesis
    using c r by (auto simp: execute_op_def Let_def split: prod.splits sum.splits option.splits bool.splits)
qed

definition touches :: "string \<Rightarrow> plan_op \<Rightarrow> bool" where
  "touches p x = (case backup_file (po_type x) of None \<Rightarrow> False | Some q \<Rightarrow> backup_name q = backup_name p)"

definition safe_op :: "string \<Rightarrow> plan_op \<Rightarrow> bool" where
  "safe_op p x \<longleftrightarrow> \<not> is_symlink_op (po_type x) \<and> copies_safely p (po_type x)"

lemma execute_op_tracks:
  assumes "plain_walk env" "quiet_run env p" "safe_op p x"
  shows "\<not> touches p x \<Longrightarrow> intact p c m s \<Longrightarrow> intact p c m (snd (execute_op env dir x s))"
    and "\<not> touches p x \<Longrightarrow> saved p c m s \<Longrightarrow> saved p c m (snd (execute_op env dir x s))"
    and "intact p c m s \<Longrightarrow> tracked p c m (snd (execute_op env dir x s))"
proof -
  note run = run_cmd_keeps [OF assms(2)]
  have sym: "\<not> is_symlink_op (po_type x)" and cp: "copies_safely p (po_type x)"
    using assms(3) by (simp_all add: safe_op_def)
  note intact = execute_op_step [OF run(1) run(1) op_keeps_intact [OF assms(1, 2) sym]]
  show "intact p c m (snd (execute_op env dir x s))" if "\<not> touches p x" "intact p c m s"
    by (rule intact [OF _ that(2)]) (use that(1) in \<open>auto simp: touches_def\<close>)
  show "saved p c m (snd (execute_op env dir x s))" if "\<not> touches p x" "saved p c m s"
    by (rule execute_op_step [OF run(2) run(2) op_keeps_saved [OF assms(1, 2) sym] that(2)])
      (use that(1) in \<open>auto simp: touches_def\<close>)
  have track: "keeps (tracked p c m) (run_cmd env argv)" for argv
    using run [of c m argv] unfolding tracked_def triple_def by (fastforce split: prod.splits sum.splits)
  show "tracked p c m (snd (execute_op env dir x s))" if "intact p c m s"
  proof (cases "backup_file (po_type x) = Some p")
    case True
    show ?thesis
      by (rule execute_op_step [OF run(1) track op_saves [OF assms(1, 2) sym cp True] that])
  next
    case False
    then show ?thesis using intact [OF False that] by (simp add: tracked_def)
  qed
qed

lemma run_ops_keep:
  assumes "\<And>x s. x \<in> set xs \<Longrightarrow> I s \<Longrightarrow> I (snd (execute_op env dir x s))" "I s"
  shows "I (snd (run_ops lx env dir xs pg s))"
  using assms
proof (induction xs arbitrary: pg s)
  case (Cons x xs)
  obtain o1 s1 where e: "execute_op env dir x s = (o1, s1)" by fastforce
  have "I s1" using Cons.prems(1) [of x s] Cons.prems(2) e by simp
  then show ?case using Cons.IH Cons.prems e by simp
qed simp

lemma run_ops_tracks:
  assumes "plain_walk env" "quiet_run env p" "\<And>x. x \<in> set xs \<Longrightarrow> safe_op p x"
    "length (filter (touches p) xs) \<le> 1" "intact p c m s"
  shows "tracked p c m (snd (run_ops lx env dir xs pg s))"
  using assms(3-5)
proof (induction xs arbitrary: pg s)
  case Nil
  then show ?case by (simp add: tracked_def)
next
  case (Cons x xs)
  note track = execute_op_tracks [OF assms(1, 2)]
  have safe: "safe_op p x" "\<And>y. y \<in> set xs \<Longrightarrow> safe_op p y" using Cons.prems(1) by simp_all
  let ?s = "if pg_aborted pg then s else snd (execute_op env dir x s)"
  let ?pg = "count_outcome lx (if pg_aborted pg then blank_outcome x NotReached else fst (execute_op env dir x s)) pg"
  have step: "run_ops lx env dir (x # xs) pg s = run_ops lx env dir xs ?pg ?s"
    by (cases "pg_aborted pg"; cases "execute_op env dir x s") simp_all
  show ?case
  proof (cases "touches p x")
    case True
    then have none: "\<not> touches p y" if "y \<in> set xs" for y
      using Cons.prems(2) that by (auto simp: filter_empty_conv)
    have s: "tracked p c m ?s"
      using track(3) [OF safe(1) Cons.prems(3)] Cons.prems(3) by (simp add: tracked_def)
    have each: "tracked p c m (snd (execute_op env dir y t))" if "y \<in> set xs" "tracked p c m t" for y t
      using that(2) track(1, 2) [OF safe(2) [OF that(1)] none [OF that(1)], of c m t dir]
      unfolding tracked_def by (elim disjE) simp_all
    show ?thesis unfolding step by (rule run_ops_keep [of xs "tracked p c m", OF each s])
  next
    case False
    then have "intact p c m ?s" using track(1) [OF safe(1) False Cons.prems(3)] Cons.prems(3) by simp
    moreover have "length (filter (touches p) xs) \<le> 1" using Cons.prems(2) False by simp
    ultimately show ?thesis unfolding step using Cons.IH [OF safe(2)] by simp
  qed
qed

subsection \<open>Restoring\<close>

definition restored :: "string \<Rightarrow> string \<Rightarrow> nat \<Rightarrow> 'g live \<Rightarrow> bool" where
  "restored p c m s \<longleftrightarrow> no_links (lv_files s) \<and> lv_files s p = Some (Regular c m)"

lemma restore_entry_backups: "lv_backups (snd (restore_entry env e s)) = lv_backups s"
  by (auto simp: restore_entry_def andthen_def files_do_def attempt_def ret_def split: option.splits sum.splits)

lemma restore_entry_cases:
  assumes "restore_entry env e s = (Inr (), s')"
  obtains (copied) c m fs where "lv_backups s (rf_backup_path e) = Some (c, m)"
      "create_parent env (rf_original_path e) (lv_files s) = Inr fs"
      "put_file env (rf_original_path e) (\<lambda>_. (c, m)) fs = Inr (lv_files s')"
  | (removed) "lv_backups s (rf_backup_path e) = None" "remove_file (rf_original_path e) (lv_files s) = Inr (lv_files s')"
  | (left) "lv_backups s (rf_backup_path e) = None" "lv_files s' = lv_files s"
proof (cases "lv_backups s (rf_backup_path e)")
  case None
  then show ?thesis
    using assms removed left
    by (cases "remove_file (rf_original_path e) (lv_files s)")
      (auto simp: restore_entry_def files_do_def attempt_def ret_def split: if_splits)
next
  case (Some cm)
  then show ?thesis
    using assms copied
    by (cases cm; cases "create_parent env (rf_original_path e) (lv_files s)")
      (auto simp: restore_entry_def andthen_def files_do_def split: sum.splits)
qed

lemma restore_entry_files:
  assumes "plain_walk env" "no_links (lv_files s)" "restore_entry env e s = (Inr (), s')"
  shows "no_links (lv_files s')"
    and "rf_original_path e \<noteq> p \<Longrightarrow> lv_files s p = Some (Regular c m) \<Longrightarrow> lv_files s' p = Some (Regular c m)"
    and "rf_original_path e = p \<Longrightarrow> lv_backups s (rf_backup_path e) = Some (c, m) \<Longrightarrow>
      lv_files s' p = Some (Regular c m)"
proof -
  note plain = create_plain [OF assms(1), unfolded linkless_def spares_def, rule_format]
    put_file_plain [OF assms(1), of "rf_original_path e", unfolded linkless_def spares_def, rule_format]
    remove_file_plain [of "rf_original_path e", unfolded linkless_def spares_def, rule_format]
  have "no_links (lv_files s') \<and>
    (rf_original_path e \<noteq> p \<longrightarrow> lv_files s p = Some (Regular c m) \<longrightarrow> lv_files s' p = Some (Regular c m)) \<and>
    (rf_original_path e = p \<longrightarrow> lv_backups s (rf_backup_path e) = Some (c, m) \<longrightarrow> lv_files s' p = Some (Regular c m))"
    using assms(3)
  proof (cases rule: restore_entry_cases)
    case (copied c' m' fs)
    have fs: "no_links fs" by (rule plain(1) [OF assms(2) copied(2)])
    then have "le_walk env fs (rf_original_path e) = rf_original_path e" using assms(1) by (simp add: plain_walk_def)
    then have "lv_files s' (rf_original_path e) = Some (Regular c' m')" using copied(3)
      by (auto simp: put_file_def Let_def split: option.splits node.splits dest!: sym [of _ "lv_files s'"])
    moreover have "no_links (lv_files s')" by (rule plain(5) [OF fs copied(3)])
    moreover have "lv_files s' p = Some (Regular c m)" if "rf_original_path e \<noteq> p" "lv_files s p = Some (Regular c m)"
      by (rule plain(6) [OF that(1) fs copied(3) plain(2) [OF assms(2) copied(2) that(2)]])
    ultimately show ?thesis using copied(1) by auto
  next
    case removed
    then show ?thesis using plain(7) [OF assms(2) removed(2)] plain(8) [OF _ assms(2) removed(2)] by simp
  next
    case left
    then show ?thesis using assms(2) by simp
  qed
  then show "no_links (lv_files s')"
    and "rf_original_path e \<noteq> p \<Longrightarrow> lv_files s p = Some (Regular c m) \<Longrightarrow> lv_files s' p = Some (Regular c m)"
    and "rf_original_path e = p \<Longrightarrow> lv_backups s (rf_backup_path e) = Some (c, m) \<Longrightarrow>
      lv_files s' p = Some (Regular c m)"
    by simp_all
qed

lemma restore_entries_restore:
  assumes "plain_walk env" "no_links (lv_files s)" "restore_entries env es s = (Inr (), s')"
    and "\<And>e. e \<in> set es \<Longrightarrow> rf_original_path e = p \<Longrightarrow> lv_backups s (rf_backup_path e) = Some (c, m)"
    and "lv_files s p = Some (Regular c m) \<or> p \<in> rf_original_path ` set es"
  shows "lv_files s' p = Some (Regular c m)"
  using assms(2-5)
proof (induction es arbitrary: s)
  case Nil
  then show ?case by (simp add: ret_def)
next
  case (Cons e es)
  obtain s1 where s1: "restore_entry env e s = (Inr (), s1)" "restore_entries env es s1 = (Inr (), s')"
    using Cons.prems(2) by (auto simp: andthen_def split: prod.splits sum.splits)
  note files = restore_entry_files [OF assms(1) Cons.prems(1) s1(1)]
  have "lv_backups s1 = lv_backups s" using restore_entry_backups [of env e s] s1(1) by simp
  then have "lv_backups s1 (rf_backup_path f) = Some (c, m)" if "f \<in> set es" "rf_original_path f = p" for f
    using Cons.prems(3) [of f] that by simp
  moreover have "lv_files s1 p = Some (Regular c m) \<or> p \<in> rf_original_path ` set es"
    using Cons.prems(3) [of e] Cons.prems(4) files(2, 3) [of p c m] by (cases "rf_original_path e = p") auto
  ultimately show ?case using Cons.IH [OF files(1) s1(2)] by simp
qed

lemma rollback_restores:
  assumes "plain_walk env" "tracked p c m s" "rollback env i s = (Inr msg, s')"
  shows "lv_files s' p = Some (Regular c m)"
proof -
  have r: "restore_entries env (lv_manifest s) s = (Inr (), s')"
    using assms(3) by (auto simp: rollback_def andthen_def stop_def ret_def split: if_splits prod.splits sum.splits)
  have n: "no_links (lv_files s)" using assms(2) by (auto simp: tracked_def intact_def saved_def)
  show ?thesis
    by (rule restore_entries_restore [OF assms(1) n r])
      (use assms(2) in \<open>auto simp: tracked_def intact_def saved_def manifest_ok_def\<close>)
qed

subsection \<open>The account of a run\<close>

definition count_status :: "op_status list \<Rightarrow> operation_outcome list \<Rightarrow> nat" where
  "count_status sts os = length (filter (\<lambda>o1. oo_status o1 \<in> set sts) os)"

lemma count_status_simps [simp]:
  "count_status sts [] = 0"
  "count_status sts (os @ [o1]) = count_status sts os + (if oo_status o1 \<in> set sts then 1 else 0)"
  by (simp_all add: count_status_def)

text \<open>What holds of the counters and outcomes after each operation.\<close>

definition accounted :: "live_executor \<Rightarrow> plan_op list \<Rightarrow> progress \<Rightarrow> bool" where
  "accounted lx xs pg \<longleftrightarrow>
     map oo_op_id (pg_outcomes pg) = map op_id xs \<and>
     set (map oo_status (pg_outcomes pg)) \<subseteq> {Applied, Failed, Skipped, NotReached} \<and>
     pg_applied pg = count_status [Applied] (pg_outcomes pg) \<and>
     pg_failed pg = count_status [Failed] (pg_outcomes pg) \<and>
     pg_skipped pg = count_status [Skipped, NotReached] (pg_outcomes pg) \<and>
     pg_aborted pg = (lx_fail_fast lx \<and> 0 < pg_failed pg) \<and>
     (lx_fail_fast lx \<longrightarrow>
        (\<forall>ys o1 zs. pg_outcomes pg = ys @ o1 # zs \<longrightarrow> oo_status o1 = Failed \<longrightarrow>
           set (map oo_status zs) \<subseteq> {NotReached}))"

lemma execute_op_status:
  "oo_op_id (fst (execute_op env dir x s)) = op_id x"
  "oo_status (fst (execute_op env dir x s)) \<in> {Applied, Failed, Skipped}"
  by (auto simp: execute_op_def blank_outcome_def Let_def split: prod.splits sum.splits option.splits bool.splits)

lemma accounted_step:
  assumes "accounted lx xs pg" "oo_op_id o1 = op_id x"
    "oo_status o1 \<in> (if pg_aborted pg then {NotReached} else {Applied, Failed, Skipped})"
  shows "accounted lx (xs @ [x]) (count_outcome lx o1 pg)"
proof -
  have outs: "pg_outcomes (count_outcome lx o1 pg) = pg_outcomes pg @ [o1]"
    by (cases "oo_status o1") (simp_all add: count_outcome_def Let_def)
  have order: "set (map oo_status zs) \<subseteq> {NotReached}"
    if "lx_fail_fast lx" "pg_outcomes pg @ [o1] = ys @ f # zs" "oo_status f = Failed" for ys f zs
  proof (cases zs rule: rev_cases)
    case (snoc zs' z)
    then have split: "pg_outcomes pg = ys @ f # zs'" "z = o1" using that(2) by simp_all
    then have "set (map oo_status zs') \<subseteq> {NotReached}"
      using assms(1) that(1, 3) unfolding accounted_def by blast
    moreover have "0 < count_status [Failed] (pg_outcomes pg)"
      unfolding split(1) using that(3) by (simp add: count_status_def)
    then have "pg_aborted pg" using assms(1) that(1) by (simp add: accounted_def)
    ultimately show ?thesis using assms(3) snoc split(2) by simp
  qed simp
  have "pg_aborted (count_outcome lx o1 pg) = (lx_fail_fast lx \<and> 0 < pg_failed (count_outcome lx o1 pg))"
    using assms(1) by (cases "oo_status o1") (auto simp: count_outcome_def Let_def accounted_def)
  moreover have "pg_applied (count_outcome lx o1 pg) = count_status [Applied] (pg_outcomes pg @ [o1])"
    "pg_failed (count_outcome lx o1 pg) = count_status [Failed] (pg_outcomes pg @ [o1])"
    using assms(1) by (cases "oo_status o1"; simp add: count_outcome_def Let_def accounted_def)+
  moreover have "pg_skipped (count_outcome lx o1 pg) = count_status [Skipped, NotReached] (pg_outcomes pg @ [o1])"
    using assms(1, 3)
    by (cases "oo_status o1"; simp add: count_outcome_def Let_def accounted_def split: if_splits)
  moreover have "map oo_op_id (pg_outcomes pg @ [o1]) = map op_id (xs @ [x])"
    using assms(1, 2) by (simp add: accounted_def)
  moreover have "set (map oo_status (pg_outcomes pg @ [o1])) \<subseteq> {Applied, Failed, Skipped, NotReached}"
    using assms(1, 3) by (auto simp: accounted_def split: if_splits)
  ultimately show ?thesis unfolding accounted_def outs using order by blast
qed

lemma run_ops_accounted:
  assumes "accounted lx ys pg"
  shows "accounted lx (ys @ xs) (fst (run_ops lx env dir xs pg s))"
  using assms
proof (induction xs arbitrary: ys pg s)
  case (Cons x xs)
  let ?r = "if pg_aborted pg then (blank_outcome x NotReached, s) else execute_op env dir x s"
  have "accounted lx (ys @ [x]) (count_outcome lx (fst ?r) pg)"
    by (rule accounted_step [OF Cons.prems])
      (use execute_op_status [of env dir x s] in \<open>auto simp: blank_outcome_def\<close>)
  from Cons.IH [OF this, of "snd ?r"] show ?case by (simp add: split_beta)
qed simp

lemma start_accounted: "accounted lx [] start_progress"
  by (simp add: accounted_def start_progress_def)

lemma count_rolled_back:
  assumes "set (map oo_status os) \<subseteq> {Applied, Failed, Skipped, NotReached}"
  shows "count_status [Applied, RolledBack] (map mark_rolled_back os) = count_status [Applied] os"
    and "count_status [Applied, RolledBack] os = count_status [Applied] os"
    and "count_status [Failed] (map mark_rolled_back os) = count_status [Failed] os"
    and "count_status [Skipped, NotReached] (map mark_rolled_back os) = count_status [Skipped, NotReached] os"
  using assms by (induction os) (auto simp: count_status_def mark_rolled_back_def)

lemma mark_rolled_back_simps [simp]:
  "oo_op_id (mark_rolled_back o1) = oo_op_id o1"
  "oo_status (mark_rolled_back o1) = Failed \<longleftrightarrow> oo_status o1 = Failed"
  "oo_status (mark_rolled_back o1) = NotReached \<longleftrightarrow> oo_status o1 = NotReached"
  by (auto simp: mark_rolled_back_def)

text \<open>A run that is not a dry run, taken apart.\<close>

lemma apply_sorted_run:
  assumes "apply_sorted lx env plan xs s = (Inr res, s')" "\<not> lx_dry_run lx"
  obtains pg s1 rolled dir where
    "run_ops lx env dir xs start_progress (s\<lparr>lv_dir := True\<rparr>) = (pg, s1)"
    "ar_outcomes res = (if rolled then map mark_rolled_back (pg_outcomes pg) else pg_outcomes pg)"
    "ar_success res = (pg_failed pg = 0)" "ar_applied res = pg_applied pg" "ar_failed res = pg_failed pg"
    "ar_skipped res = pg_skipped pg"
    "ar_message res = apply_message (pg_applied pg) (pg_failed pg) rolled dir"
    "rolled \<Longrightarrow> 0 < pg_failed pg \<and> (\<exists>i msg. rollback env i s1 = (Inr msg, s'))"
proof -
  let ?i = "plan_id_for plan"
  let ?dir = "rollback_root @ ''/'' @ ?i"
  obtain pg s1 where r: "run_ops lx env ?dir xs start_progress (s\<lparr>lv_dir := True\<rparr>) = (pg, s1)" by fastforce
  obtain bk s2 where b: "(if 0 < pg_failed pg \<and> lx_auto_rollback lx then rollback env ?i s1
      else (Inl (Bail ''''), s1)) = (bk, s2)" by fastforce
  obtain post s3 where q: "(if pg_failed pg = 0 then run_post_apply env (pl_post_apply plan) s2 else (Inr (), s2)) = (post, s3)"
    by fastforce
  have "is_ok bk \<Longrightarrow> 0 < pg_failed pg \<and> (\<exists>i msg. rollback env i s1 = (Inr msg, s'))"
    using assms b q r by (auto simp: apply_sorted_def Let_def is_ok_iff split: if_splits)
  then show thesis
    using that [of ?dir pg s1 "is_ok bk"] assms r b q by (auto simp: apply_sorted_def Let_def result_simps)
qed

lemma count_status_total:
  assumes "set (map oo_status os) \<subseteq> {Applied, RolledBack, Failed, Skipped, NotReached}"
  shows "count_status [Applied, RolledBack] os + count_status [Failed] os + count_status [Skipped, NotReached] os = length os"
  using assms by (induction os) (auto simp: count_status_def)

lemma fail_fast_stops:
  assumes "accounted lx xs pg" "outs = (if rolled then map mark_rolled_back (pg_outcomes pg) else pg_outcomes pg)"
    and "lx_fail_fast lx" "outs = ys @ o1 # zs" "oo_status o1 = Failed"
  shows "set (map oo_status zs) \<subseteq> {NotReached}"
proof -
  have *: "set (map oo_status vs) \<subseteq> {NotReached}" if "pg_outcomes pg = us @ u # vs" "oo_status u = Failed" for us u vs
    using assms(1, 3) that unfolding accounted_def by blast
  show ?thesis
  proof (cases rolled)
    case True
    then have "map mark_rolled_back (pg_outcomes pg) = ys @ o1 # zs" using assms(2, 4) by simp
    then obtain us u vs where "pg_outcomes pg = us @ u # vs" "o1 = mark_rolled_back u" "zs = map mark_rolled_back vs"
      unfolding map_eq_append_conv map_eq_Cons_conv by blast
    then show ?thesis using * [of us u vs] assms(5) by (auto simp: mark_rolled_back_def split: if_splits)
  next
    case False
    then show ?thesis using * [of ys o1 zs] assms(2, 4, 5) by simp
  qed
qed

lemma message_restored:
  assumes "ends_with (apply_message a f rolled dir) ''file snapshots restored''"
  shows "rolled"
  using assms by (cases rolled; cases "f = 0") (simp_all add: apply_message_def ends_with_def suffix_to_prefix)

subsection \<open>Properties\<close>

text \<open>
  Claim C19.  Automatic rollback restores a file.  When a run's result says that file snapshots were
  restored, a regular file that existed before has its original contents and mode again, provided that
  the manifest started empty; the plan can be ordered, has no \<open>Symlink\<close> operation and at most one operation whose
  backup has the file's backup name; a copy onto the file asks for a backup; there is no symbolic link anywhere in the file
  system, and paths without links are walked as they are; and the programs the plan runs leave the file alone and make no links.
\<close>

theorem auto_rollback_restores:
  assumes "apply_live ho lx env plan s = Some (Inr res, s')"
    and "ends_with (ar_message res) ''file snapshots restored''"
    and "topological_sort ho (pl_operations plan) = Some xs"
    and "\<And>x. x \<in> set xs \<Longrightarrow> safe_op p x" "length (filter (touches p) xs) \<le> 1"
    and "plain_walk env" "quiet_run env p" "no_links (lv_files s)" "lv_manifest s = []"
    and "lv_files s p = Some (Regular c m)"
  shows "lv_files s' p = Some (Regular c m)"
proof -
  have a: "apply_sorted lx env plan xs s = (Inr res, s')" using assms(1, 3) by (simp add: apply_live_def)
  have "\<not> lx_dry_run lx"
    using a assms(2) by (auto simp: apply_sorted_def ends_with_def suffix_to_prefix split: prod.splits)
  from a this show ?thesis
  proof (cases rule: apply_sorted_run)
    case (1 pg s1 rolled dir)
    have "rolled" using assms(2) 1(7) message_restored by simp
    then obtain i msg where r: "rollback env i s1 = (Inr msg, s')" using 1(8) by blast
    have "intact p c m (s\<lparr>lv_dir := True\<rparr>)" using assms(8-10) by (simp add: intact_def manifest_ok_def)
    from run_ops_tracks [OF assms(6, 7, 4, 5) this, of lx dir start_progress]
    have "tracked p c m s1" using 1(1) by simp
    from rollback_restores [OF assms(6) this r] show ?thesis .
  qed
qed

text \<open>
  Claim C23.  The result of a run accounts for every operation of the sorted plan, in order: the counts
  are those of the outcomes, success means that none failed, and with fail-fast nothing is reached after the first
  failure.
\<close>

theorem apply_account:
  assumes "apply_live ho lx env plan s = Some (Inr res, s')" "\<not> lx_dry_run lx"
    and "topological_sort ho (pl_operations plan) = Some xs"
  shows "map oo_op_id (ar_outcomes res) = map op_id xs \<and>
    ar_applied res + ar_failed res + ar_skipped res = length xs \<and>
    ar_applied res = count_status [Applied, RolledBack] (ar_outcomes res) \<and>
    ar_failed res = count_status [Failed] (ar_outcomes res) \<and>
    ar_skipped res = count_status [Skipped, NotReached] (ar_outcomes res) \<and>
    (ar_success res \<longleftrightarrow> Failed \<notin> set (map oo_status (ar_outcomes res))) \<and>
    (lx_fail_fast lx \<longrightarrow>
       (\<forall>ys o1 zs. ar_outcomes res = ys @ o1 # zs \<longrightarrow> oo_status o1 = Failed \<longrightarrow>
          set (map oo_status zs) \<subseteq> {NotReached}))"
proof -
  have a: "apply_sorted lx env plan xs s = (Inr res, s')" using assms(1, 3) by (simp add: apply_live_def)
  from a assms(2) show ?thesis
  proof (cases rule: apply_sorted_run)
    case (1 pg s1 rolled dir)
    have "accounted lx xs pg"
      using run_ops_accounted [OF start_accounted, of lx xs env dir "s\<lparr>lv_dir := True\<rparr>"] 1(1) by simp
    note acc = this [unfolded accounted_def]
    note counts = count_rolled_back [OF conjunct1 [OF conjunct2 [OF acc]]]
    have ids: "map oo_op_id (ar_outcomes res) = map op_id xs" using acc 1(2) by (simp add: comp_def)
    have ap: "ar_applied res = count_status [Applied, RolledBack] (ar_outcomes res)"
      using acc counts 1(2, 4) by simp
    have fl: "ar_failed res = count_status [Failed] (ar_outcomes res)" using acc counts 1(2, 5) by simp
    have sk: "ar_skipped res = count_status [Skipped, NotReached] (ar_outcomes res)" using acc counts 1(2, 6) by simp
    have kinds: "set (map oo_status (ar_outcomes res)) \<subseteq> {Applied, RolledBack, Failed, Skipped, NotReached}"
      using conjunct1 [OF conjunct2 [OF acc]] 1(2) by (auto simp: mark_rolled_back_def split: if_splits)
    have "length (ar_outcomes res) = length xs" using arg_cong [OF ids, of length] by simp
    then have sum: "ar_applied res + ar_failed res + ar_skipped res = length xs"
      using count_status_total [OF kinds] ap fl sk by simp
    have ok: "ar_success res \<longleftrightarrow> Failed \<notin> set (map oo_status (ar_outcomes res))"
      using fl 1(3, 5) by (auto simp: count_status_def filter_empty_conv image_iff)
    have ff: "set (map oo_status zs) \<subseteq> {NotReached}"
      if "lx_fail_fast lx" "ar_outcomes res = ys @ o1 # zs" "oo_status o1 = Failed" for ys o1 zs
      by (rule fail_fast_stops [OF \<open>accounted lx xs pg\<close> 1(2) that])
    show ?thesis using ids sum ap fl sk ok ff by blast
  qed
qed

text \<open>A machine with one file, on which every command fails, and plans for it.\<close>

definition still_env :: "unit live_env" where
  "still_env = \<lparr>le_walk = (\<lambda>fs q. q), le_run = (\<lambda>argv w. (Some (Some 1, []), w)), le_new_mode = 420,
     le_sha256 = (\<lambda>_. [])\<rparr>"

definition write_op :: "string \<Rightarrow> string \<Rightarrow> plan_op" where
  "write_op i c =
     \<lparr>op_id = i, op_depends_on = [],
      po_type = OpFileWrite \<lparr>fw_path = ''/etc/fstab'', fw_content = c @ [CHR 0x0A], fw_mode = None\<rparr>,
      po_reversible = True, po_validation = None, po_undo = None\<rparr>"

definition failing_op :: plan_op where
  "failing_op =
     \<lparr>op_id = ''c'', op_depends_on = [],
      po_type = OpCommandExec \<lparr>ce_command = ''mkinitrd'', ce_expected_exit = 0, ce_interpreter = None\<rparr>,
      po_reversible = False, po_validation = None, po_undo = None\<rparr>"

definition fstab_plan :: "plan_op list \<Rightarrow> fix_plan" where
  "fstab_plan xs = \<lparr>pl_vm = ''vm'', pl_generated = 0, pl_operations = xs, pl_post_apply = []\<rparr>"

definition fstab_start :: "string \<Rightarrow> nat \<Rightarrow> unit live" where
  "fstab_start c m = \<lparr>lv_files = [''/etc'' \<mapsto> Dir, ''/etc/fstab'' \<mapsto> Regular c m], lv_rest = (), lv_dir = False,
     lv_backups = Map.empty, lv_manifest = []\<rparr>"

lemma still_env_quiet: "plain_walk still_env" "quiet_run still_env p" "no_links (lv_files (fstab_start c m))"
  by (simp_all add: plain_walk_def quiet_run_def still_env_def no_links_def fstab_start_def)

lemma fstab_sorted:
  "topological_sort (\<lambda>ys. ys) [write_op ''a'' x, failing_op] = Some [write_op ''a'' x, failing_op]"
  "topological_sort (\<lambda>ys. ys) [write_op ''a'' x, write_op ''b'' y, failing_op] =
     Some [write_op ''a'' x, write_op ''b'' y, failing_op]"
  by (simp_all add: topological_sort_def write_op_def failing_op_def sort_loop.simps neighbours_def)

lemma fstab_simps [simp]:
  "op_id (write_op i x) = i" "op_id failing_op = ''c''" "po_validation (write_op i x) = None"
  "po_type (write_op i x) = OpFileWrite \<lparr>fw_path = ''/etc/fstab'', fw_content = x @ [CHR 0x0A], fw_mode = None\<rparr>"
  "po_type failing_op = OpCommandExec \<lparr>ce_command = ''mkinitrd'', ce_expected_exit = 0, ce_interpreter = None\<rparr>"
  "lv_manifest (fstab_start c m) = []" "lv_backups (fstab_start c m) = Map.empty"
  "lv_files (fstab_start c m) ''/etc/fstab'' = Some (Regular c m)" "lv_files (fstab_start c m) ''/etc'' = Some Dir"
  "pl_operations (fstab_plan xs) = xs" "le_walk still_env fs q = q" "le_run still_env argv w = (Some (Some 1, []), w)"
  "parents ''/etc/fstab'' = [''/etc'']"
  by (simp_all add: write_op_def failing_op_def fstab_start_def fstab_plan_def still_env_def parents_def upt_rec)

theorem auto_rollback_restores_witness:
  "case apply_live (\<lambda>ys. ys) (for_migration False) still_env (fstab_plan [write_op ''a'' ''new'', failing_op])
       (fstab_start ''old'' 420) of
     Some (Inr res, s') \<Rightarrow>
       ends_with (ar_message res) ''file snapshots restored'' \<and> lv_files s' ''/etc/fstab'' = Some (Regular ''old'' 420)
   | _ \<Rightarrow> False"
proof -
  let ?plan = "fstab_plan [write_op ''a'' ''new'', failing_op]"
  have "case apply_live (\<lambda>ys. ys) (for_migration False) still_env ?plan (fstab_start ''old'' 420) of
      Some (Inr res, s') \<Rightarrow> ends_with (ar_message res) ''file snapshots restored'' | _ \<Rightarrow> False"
    by code_simp
  then obtain res s' where
    run: "apply_live (\<lambda>ys. ys) (for_migration False) still_env ?plan (fstab_start ''old'' 420) = Some (Inr res, s')"
      and msg: "ends_with (ar_message res) ''file snapshots restored''"
    by (auto split: option.splits prod.splits sum.splits)
  have "lv_files s' ''/etc/fstab'' = Some (Regular ''old'' 420)"
    by (rule auto_rollback_restores [OF run msg, of "[write_op ''a'' ''new'', failing_op]"])
      (auto simp: fstab_sorted still_env_quiet safe_op_def is_symlink_op_def copies_safely_def touches_def)
  then show ?thesis using run msg by simp
qed

theorem apply_account_witness:
  "case apply_live (\<lambda>ys. ys) (for_migration False) still_env (fstab_plan [write_op ''a'' ''new'', failing_op])
       (fstab_start ''old'' 420) of
     Some (Inr res, s') \<Rightarrow> ar_applied res + ar_failed res + ar_skipped res = 2 \<and> \<not> ar_success res
   | _ \<Rightarrow> False"
proof -
  let ?plan = "fstab_plan [write_op ''a'' ''new'', failing_op]"
  have "case apply_live (\<lambda>ys. ys) (for_migration False) still_env ?plan (fstab_start ''old'' 420) of
      Some (Inr res, s') \<Rightarrow> \<not> ar_success res | _ \<Rightarrow> False"
    by code_simp
  then obtain res s' where
    run: "apply_live (\<lambda>ys. ys) (for_migration False) still_env ?plan (fstab_start ''old'' 420) = Some (Inr res, s')"
      and bad: "\<not> ar_success res"
    by (auto split: option.splits prod.splits sum.splits)
  have "topological_sort (\<lambda>ys. ys) (pl_operations ?plan) = Some [write_op ''a'' ''new'', failing_op]"
    by (simp add: fstab_plan_def fstab_sorted)
  from apply_account [OF run _ this] run bad show ?thesis by (simp add: for_migration_def)
qed

text \<open>The file, its backup and the manifest after a write.\<close>

definition fstab_entry :: rollback_entry where
  "fstab_entry = \<lparr>rf_original_path = ''/etc/fstab'', rf_backup_path = ''etc_fstab'', rf_removed = False\<rparr>"

lemma backup_name_fstab: "backup_name ''/etc/fstab'' = ''etc_fstab''"
  by code_simp

lemma write_op_step:
  assumes "lv_files s ''/etc'' = Some Dir" "lv_files s ''/etc/fstab'' = Some (Regular c m)"
    and "lv_manifest s = [] \<or> lv_manifest s = [fstab_entry]"
  shows "oo_status (fst (execute_op still_env dir (write_op i x) s)) = Applied"
    and "snd (execute_op still_env dir (write_op i x) s) =
      s\<lparr>lv_backups := (lv_backups s)(''etc_fstab'' \<mapsto> (c, m)), lv_manifest := [fstab_entry],
        lv_files := (lv_files s)(''/etc/fstab'' \<mapsto> Regular (x @ [CHR 0x0A]) m)\<rparr>"
  using assms
  by (auto simp: execute_op_def capture_before_def files_get_def apply_write_def snapshot_if_def andthen_def exists_def
      snapshot_file_def files_do_def create_parent_def write_file_def put_file_def ends_with_def ret_def
      run_op_validation_def backup_name_fstab fstab_entry_def Let_def)

lemma failing_op_step:
  "oo_status (fst (execute_op still_env dir failing_op s)) = Failed" "snd (execute_op still_env dir failing_op s) = s"
  by (simp_all add: execute_op_def capture_before_def ret_def apply_command_def andthen_def run_cmd_def stop_def Let_def)

lemma two_writes_run:
  assumes "lv_files s ''/etc'' = Some Dir" "lv_files s ''/etc/fstab'' = Some (Regular c m)" "lv_manifest s = []"
  obtains pg s1 where
    "run_ops (for_migration False) still_env dir [write_op ''a'' x, write_op ''b'' y, failing_op] start_progress s = (pg, s1)"
    "pg_failed pg = 1" "lv_files s1 ''/etc'' = Some Dir" "lv_files s1 ''/etc/fstab'' = Some (Regular (y @ [CHR 0x0A]) m)"
    "lv_backups s1 ''etc_fstab'' = Some (x @ [CHR 0x0A], m)" "lv_manifest s1 = [fstab_entry]" "lv_dir s1 = lv_dir s"
proof -
  obtain o1 t1 where e1: "execute_op still_env dir (write_op ''a'' x) s = (o1, t1)" by fastforce
  note w1 = write_op_step [OF assms(1, 2) disjI1 [OF assms(3)], of dir "''a''" x, unfolded e1]
  obtain o2 t2 where e2: "execute_op still_env dir (write_op ''b'' y) t1 = (o2, t2)" by fastforce
  have "oo_status o2 = Applied"
    "t2 = t1\<lparr>lv_backups := (lv_backups t1)(''etc_fstab'' \<mapsto> (x @ [CHR 0x0A], m)), lv_manifest := [fstab_entry],
      lv_files := (lv_files t1)(''/etc/fstab'' \<mapsto> Regular (y @ [CHR 0x0A]) m)\<rparr>"
    using write_op_step [of t1 "x @ [CHR 0x0A]" m dir "''b''" y] w1 e2 assms(1) by simp_all
  moreover obtain o3 t3 where e3: "execute_op still_env dir failing_op t2 = (o3, t3)" by fastforce
  then have "oo_status o3 = Failed" "t3 = t2" using failing_op_step [of dir t2] by simp_all
  ultimately show thesis
    using that w1 assms(1) e1 e2 e3 by (simp add: start_progress_def count_outcome_def Let_def for_migration_def)
qed

text \<open>
  With two operations on one file the rollback restores the wrong contents: the second
  snapshot overwrites the first, so the file gets back what the first operation wrote while the result says
  that file snapshots were restored.
\<close>

theorem second_snapshot_overwrites:
  "\<exists>res s'. apply_live (\<lambda>ys. ys) (for_migration False) still_env
       (fstab_plan [write_op ''a'' x, write_op ''b'' y, failing_op]) (fstab_start c m) = Some (Inr res, s') \<and>
     ends_with (ar_message res) ''file snapshots restored'' \<and>
     lv_files s' ''/etc/fstab'' = Some (Regular (x @ [CHR 0x0A]) m)"
proof -
  let ?ops = "[write_op ''a'' x, write_op ''b'' y, failing_op]"
  let ?id = "plan_id_for (fstab_plan ?ops)"
  obtain pg s1 where run: "run_ops (for_migration False) still_env (rollback_root @ ''/'' @ ?id) ?ops start_progress
        ((fstab_start c m)\<lparr>lv_dir := True\<rparr>) = (pg, s1)"
      "pg_failed pg = 1" "lv_files s1 ''/etc'' = Some Dir" "lv_files s1 ''/etc/fstab'' = Some (Regular (y @ [CHR 0x0A]) m)"
      "lv_backups s1 ''etc_fstab'' = Some (x @ [CHR 0x0A], m)" "lv_manifest s1 = [fstab_entry]" "lv_dir s1"
    using two_writes_run [of "(fstab_start c m)\<lparr>lv_dir := True\<rparr>" c m "rollback_root @ ''/'' @ ?id" x y] by auto
  obtain msg s' where undo: "rollback still_env ?id s1 = (Inr msg, s')"
      "lv_files s' ''/etc/fstab'' = Some (Regular (x @ [CHR 0x0A]) m)"
    using run(3-7) by (simp add: rollback_def andthen_def restore_entry_def fstab_entry_def files_do_def create_parent_def
        put_file_def ret_def Let_def)
  then show ?thesis
    using run(1, 2) unfolding apply_live_def
    by (simp add: fstab_sorted apply_sorted_def for_migration_def apply_message_def ends_with_def suffix_to_prefix)
qed

lemma run_cmd_noop:
  assumes "snd (le_run env argv (lv_files s, lv_rest s)) = (lv_files s, lv_rest s)"
  shows "run_cmd env argv s = (Inr (fst (le_run env argv (lv_files s, lv_rest s))), s)"
  using assms by (cases s; cases "le_run env argv (lv_files s, lv_rest s)") (simp add: run_cmd_def)

text \<open>
  A dry run changes nothing and skips every operation of the sorted plan, as long as asking the service
  manager for a unit's state has no effect.
\<close>

theorem dry_run_pure:
  assumes "apply_live ho lx env plan s = Some (r, s')" "lx_dry_run lx"
    and "\<And>svc w. snd (le_run env [''systemctl'', ''is-active'', svc] w) = w"
    and "topological_sort ho (pl_operations plan) = Some xs"
  shows "s' = s \<and> (\<exists>res. r = Inr res \<and> ar_skipped res = length xs \<and> ar_applied res = 0 \<and>
    map oo_op_id (ar_outcomes res) = map op_id xs \<and>
    map oo_planned_change (ar_outcomes res) = map describe_change xs \<and>
    set (map oo_status (ar_outcomes res)) \<subseteq> {DryRun})"
proof -
  have cap: "snd (capture_before env x t) = t" for x t
  proof -
    have "snd (capture_type env (po_type x) t) = t"
      using run_cmd_noop [of env _ t, OF assms(3)] by (cases "po_type x")
        (auto simp: files_get_def ret_def andthen_def split: prod.splits sum.splits)
    then show ?thesis by (auto simp: capture_before_def split: prod.splits sum.splits)
  qed
  have dry: "snd (dry_outcomes env ys t) = t \<and> map oo_op_id (fst (dry_outcomes env ys t)) = map op_id ys \<and>
      map oo_planned_change (fst (dry_outcomes env ys t)) = map describe_change ys \<and>
      set (map oo_status (fst (dry_outcomes env ys t))) \<subseteq> {DryRun}" for ys t
  proof (induction ys arbitrary: t)
    case (Cons y ys)
    then show ?case using cap [of y t] by (simp add: split_beta blank_outcome_def)
  qed simp
  then show ?thesis
    using assms(1, 2, 4) dry [of xs s] by (auto simp: apply_live_def apply_sorted_def split_beta)
qed

theorem dry_run_pure_witness:
  "case apply_live (\<lambda>ys. ys) (for_migration True) still_env (fstab_plan [write_op ''a'' ''new'', failing_op])
       (fstab_start ''old'' 420) of
     Some (Inr res, s') \<Rightarrow> s' = fstab_start ''old'' 420 \<and> ar_skipped res = 2
   | _ \<Rightarrow> False"
proof -
  let ?run = "apply_live (\<lambda>ys. ys) (for_migration True) still_env (fstab_plan [write_op ''a'' ''new'', failing_op])
    (fstab_start ''old'' 420)"
  obtain r s' where run: "?run = Some (r, s')"
    by (cases ?run) (auto simp: apply_live_def fstab_sorted)
  from dry_run_pure [OF run, of "[write_op ''a'' ''new'', failing_op]"] run
  show ?thesis by (auto simp: for_migration_def fstab_sorted)
qed

end
