(* ===== verification/Line_Rewrite.thy ===== *)
theory Line_Rewrite
  imports Utf8
begin

text \<open>
  Rewriting a text line by line, as the fstab and crypttab rewriters do: the contract of the function
  applied to each line, and what follows for the whole text.  Also the words of a line.
\<close>

abbreviation LF :: char where "LF \<equiv> CHR 0x0A"

definition rewrite_text :: "(string \<Rightarrow> string) \<Rightarrow> string \<Rightarrow> string" where
  "rewrite_text rw content = concat (map rw (lines content))"

text \<open>A line as \<open>lines\<close> yields it when the text has no carriage returns.\<close>

definition one_line :: "string \<Rightarrow> bool" where
  "one_line l \<longleftrightarrow> LF \<notin> set l \<and> CHR 0x0D \<notin> set l"

subsection \<open>Lines\<close>

lemma split_on_concat:
  "(\<And>b. b \<in> set bs \<Longrightarrow> c \<notin> set b) \<Longrightarrow> split_on c (concat (map (\<lambda>b. b @ [c]) bs)) = bs @ [[]]"
  by (induction bs) (simp_all add: split_on_append)

lemma split_on_parts: "p \<in> set (split_on c s) \<Longrightarrow> c \<notin> set p \<and> set p \<subseteq> set s"
proof (induction c s arbitrary: p rule: split_on.induct)
  case (2 c x xs)
  obtain q qs where q: "split_on c xs = q # qs" by (cases "split_on c xs") auto
  show ?case
  proof (cases "x = c")
    case True
    then show ?thesis using 2 by auto
  next
    case False
    then have "p = x # q \<or> p \<in> set qs" using 2(3) q by simp
    then show ?thesis using 2(2) [of q] 2(2) [of p] False q by (elim disjE) auto
  qed
qed simp

lemma lines_one_line:
  assumes "CHR 0x0D \<notin> set c" "l \<in> set (lines c)"
  shows "one_line l"
proof -
  have "set (lines c) \<subseteq> strip_cr ` set (split_on LF c) \<union> set (split_on LF c)"
    by (auto simp: lines_def Let_def dest: in_set_butlastD)
  then obtain p where p: "p \<in> set (split_on LF c)" "l = strip_cr p \<or> l = p" using assms(2) by blast
  then have "set l \<subseteq> set p" by (auto simp: strip_cr_def dest: in_set_butlastD split: if_splits)
  then show ?thesis using split_on_parts [OF p(1)] assms(1) by (auto simp: one_line_def)
qed

lemma lines_concat:
  assumes "\<And>b. b \<in> set bs \<Longrightarrow> one_line b"
  shows "lines (concat (map (\<lambda>b. b @ [LF]) bs)) = bs"
proof -
  have "split_on LF (concat (map (\<lambda>b. b @ [LF]) bs)) = bs @ [[]]"
    by (rule split_on_concat) (use assms in \<open>auto simp: one_line_def\<close>)
  moreover have "map strip_cr bs = bs"
    by (rule map_idI) (use assms in \<open>auto simp: one_line_def strip_cr_def dest: last_in_set\<close>)
  ultimately show ?thesis by (simp add: lines_def)
qed

subsection \<open>The contract\<close>

locale line_rewriter =
  fixes rw :: "string \<Rightarrow> string" and ok :: "string \<Rightarrow> bool"
  assumes rewritten: "ok l \<Longrightarrow> one_line l \<Longrightarrow> \<exists>b. rw l = b @ [LF] \<and> one_line b \<and> ok b \<and> rw b = rw l"
begin

definition body :: "string \<Rightarrow> string" where
  "body l = butlast (rw l)"

lemma body_spec:
  assumes "ok l" "one_line l"
  shows "rw l = body l @ [LF]" "one_line (body l)" "ok (body l)" "rw (body l) = rw l"
  using rewritten [OF assms] by (auto simp: body_def)

lemma lines_rewrite_text:
  assumes "\<And>l. l \<in> set (lines c) \<Longrightarrow> ok l" "CHR 0x0D \<notin> set c"
  shows "lines (rewrite_text rw c) = map body (lines c)"
proof -
  have l: "ok l" "one_line l" if "l \<in> set (lines c)" for l
    using that assms lines_one_line by auto
  then have "map rw (lines c) = map (\<lambda>b. b @ [LF]) (map body (lines c))"
    using body_spec(1) by simp
  moreover have "one_line b" if "b \<in> set (map body (lines c))" for b
    using that l body_spec(2) by auto
  ultimately show ?thesis unfolding rewrite_text_def by (simp only: lines_concat)
qed

lemma rewrite_text_idem:
  assumes "\<And>l. l \<in> set (lines c) \<Longrightarrow> ok l" "CHR 0x0D \<notin> set c"
  shows "rewrite_text rw (rewrite_text rw c) = rewrite_text rw c"
proof -
  have l: "lines (rewrite_text rw c) = map body (lines c)" by (rule lines_rewrite_text) (use assms in auto)
  have "map rw (map body (lines c)) = map rw (lines c)"
    using assms lines_one_line body_spec(4) by simp
  then show ?thesis
    unfolding rewrite_text_def [of rw "rewrite_text rw c"] l by (simp only: rewrite_text_def)
qed

end

subsection \<open>Words\<close>

definition plain_word :: "string \<Rightarrow> bool" where
  "plain_word s \<longleftrightarrow> s \<noteq> [] \<and> (\<forall>c \<in> set s. \<not> is_space c)"

lemma words_from_plain:
  "\<forall>c \<in> set w. \<not> is_space c \<Longrightarrow> \<forall>x \<in> set (words_from w s). plain_word x"
proof (induction s arbitrary: w)
  case (Cons c cs)
  note nil = Cons.IH [of "[]"] and more = Cons.IH [of "w @ [c]"]
  show ?case using nil more Cons.prems by (cases "is_space c"; cases "w = []") (simp_all add: plain_word_def)
qed (simp add: plain_word_def)

lemma split_whitespace_plain: "x \<in> set (split_whitespace s) \<Longrightarrow> plain_word x"
  using words_from_plain [of "[]" s] by (simp add: split_whitespace_def)

lemma words_from_append: "(\<And>c. c \<in> set p \<Longrightarrow> \<not> is_space c) \<Longrightarrow> words_from w (p @ s) = words_from (w @ p) s"
  by (induction p arbitrary: w) auto

lemma split_whitespace_join:
  assumes "is_space c" "\<And>x. x \<in> set ws \<Longrightarrow> plain_word x"
  shows "split_whitespace (join [c] ws) = ws"
  using assms(2) unfolding split_whitespace_def
proof (induction "[c]" ws rule: join.induct)
  case (2 p)
  then show ?case using words_from_append [of p "[]" "[]"] by (auto simp: plain_word_def)
next
  case (3 p q ps)
  then have p: "plain_word p" by simp
  then have "words_from [] (p @ c # join [c] (q # ps)) = p # words_from [] (join [c] (q # ps))"
    using words_from_append [of p "[]" "c # join [c] (q # ps)"] assms(1) by (auto simp: plain_word_def)
  then show ?case using 3 by simp
qed simp

lemma set_join: "set (join sep ws) \<subseteq> set sep \<union> \<Union> (set ` set ws)"
  by (induction sep ws rule: join.induct) auto

text \<open>Trimming a text that starts and ends with a word.\<close>

lemma trim_ends:
  assumes "s \<noteq> []" "\<not> is_space (hd s)" "\<not> is_space (last s)"
  shows "trim s = s"
proof -
  have "trim_start s = s" using assms(1, 2) by (cases s) (auto simp: trim_start_def)
  moreover have "dropWhile is_space (rev s) = rev s"
    using assms(1, 3) by (cases s rule: rev_cases) auto
  ultimately show ?thesis by (simp add: trim_def)
qed

lemma join_ends:
  assumes "ws \<noteq> []" "\<And>x. x \<in> set ws \<Longrightarrow> x \<noteq> []"
  shows "join sep ws \<noteq> [] \<and> hd (join sep ws) = hd (hd ws) \<and> last (join sep ws) = last (last ws)"
  using assms
proof (induction sep ws rule: join.induct)
  case (3 sep p q ps)
  then have "p \<noteq> []" "join sep (q # ps) \<noteq> []" "last (join sep (q # ps)) = last (last (q # ps))" by simp_all
  then show ?case by simp
qed simp_all

lemma plain_word_append [simp]:
  "plain_word (p @ s) \<longleftrightarrow> (p \<noteq> [] \<or> s \<noteq> []) \<and> (\<forall>c \<in> set p. \<not> is_space c) \<and> (\<forall>c \<in> set s. \<not> is_space c)"
  by (auto simp: plain_word_def)

lemma trim_plain [simp]: "plain_word s \<Longrightarrow> trim s = s"
  by (rule trim_ends) (auto simp: plain_word_def)

lemma trim_join:
  assumes "ws \<noteq> []" "\<And>x. x \<in> set ws \<Longrightarrow> plain_word x"
  shows "trim (join sep ws) = join sep ws"
proof -
  have ne: "x \<noteq> []" if "x \<in> set ws" for x using assms(2) [OF that] by (simp add: plain_word_def)
  have "plain_word (hd ws)" "plain_word (last ws)" using assms by simp_all
  then have "\<not> is_space (hd (hd ws))" "\<not> is_space (last (last ws))" by (auto simp: plain_word_def)
  with join_ends [OF assms(1) ne, of sep] show ?thesis by (intro trim_ends) simp_all
qed

end
