(* ===== verification/Device_Inventory.thy ===== *)
theory Device_Inventory
  imports Disk_Reader Line_Rewrite
begin

text \<open>
  The device inventory of \<^verbatim>\<open>src/guestfs/device_inventory.rs\<close>: what \<^verbatim>\<open>blkid\<close> and \<^verbatim>\<open>lsblk\<close> say about each
  block device, indexes by identifier, the specification written into configuration files, and the
  lookup of one.  The programs and the resolution of \<^verbatim>\<open>/dev\<close> links are parameters; their output is
  taken as already decoded text.
\<close>

datatype block_type = Part | Lvm | Crypt | Raid | Disk | OtherBlock string

definition block_type_from_str :: "string \<Rightarrow> block_type" where
  "block_type_from_str s =
     (if s = ''part'' then Part else if s = ''lvm'' then Lvm else if s = ''crypt'' then Crypt
      else if s = ''raid'' then Raid else if s = ''disk'' then Disk else OtherBlock s)"

record dev_info =
  di_dev :: string
  di_fstype :: "string option"
  di_uuid :: "string option"
  di_label :: "string option"
  di_partuuid :: "string option"
  di_blk_type :: block_type
  di_luks_uuid :: "string option"

definition is_partition :: "dev_info \<Rightarrow> bool" where
  "is_partition d \<longleftrightarrow> di_blk_type d = Part \<and> di_partuuid d \<noteq> None"

definition is_logical_volume :: "dev_info \<Rightarrow> bool" where
  "is_logical_volume d \<longleftrightarrow> di_blk_type d \<in> {Lvm, Raid, Crypt} \<or> starts_with (di_dev d) ''/dev/mapper/''"

definition prefer_partuuid :: "dev_info \<Rightarrow> string \<Rightarrow> bool" where
  "prefer_partuuid d mountpoint \<longleftrightarrow>
     is_partition d \<and> mountpoint \<in> {''/'', ''/boot'', ''/boot/efi'', ''/efi''}"

definition canonical_spec :: "dev_info \<Rightarrow> string \<Rightarrow> string" where
  "canonical_spec d mountpoint =
     (if prefer_partuuid d mountpoint then ''PARTUUID='' @ the (di_partuuid d)
      else case di_uuid d of Some u \<Rightarrow> ''UUID='' @ u
      | None \<Rightarrow> (case di_partuuid d of Some u \<Rightarrow> ''PARTUUID='' @ u
      | None \<Rightarrow> (case di_label d of Some l \<Rightarrow> ''LABEL='' @ l
      | None \<Rightarrow> di_dev d)))"

record inventory =
  by_dev :: "string \<rightharpoonup> dev_info"
  by_uuid :: "string \<rightharpoonup> string"
  by_partuuid :: "string \<rightharpoonup> string"
  by_label :: "string \<rightharpoonup> string"

subsection \<open>Probing\<close>

text \<open>A program's run: whether it exited with success and its output, or the reason it did not start.\<close>

record probe_env =
  pe_canonicalize :: "string \<Rightarrow> string option"
  pe_blkid :: "string \<Rightarrow> (string, bool \<times> string) result"
  pe_lsblk :: "string \<Rightarrow> (string, bool \<times> string) result"

definition split_once :: "char \<Rightarrow> string \<Rightarrow> (string \<times> string) option" where
  "split_once c s =
     (if c \<in> set s then Some (takeWhile (\<lambda>x. x \<noteq> c) s, tl (dropWhile (\<lambda>x. x \<noteq> c) s)) else None)"

definition blkid_export :: "probe_env \<Rightarrow> string \<Rightarrow> (gk_error, string \<rightharpoonup> string) result" where
  "blkid_export env dev =
     (case pe_blkid env dev of
        Inl e \<Rightarrow> Inl (ECommandFailed (''Failed to run blkid: '' @ e))
      | Inr (success, out) \<Rightarrow>
          if \<not> success then Inr Map.empty
          else Inr (foldl (\<lambda>data line. case split_once (CHR ''='') line of
                      Some (key, val) \<Rightarrow> data(key \<mapsto> val) | None \<Rightarrow> data) Map.empty (lines out)))"

definition lsblk_type :: "probe_env \<Rightarrow> string \<Rightarrow> (gk_error, block_type) result" where
  "lsblk_type env dev =
     (case pe_lsblk env dev of
        Inl e \<Rightarrow> Inl (ECommandFailed (''Failed to run lsblk: '' @ e))
      | Inr (success, out) \<Rightarrow>
          if \<not> success then Inr (OtherBlock ''unknown'') else Inr (block_type_from_str (trim out)))"

definition probe_device :: "probe_env \<Rightarrow> string \<Rightarrow> (gk_error, dev_info) result" where
  "probe_device env dev =
     rbind (blkid_export env dev) (\<lambda>data.
     rbind (lsblk_type env dev) (\<lambda>t.
     Inr \<lparr>di_dev = dev, di_fstype = data ''TYPE'', di_uuid = data ''UUID'', di_label = data ''LABEL'',
          di_partuuid = data ''PARTUUID'', di_blk_type = t,
          di_luks_uuid = (if data ''TYPE'' = Some ''crypto_LUKS'' then data ''UUID'' else None)\<rparr>))"

definition canonicalize_dev_path :: "probe_env \<Rightarrow> string \<Rightarrow> string option" where
  "canonicalize_dev_path env p = (if starts_with p ''/dev/'' then pe_canonicalize env p else None)"

subsection \<open>The inventory\<close>

definition or_insert :: "string option \<Rightarrow> string \<Rightarrow> (string \<rightharpoonup> string) \<Rightarrow> (string \<rightharpoonup> string)" where
  "or_insert k dev m = (case k of None \<Rightarrow> m | Some i \<Rightarrow> (case m i of None \<Rightarrow> m(i \<mapsto> dev) | Some _ \<Rightarrow> m))"

text \<open>The loop over the devices; the counts of the labels are carried along.\<close>

definition add_device :: "inventory \<times> (string \<Rightarrow> nat) \<Rightarrow> string \<times> dev_info \<Rightarrow> inventory \<times> (string \<Rightarrow> nat)" where
  "add_device st e =
     (case (st, e) of ((iv, counts), (dev, info)) \<Rightarrow>
        (iv\<lparr>by_label := or_insert (di_label info) dev (by_label iv),
            by_uuid := or_insert (di_uuid info) dev (by_uuid iv),
            by_partuuid := or_insert (di_partuuid info) dev (by_partuuid iv),
            by_dev := (by_dev iv)(dev \<mapsto> info)\<rparr>,
         case di_label info of None \<Rightarrow> counts | Some l \<Rightarrow> counts(l := counts l + 1)))"

definition resolve_dev :: "probe_env \<Rightarrow> string \<Rightarrow> string" where
  "resolve_dev env input_dev = (case canonicalize_dev_path env input_dev of Some d \<Rightarrow> d | None \<Rightarrow> input_dev)"

fun index_devices :: "probe_env \<Rightarrow> string list \<Rightarrow> inventory \<times> (string \<Rightarrow> nat) \<Rightarrow>
    (gk_error, inventory \<times> (string \<Rightarrow> nat)) result" where
  "index_devices env [] st = Inr st"
| "index_devices env (input_dev # devs) st =
     (let dev = resolve_dev env input_dev in
      rbind (probe_device env dev) (\<lambda>info. index_devices env devs (add_device st (dev, info))))"

definition empty_index :: "inventory \<times> (string \<Rightarrow> nat)" where
  "empty_index =
     (\<lparr>by_dev = Map.empty, by_uuid = Map.empty, by_partuuid = Map.empty, by_label = Map.empty\<rparr>, \<lambda>_. 0)"

definition build_inventory :: "probe_env \<Rightarrow> string list \<Rightarrow> (gk_error, inventory) result" where
  "build_inventory env devices =
     rbind (index_devices env devices empty_index)
     (\<lambda>(iv, counts). Inr (iv\<lparr>by_label := (\<lambda>l. if 1 < counts l then None else by_label iv l)\<rparr>))"

definition find_by_spec :: "probe_env \<Rightarrow> inventory \<Rightarrow> string \<Rightarrow> dev_info option" where
  "find_by_spec env iv spec0 =
     (let spec = trim spec0 in
      case strip_prefix ''UUID='' spec of
        Some u \<Rightarrow> Option.bind (by_uuid iv u) (by_dev iv)
      | None \<Rightarrow>
      (case strip_prefix ''PARTUUID='' spec of
        Some u \<Rightarrow> Option.bind (by_partuuid iv u) (by_dev iv)
      | None \<Rightarrow>
      (case strip_prefix ''LABEL='' spec of
        Some l \<Rightarrow> Option.bind (by_label iv l) (by_dev iv)
      | None \<Rightarrow>
        if starts_with spec ''/dev/'' then
          (case by_dev iv spec of
             Some info \<Rightarrow> Some info
           | None \<Rightarrow> Option.bind (canonicalize_dev_path env spec) (by_dev iv))
        else None)))"

subsection \<open>Identifiers that identify\<close>

text \<open>Every identifier of a listed device leads back to it and can be written as a field.\<close>

definition identifies :: "inventory \<Rightarrow> bool" where
  "identifies iv \<longleftrightarrow>
     (\<forall>dev info. by_dev iv dev = Some info \<longrightarrow>
        di_dev info = dev \<and> (\<forall>u. di_luks_uuid info = Some u \<longrightarrow> di_uuid info = Some u) \<and> plain_word dev \<and> starts_with dev ''/dev/'' \<and>
        (\<forall>u. di_uuid info = Some u \<longrightarrow> by_uuid iv u = Some dev \<and> plain_word u) \<and>
        (\<forall>u. di_partuuid info = Some u \<longrightarrow> by_partuuid iv u = Some dev \<and> plain_word u) \<and>
        (\<forall>l. di_label info = Some l \<longrightarrow> by_label iv l = Some dev \<and> plain_word l))"

lemma find_by_spec_listed:
  "find_by_spec env iv spec = Some info \<Longrightarrow> \<exists>dev. by_dev iv dev = Some info"
  by (auto simp: find_by_spec_def Let_def bind_eq_Some_conv split: option.splits if_splits)

lemma spec_prefixes:
  "strip_prefix ''UUID='' (''UUID='' @ u) = Some u"
  "strip_prefix ''UUID='' (''PARTUUID='' @ u) = None" "strip_prefix ''PARTUUID='' (''PARTUUID='' @ u) = Some u"
  "strip_prefix ''UUID='' (''LABEL='' @ u) = None" "strip_prefix ''PARTUUID='' (''LABEL='' @ u) = None"
  "strip_prefix ''LABEL='' (''LABEL='' @ u) = Some u"
  by (simp_all add: strip_prefix_def starts_with_def)

lemma no_space_prefix: "\<forall>c \<in> set ''UUID=''. \<not> is_space c" "\<forall>c \<in> set ''PARTUUID=''. \<not> is_space c"
  "\<forall>c \<in> set ''LABEL=''. \<not> is_space c"
  by (simp_all add: is_space_def)

text \<open>The specification chosen for a device names that device.\<close>

lemma uuid_spec_found:
  assumes "identifies iv" "by_dev iv dev = Some info" "di_uuid info = Some u"
  shows "find_by_spec env iv (''UUID='' @ u) = Some info" "plain_word (''UUID='' @ u)"
proof -
  have u: "by_uuid iv u = Some dev" "plain_word u" using assms by (auto simp: identifies_def)
  then show w: "plain_word (''UUID='' @ u)" using no_space_prefix(1) unfolding plain_word_append by (simp add: plain_word_def)
  show "find_by_spec env iv (''UUID='' @ u) = Some info"
    unfolding find_by_spec_def trim_plain [OF w] Let_def spec_prefixes option.case using u(1) assms(2) by simp
qed

lemma partuuid_spec_found:
  assumes "identifies iv" "by_dev iv dev = Some info" "di_partuuid info = Some u"
  shows "find_by_spec env iv (''PARTUUID='' @ u) = Some info" "plain_word (''PARTUUID='' @ u)"
proof -
  have u: "by_partuuid iv u = Some dev" "plain_word u" using assms by (auto simp: identifies_def)
  then show w: "plain_word (''PARTUUID='' @ u)"
    using no_space_prefix(2) unfolding plain_word_append by (simp add: plain_word_def)
  show "find_by_spec env iv (''PARTUUID='' @ u) = Some info"
    unfolding find_by_spec_def trim_plain [OF w] Let_def spec_prefixes option.case using u(1) assms(2) by simp
qed

lemma label_spec_found:
  assumes "identifies iv" "by_dev iv dev = Some info" "di_label info = Some u"
  shows "find_by_spec env iv (''LABEL='' @ u) = Some info" "plain_word (''LABEL='' @ u)"
proof -
  have u: "by_label iv u = Some dev" "plain_word u" using assms by (auto simp: identifies_def)
  then show w: "plain_word (''LABEL='' @ u)"
    using no_space_prefix(3) unfolding plain_word_append by (simp add: plain_word_def)
  show "find_by_spec env iv (''LABEL='' @ u) = Some info"
    unfolding find_by_spec_def trim_plain [OF w] Let_def spec_prefixes option.case using u(1) assms(2) by simp
qed

lemma dev_spec_found:
  assumes "identifies iv" "by_dev iv dev = Some info"
  shows "find_by_spec env iv dev = Some info" "plain_word dev"
proof -
  have u: "plain_word dev" "starts_with dev ''/dev/''" using assms by (auto simp: identifies_def)
  then obtain r where "dev = ''/dev/'' @ r" by (auto simp: starts_with_def prefix_def)
  then have "strip_prefix ''UUID='' dev = None" "strip_prefix ''PARTUUID='' dev = None" "strip_prefix ''LABEL='' dev = None"
    by (simp_all add: strip_prefix_def starts_with_def)
  then show "find_by_spec env iv dev = Some info" "plain_word dev"
    using u assms(2) by (simp_all add: find_by_spec_def)
qed

lemma canonical_spec_found:
  assumes "identifies iv" "by_dev iv dev = Some info"
  shows "find_by_spec env iv (canonical_spec info mp) = Some info" "plain_word (canonical_spec info mp)"
proof -
  note found = uuid_spec_found [OF assms] partuuid_spec_found [OF assms] label_spec_found [OF assms]
    dev_spec_found [OF assms]
  have dev: "di_dev info = dev" using assms by (auto simp: identifies_def)
  have "find_by_spec env iv (canonical_spec info mp) = Some info \<and> plain_word (canonical_spec info mp)"
  proof (cases "prefer_partuuid info mp")
    case True
    then obtain u where "di_partuuid info = Some u" by (auto simp: prefer_partuuid_def is_partition_def)
    then show ?thesis using True found(3,4) unfolding canonical_spec_def by simp
  next
    case False
    then show ?thesis
      unfolding canonical_spec_def using found dev
      by (cases "di_uuid info"; cases "di_partuuid info"; cases "di_label info") simp_all
  qed
  then show "find_by_spec env iv (canonical_spec info mp) = Some info" "plain_word (canonical_spec info mp)"
    by simp_all
qed

subsection \<open>What indexing builds\<close>

lemma index_devices_fold:
  "index_devices env ds st = Inr st' \<longleftrightarrow>
     (\<exists>is. list_all2 (\<lambda>d i. probe_device env (resolve_dev env d) = Inr i) ds is \<and>
        st' = foldl add_device st (zip (map (resolve_dev env) ds) is))"
proof (induction ds arbitrary: st)
  case (Cons d ds)
  show ?case
    by (cases "probe_device env (resolve_dev env d)") (auto simp: Cons.IH list_all2_Cons1 Let_def)
qed auto

text \<open>The first device with an identifier, and how many have it.\<close>

definition first_with :: "(dev_info \<Rightarrow> string option) \<Rightarrow> (string \<times> dev_info) list \<Rightarrow> string \<Rightarrow> string option" where
  "first_with f D u = map_option fst (find (\<lambda>(d, i). f i = Some u) D)"

lemma find_append: "find P (xs @ ys) = (case find P xs of Some x \<Rightarrow> Some x | None \<Rightarrow> find P ys)"
  by (induction xs) auto

lemma or_insert_first: "or_insert (f i) d (first_with f D) = first_with f (D @ [(d, i)])"
  by (rule ext) (auto simp: or_insert_def first_with_def find_append split: option.splits)

lemma indexed:
  "foldl add_device empty_index D =
     (\<lparr>by_dev = map_of (rev D), by_uuid = first_with di_uuid D, by_partuuid = first_with di_partuuid D,
       by_label = first_with di_label D\<rparr>, \<lambda>l. length (filter (\<lambda>(d, i). di_label i = Some l) D))"
proof (induction D rule: rev_induct)
  case Nil
  show ?case by (simp add: empty_index_def first_with_def fun_eq_iff)
next
  case (snoc e D)
  obtain d i where e: "e = (d, i)" by fastforce
  show ?case
    unfolding foldl_append snoc e
    by (auto simp: add_device_def or_insert_first fun_eq_iff split: option.splits)
qed

text \<open>Devices whose identifiers are theirs alone.\<close>

definition owned :: "(dev_info \<Rightarrow> string option) \<Rightarrow> (string \<times> dev_info) list \<Rightarrow> bool" where
  "owned f D \<longleftrightarrow> (\<forall>d i e j u. (d, i) \<in> set D \<longrightarrow> (e, j) \<in> set D \<longrightarrow> f i = Some u \<longrightarrow> f j = Some u \<longrightarrow> d = e)"

definition distinct_ids :: "(string \<times> dev_info) list \<Rightarrow> bool" where
  "distinct_ids D \<longleftrightarrow> distinct (map fst D) \<and> owned di_uuid D \<and> owned di_partuuid D \<and> owned di_label D"

lemma find_in: "find P xs = Some x \<Longrightarrow> x \<in> set xs \<and> P x"
  by (induction xs) (auto split: if_splits)

lemma first_with_unique:
  assumes "owned f D" "(d, i) \<in> set D" "f i = Some u"
  shows "first_with f D u = Some d"
proof -
  obtain e j where "find (\<lambda>(d, i). f i = Some u) D = Some (e, j)"
    using assms(2, 3) by (cases "find (\<lambda>(d, i). f i = Some u) D") (auto simp: find_None_iff)
  moreover from this have "(e, j) \<in> set D" "f j = Some u"
    using find_in [of "\<lambda>(d, i). f i = Some u" D "(e, j)"] by simp_all
  moreover from this have "e = d" using assms unfolding owned_def by blast
  ultimately show ?thesis by (simp add: first_with_def)
qed

lemma label_count:
  assumes "distinct_ids D" "(d, i) \<in> set D" "di_label i = Some l"
  shows "length (filter (\<lambda>(d, i). di_label i = Some l) D) \<le> 1"
proof -
  let ?F = "filter (\<lambda>(d, i). di_label i = Some l) D"
  have "set (map fst ?F) \<subseteq> {d}" using assms unfolding distinct_ids_def owned_def by auto
  moreover have "distinct (map fst ?F)" using assms(1) by (simp add: distinct_ids_def distinct_map_filter)
  ultimately show ?thesis
    using card_mono [of "{d}" "set (map fst ?F)"] distinct_card [of "map fst ?F"] by (simp only: length_map) simp
qed

lemma probe_dev: "probe_device env d = Inr i \<Longrightarrow> di_dev i = d \<and> (\<forall>u. di_luks_uuid i = Some u \<longrightarrow> di_uuid i = Some u)"
  by (auto simp: probe_device_def rbind_eq_Inr split: if_splits)

text \<open>Devices under \<^verbatim>\<open>/dev\<close> with identifiers of their own give an inventory that identifies them.\<close>

lemma build_inventory_identifies:
  assumes "build_inventory env ds = Inr iv"
    and "list_all2 (\<lambda>d i. probe_device env (resolve_dev env d) = Inr i) ds is"
    and "distinct_ids (zip (map (resolve_dev env) ds) is)"
    and "\<And>d i. (d, i) \<in> set (zip (map (resolve_dev env) ds) is) \<Longrightarrow> starts_with d ''/dev/'' \<and> plain_word d \<and>
      (\<forall>u \<in> set_option (di_uuid i) \<union> set_option (di_partuuid i) \<union> set_option (di_label i). plain_word u)"
  shows "identifies iv"
proof -
  let ?D = "zip (map (resolve_dev env) ds) is"
  obtain is' where is': "list_all2 (\<lambda>d i. probe_device env (resolve_dev env d) = Inr i) ds is'"
      "index_devices env ds empty_index = Inr (foldl add_device empty_index (zip (map (resolve_dev env) ds) is'))"
    using assms(1) by (auto simp: build_inventory_def rbind_eq_Inr index_devices_fold)
  have "is' = is" using is'(1) assms(2) by (auto simp: list_all2_conv_all_nth intro!: nth_equalityI)
  then have iv: "iv = \<lparr>by_dev = map_of (rev ?D), by_uuid = first_with di_uuid ?D, by_partuuid = first_with di_partuuid ?D,
      by_label = (\<lambda>l. if 1 < length (filter (\<lambda>(d, i). di_label i = Some l) ?D) then None else first_with di_label ?D l)\<rparr>"
    using assms(1) is'(2) by (auto simp: build_inventory_def indexed)
  have dev: "di_dev i = d \<and> (\<forall>u. di_luks_uuid i = Some u \<longrightarrow> di_uuid i = Some u)" if "(d, i) \<in> set ?D" for d i
    using that assms(2) by (auto simp: set_zip list_all2_conv_all_nth dest!: probe_dev)
  have listed: "(d, i) \<in> set ?D" if "by_dev iv d = Some i" for d i
    using that map_of_SomeD [of "rev ?D" d i] iv by simp
  show ?thesis
    unfolding identifies_def
  proof (intro allI impI)
    fix d i assume "by_dev iv d = Some i"
    note D = listed [OF this]
    note ids = assms(3) [unfolded distinct_ids_def]
    note u = first_with_unique [OF _ D]
    have "1 < length (filter (\<lambda>(d, i). di_label i = Some l) ?D) \<Longrightarrow> di_label i \<noteq> Some l" for l
      using label_count [OF assms(3) D, of l] by auto
    then show "di_dev i = d \<and> (\<forall>u. di_luks_uuid i = Some u \<longrightarrow> di_uuid i = Some u) \<and> plain_word d \<and> starts_with d ''/dev/'' \<and>
        (\<forall>u. di_uuid i = Some u \<longrightarrow> by_uuid iv u = Some d \<and> plain_word u) \<and>
        (\<forall>u. di_partuuid i = Some u \<longrightarrow> by_partuuid iv u = Some d \<and> plain_word u) \<and>
        (\<forall>l. di_label i = Some l \<longrightarrow> by_label iv l = Some d \<and> plain_word l)"
      using assms(4) [OF D] dev [OF D] ids u [of di_uuid] u [of di_partuuid] u [of di_label] unfolding iv by auto
  qed
qed

end
