(* ===== verification/Fstab.thy ===== *)
theory Fstab
  imports Device_Inventory
begin

text \<open>
  The rewriting of \<^verbatim>\<open>/etc/fstab\<close> and \<^verbatim>\<open>/etc/crypttab\<close> for a migration, \<^verbatim>\<open>src/guestfs/fstab.rs\<close>.  A line that is
  an entry for a device of the inventory gets the device's canonical specification; every other line
  is kept.  White space is ASCII; warnings are left out.  Both rewriters satisfy the contract
  \<open>line_rewriter\<close>.
\<close>

record fstab_record =
  ft_spec :: string
  ft_mountpoint :: string
  ft_fstype :: string
  ft_options :: string
  ft_dump :: string
  ft_pass :: string

abbreviation TAB :: char where "TAB \<equiv> CHR 0x09"

text \<open>\<open>parts.get(i)\<close> with a default.\<close>

definition get_or :: "string list \<Rightarrow> nat \<Rightarrow> string \<Rightarrow> string" where
  "get_or ps i d = (if i < length ps then ps ! i else d)"

definition fstab_parse :: "string \<Rightarrow> fstab_record option" where
  "fstab_parse line =
     (let trimmed = trim line in
      if trimmed = [] \<or> starts_with trimmed ''#'' then None
      else
        (let parts = split_whitespace trimmed in
         if length parts < 4 then None
         else Some \<lparr>ft_spec = parts ! 0, ft_mountpoint = parts ! 1, ft_fstype = parts ! 2, ft_options = parts ! 3,
                    ft_dump = get_or parts 4 ''0'', ft_pass = get_or parts 5 ''0''\<rparr>))"

definition fstab_format :: "fstab_record \<Rightarrow> string" where
  "fstab_format e =
     ft_spec e @ [TAB] @ ft_mountpoint e @ [TAB] @ ft_fstype e @ [TAB] @ ft_options e @ [TAB] @ ft_dump e @ [TAB]
       @ ft_pass e @ [LF]"

definition needs_rewrite :: "fstab_record \<Rightarrow> bool" where
  "needs_rewrite e \<longleftrightarrow>
     starts_with (ft_spec e) ''/dev/sd'' \<or> starts_with (ft_spec e) ''/dev/vd'' \<or> starts_with (ft_spec e) ''/dev/nbd'' \<or>
     starts_with (ft_spec e) ''/dev/disk/by-path/'' \<or> starts_with (ft_spec e) ''/dev/hd'' \<or>
     starts_with (ft_spec e) ''/dev/mapper/''"

record crypttab_record =
  ct_name :: string
  ct_device :: string
  ct_keyfile :: string
  ct_options :: string

definition crypttab_parse :: "string \<Rightarrow> crypttab_record option" where
  "crypttab_parse line =
     (let trimmed = trim line in
      if trimmed = [] \<or> starts_with trimmed ''#'' then None
      else
        (let parts = split_whitespace trimmed in
         if length parts < 2 then None
         else Some \<lparr>ct_name = parts ! 0, ct_device = parts ! 1, ct_keyfile = get_or parts 2 ''none'',
                    ct_options = get_or parts 3 []\<rparr>))"

definition crypttab_format :: "crypttab_record \<Rightarrow> string" where
  "crypttab_format e =
     (if ct_options e = [] then ct_name e @ '' '' @ ct_device e @ '' '' @ ct_keyfile e @ [LF]
      else ct_name e @ '' '' @ ct_device e @ '' '' @ ct_keyfile e @ '' '' @ ct_options e @ [LF])"

subsection \<open>Mount options\<close>

definition option_items :: "string \<Rightarrow> string list" where
  "option_items opts = filter (\<lambda>s. s \<noteq> []) (map trim (split_on (CHR '','') opts))"

definition keeps_option :: "string \<Rightarrow> string \<Rightarrow> bool" where
  "keeps_option key i \<longleftrightarrow> i \<noteq> key \<and> \<not> starts_with i (key @ ''='')"

definition remove_mount_option :: "string \<Rightarrow> string \<Rightarrow> string" where
  "remove_mount_option opts key = join '','' (filter (keeps_option key) (option_items opts))"

definition set_mount_option :: "string \<Rightarrow> string \<Rightarrow> string \<Rightarrow> string" where
  "set_mount_option opts key kv =
     (let cleaned = remove_mount_option opts key in if cleaned = [] then kv else cleaned @ '','' @ kv)"

subsection \<open>Rewriting\<close>

definition new_spec :: "dev_info \<Rightarrow> fstab_record \<Rightarrow> string" where
  "new_spec info e =
     (let spec = (if ft_fstype e = ''swap''
                  then (case di_uuid info of Some u \<Rightarrow> ''UUID='' @ u | None \<Rightarrow> canonical_spec info (ft_mountpoint e))
                  else canonical_spec info (ft_mountpoint e))
      in if ft_fstype e = ''btrfs'' \<and> \<not> is_partition info
         then (case di_uuid info of Some u \<Rightarrow> ''UUID='' @ u | None \<Rightarrow> spec)
         else spec)"

definition new_options :: "(string \<rightharpoonup> string) \<Rightarrow> fstab_record \<Rightarrow> string" where
  "new_options subvols e =
     (if ft_fstype e = ''btrfs''
      then (case subvols (ft_mountpoint e) of
              Some subvol \<Rightarrow>
                remove_mount_option (set_mount_option (ft_options e) ''subvol'' (''subvol='' @ subvol)) ''subvolid''
            | None \<Rightarrow> ft_options e)
      else ft_options e)"

definition fstab_line :: "probe_env \<Rightarrow> inventory \<Rightarrow> (string \<rightharpoonup> string) \<Rightarrow> string \<Rightarrow> string" where
  "fstab_line env iv subvols line =
     (case fstab_parse line of
        None \<Rightarrow> line @ [LF]
      | Some e \<Rightarrow>
          (case find_by_spec env iv (ft_spec e) of
             None \<Rightarrow> line @ [LF]
           | Some info \<Rightarrow>
               fstab_format (e\<lparr>ft_options := new_options subvols e, ft_spec := new_spec info e\<rparr>)))"

text \<open>The file is what reading it gave; the result is the text written back.\<close>

definition rewrite_fstab ::
    "probe_env \<Rightarrow> inventory \<Rightarrow> (string \<rightharpoonup> string) \<Rightarrow> (string, string) result \<Rightarrow> (gk_error, string) result" where
  "rewrite_fstab env iv subvols file =
     (case file of
        Inl e \<Rightarrow> Inl (ENotFound (''Cannot read fstab: '' @ e))
      | Inr content \<Rightarrow> Inr (rewrite_text (fstab_line env iv subvols) content))"

definition crypttab_device :: "dev_info \<Rightarrow> string \<Rightarrow> string" where
  "crypttab_device info old =
     (case di_luks_uuid info of Some u \<Rightarrow> ''UUID='' @ u
      | None \<Rightarrow> (case di_uuid info of Some u \<Rightarrow> ''UUID='' @ u | None \<Rightarrow> old))"

definition crypttab_line :: "probe_env \<Rightarrow> inventory \<Rightarrow> string \<Rightarrow> string" where
  "crypttab_line env iv line =
     (case crypttab_parse line of
        None \<Rightarrow> line @ [LF]
      | Some e \<Rightarrow>
          (case find_by_spec env iv (ct_device e) of
             None \<Rightarrow> line @ [LF]
           | Some info \<Rightarrow> crypttab_format (e\<lparr>ct_device := crypttab_device info (ct_device e)\<rparr>)))"

text \<open>A missing file is left alone; otherwise as for fstab.\<close>

definition rewrite_crypttab ::
    "probe_env \<Rightarrow> inventory \<Rightarrow> (string, string) result option \<Rightarrow> (gk_error, string option) result" where
  "rewrite_crypttab env iv file =
     (case file of
        None \<Rightarrow> Inr None
      | Some (Inl e) \<Rightarrow> Inl (ENotFound (''Cannot read crypttab: '' @ e))
      | Some (Inr content) \<Rightarrow> Inr (Some (rewrite_text (crypttab_line env iv) content)))"

subsection \<open>Entries\<close>

definition entry_ok :: "fstab_record \<Rightarrow> bool" where
  "entry_ok e \<longleftrightarrow> plain_word (ft_spec e) \<and> \<not> starts_with (ft_spec e) ''#'' \<and> plain_word (ft_mountpoint e) \<and>
     plain_word (ft_fstype e) \<and> plain_word (ft_options e) \<and> plain_word (ft_dump e) \<and> plain_word (ft_pass e)"

lemma trim_first_word:
  assumes "trim line \<noteq> []" "\<not> starts_with (trim line) ''#''" "split_whitespace (trim line) = w # ws"
  shows "\<not> starts_with w ''#''"
proof -
  obtain c cs where t: "trim line = c # cs" using assms(1) by (cases "trim line") auto
  have "\<not> is_space c"
  proof -
    have "trim_start line \<noteq> []" using assms(1) by (auto simp: trim_def)
    then have "\<not> is_space (hd (trim_start line))"
      unfolding trim_start_def by (metis hd_dropWhile)
    moreover have "prefix (trim line) (trim_start line)"
      unfolding trim_def by (metis rev_rev_ident suffix_dropWhile suffix_to_prefix)
    then have "hd (trim_start line) = c" using t by (auto simp: prefix_def)
    ultimately show ?thesis by simp
  qed
  have "prefix x w" if "words_from x s = w # ws" "x \<noteq> []" for x s
    using that by (induction x s rule: words_from.induct) (auto split: if_splits simp: prefix_def)
  moreover have "words_from [c] cs = w # ws" using assms(3) t \<open>\<not> is_space c\<close> by (simp add: split_whitespace_def)
  ultimately have "prefix [c] w" by simp
  then show ?thesis using assms(2) t by (auto simp: starts_with_def prefix_def)
qed

lemma get_or_plain:
  assumes "\<forall>x \<in> set ps. plain_word x" "plain_word d"
  shows "plain_word (get_or ps i d)"
  using assms by (simp add: get_or_def)

lemma fstab_parse_ok:
  assumes "fstab_parse line = Some e"
  shows "entry_ok e"
proof -
  define ps where "ps = split_whitespace (trim line)"
  have t: "trim line \<noteq> []" "\<not> starts_with (trim line) ''#''" and l: "4 \<le> length ps"
    and e: "e = \<lparr>ft_spec = ps ! 0, ft_mountpoint = ps ! 1, ft_fstype = ps ! 2, ft_options = ps ! 3,
      ft_dump = get_or ps 4 ''0'', ft_pass = get_or ps 5 ''0''\<rparr>"
    using assms by (auto simp: fstab_parse_def Let_def ps_def split: if_splits)
  have plain: "\<forall>x \<in> set ps. plain_word x" unfolding ps_def using split_whitespace_plain by blast
  have "plain_word ''0''" by (simp add: plain_word_def is_space_def)
  note g = get_or_plain [OF plain this]
  have w: "plain_word (ps ! i)" if "i < 4" for i using plain l that by simp
  obtain x xs where ps: "ps = x # xs" using l by (cases ps) auto
  have "\<not> starts_with (ps ! 0) ''#''"
    using trim_first_word [OF t, of x xs] ps unfolding ps_def by simp
  then show ?thesis unfolding e entry_ok_def using w [of 0] w [of 1] w [of 2] w [of 3] g [of 4] g [of 5] by simp
qed

lemma fstab_format_join:
  "fstab_format e = join [TAB] [ft_spec e, ft_mountpoint e, ft_fstype e, ft_options e, ft_dump e, ft_pass e] @ [LF]"
  by (simp add: fstab_format_def)

text \<open>Reading back a formatted entry.\<close>

lemma fstab_parse_format:
  assumes "entry_ok e"
  shows "fstab_parse (butlast (fstab_format e)) = Some e"
proof -
  let ?ws = "[ft_spec e, ft_mountpoint e, ft_fstype e, ft_options e, ft_dump e, ft_pass e]"
  have p: "plain_word x" if "x \<in> set ?ws" for x using that assms by (auto simp: entry_ok_def)
  have l: "butlast (fstab_format e) = join [TAB] ?ws" unfolding fstab_format_join by (rule butlast_snoc)
  have t: "trim (join [TAB] ?ws) = join [TAB] ?ws" by (rule trim_join) (use p in auto)
  have s: "split_whitespace (join [TAB] ?ws) = ?ws"
    by (rule split_whitespace_join) (use p in \<open>auto simp: is_space_def\<close>)
  have h: "join [TAB] ?ws \<noteq> []" "\<not> starts_with (join [TAB] ?ws) ''#''"
    using assms by (cases "ft_spec e"; auto simp: entry_ok_def plain_word_def starts_with_def)+
  show ?thesis
    unfolding l fstab_parse_def t Let_def s using h by (simp add: get_or_def)
qed

subsection \<open>Options\<close>

definition clean_item :: "string \<Rightarrow> bool" where
  "clean_item i \<longleftrightarrow> plain_word i \<and> CHR '','' \<notin> set i"

text \<open>Subvolume names that can be written as an option.\<close>

definition subvols_ok :: "(string \<rightharpoonup> string) \<Rightarrow> bool" where
  "subvols_ok subvols \<longleftrightarrow> (\<forall>v \<in> ran subvols. \<forall>c \<in> set v. \<not> is_space c \<and> c \<noteq> CHR '','')"

lemma option_items_clean:
  assumes "plain_word opts"
  shows "\<forall>i \<in> set (option_items opts). clean_item i"
proof
  fix i assume "i \<in> set (option_items opts)"
  then obtain p where p: "p \<in> set (split_on (CHR '','') opts)" "i = trim p" "i \<noteq> []"
    by (auto simp: option_items_def)
  have "CHR '','' \<notin> set p" "set p \<subseteq> set opts" using split_on_parts [OF p(1)] by simp_all
  moreover have "p \<noteq> []" using p(2, 3) by (auto simp: trim_def trim_start_def)
  ultimately have "plain_word p" using assms by (auto simp: plain_word_def)
  then show "clean_item i" using p(2) \<open>CHR '','' \<notin> set p\<close> by (simp add: clean_item_def)
qed

lemma option_items_join:
  assumes "\<forall>i \<in> set is. clean_item i"
  shows "option_items (join '','' is) = is"
proof (cases "is = []")
  case True
  then show ?thesis by (simp add: option_items_def trim_def trim_start_def)
next
  case False
  have "split_on (CHR '','') (join '','' is) = is"
    by (rule split_on_join [OF False]) (use assms in \<open>simp add: clean_item_def\<close>)
  moreover have "map trim is = is" by (rule map_idI) (use assms in \<open>simp add: clean_item_def\<close>)
  moreover have "filter (\<lambda>s. s \<noteq> []) is = is" using assms by (auto simp: clean_item_def plain_word_def filter_id_conv)
  ultimately show ?thesis by (simp add: option_items_def)
qed

lemma join_snoc: "join sep (is @ [k]) = (if is = [] then k else join sep is @ sep @ k)"
  by (induction sep "is" rule: join.induct) auto

lemma join_eq_Nil: "\<forall>i \<in> set is. clean_item i \<Longrightarrow> join '','' is = [] \<longleftrightarrow> is = []"
  using join_ends [of "is" "'',''"] by (cases "is = []") (auto simp: clean_item_def plain_word_def)

lemma clean_subvol:
  assumes "subvols_ok subvols" "subvols mp = Some v"
  shows "clean_item (''subvol='' @ v)" "keeps_option ''subvolid'' (''subvol='' @ v)"
    "\<not> keeps_option ''subvol'' (''subvol='' @ v)"
  using assms by (auto simp: subvols_ok_def clean_item_def plain_word_def ran_def is_space_def keeps_option_def starts_with_def)

text \<open>The options of a btrfs entry with a configured subvolume, as a list.\<close>

definition subvol_items :: "string \<Rightarrow> string \<Rightarrow> string list" where
  "subvol_items opts v =
     filter (\<lambda>i. keeps_option ''subvol'' i \<and> keeps_option ''subvolid'' i) (option_items opts) @ [''subvol='' @ v]"

lemma new_options_items:
  assumes "plain_word (ft_options e)" "subvols_ok subvols"
  shows "new_options subvols e =
    (if ft_fstype e = ''btrfs'' \<and> subvols (ft_mountpoint e) \<noteq> None
     then join '','' (subvol_items (ft_options e) (the (subvols (ft_mountpoint e)))) else ft_options e)"
proof (cases "ft_fstype e = ''btrfs'' \<and> subvols (ft_mountpoint e) \<noteq> None")
  case True
  then obtain v where v: "subvols (ft_mountpoint e) = Some v" by blast
  let ?kv = "''subvol='' @ v" and ?L = "filter (keeps_option ''subvol'') (option_items (ft_options e))"
  note kv = clean_subvol [OF assms(2) v]
  have L: "\<forall>i \<in> set ?L. clean_item i" using option_items_clean [OF assms(1)] by simp
  have "set_mount_option (ft_options e) ''subvol'' ?kv = join '','' (?L @ [?kv])"
    unfolding set_mount_option_def remove_mount_option_def Let_def join_snoc using join_eq_Nil [OF L] by simp
  moreover have "option_items (join '','' (?L @ [?kv])) = ?L @ [?kv]"
    by (rule option_items_join) (use L kv(1) in auto)
  ultimately have "remove_mount_option (set_mount_option (ft_options e) ''subvol'' ?kv) ''subvolid'' =
      join '','' (filter (keeps_option ''subvolid'') (?L @ [?kv]))"
    unfolding remove_mount_option_def by (simp only:)
  moreover have "filter (keeps_option ''subvolid'') (?L @ [?kv]) = subvol_items (ft_options e) v"
    unfolding subvol_items_def filter_append filter_filter using kv(2) by (simp only: filter.simps if_True)
  ultimately show ?thesis using True v unfolding new_options_def by (simp only: option.case option.sel simp_thms if_True)
next
  case False
  then show ?thesis by (auto simp: new_options_def split: option.splits)
qed

lemma subvol_items_clean:
  assumes "plain_word opts" "subvols_ok subvols" "subvols mp = Some v"
  shows "\<forall>i \<in> set (subvol_items opts v). clean_item i"
  using option_items_clean [OF assms(1)] clean_subvol(1) [OF assms(2, 3)] by (auto simp: subvol_items_def)

lemma subvol_items_idem:
  assumes "plain_word opts" "subvols_ok subvols" "subvols mp = Some v"
  shows "subvol_items (join '','' (subvol_items opts v)) v = subvol_items opts v"
proof -
  have "option_items (join '','' (subvol_items opts v)) = subvol_items opts v"
    by (rule option_items_join [OF subvol_items_clean [OF assms]])
  then show ?thesis
    unfolding subvol_items_def [of "join _ _"]
    using clean_subvol(3) [OF assms(2, 3)]
    by (simp only: subvol_items_def filter_append filter_filter filter.simps simp_thms if_False append_Nil2 conj_assoc)
qed

lemma plain_join: "is \<noteq> [] \<Longrightarrow> \<forall>i \<in> set is. clean_item i \<Longrightarrow> plain_word (join '','' is)"
proof -
  assume a: "is \<noteq> []" "\<forall>i \<in> set is. clean_item i"
  then have "join '','' is \<noteq> []" using join_eq_Nil by blast
  moreover have "\<not> is_space c" if "c \<in> set (join '','' is)" for c
    using that set_join [of "'',''" "is"] a(2) by (auto simp: clean_item_def plain_word_def is_space_def)
  ultimately show ?thesis by (simp add: plain_word_def)
qed

lemma new_options_plain:
  assumes "plain_word (ft_options e)" "subvols_ok subvols"
  shows "plain_word (new_options subvols e)"
  using new_options_items [OF assms] assms(1) plain_join [OF _ subvol_items_clean [OF assms]]
  by (auto simp: subvol_items_def)

lemma new_options_idem:
  assumes "plain_word (ft_options e)" "subvols_ok subvols"
  shows "new_options subvols (e\<lparr>ft_options := new_options subvols e, ft_spec := s\<rparr>) = new_options subvols e"
proof -
  let ?e = "e\<lparr>ft_options := new_options subvols e, ft_spec := s\<rparr>"
  have "plain_word (ft_options ?e)" using new_options_plain [OF assms] by simp
  note items = new_options_items [OF this assms(2)] new_options_items [OF assms]
  show ?thesis
    unfolding items(1) using items(2) subvol_items_idem [OF assms] by auto
qed

subsection \<open>A rewritten entry\<close>

lemma new_spec_found:
  assumes "identifies iv" "find_by_spec env iv s = Some info"
  shows "find_by_spec env iv (new_spec info e) = Some info" "plain_word (new_spec info e)"
proof -
  obtain dev where d: "by_dev iv dev = Some info" using find_by_spec_listed [OF assms(2)] by blast
  note c = canonical_spec_found [OF assms(1) d] and u = uuid_spec_found [OF assms(1) d]
  have "find_by_spec env iv (new_spec info e) = Some info \<and> plain_word (new_spec info e)"
    unfolding new_spec_def Let_def using c u by (cases "di_uuid info") simp_all
  then show "find_by_spec env iv (new_spec info e) = Some info" "plain_word (new_spec info e)" by simp_all
qed

lemma new_spec_other: "new_spec info (e\<lparr>ft_options := opts, ft_spec := s\<rparr>) = new_spec info e"
  by (cases "di_uuid info") (simp_all add: new_spec_def)

lemma found_not_comment:
  assumes "find_by_spec env iv s = Some info" "plain_word s"
  shows "\<not> starts_with s ''#''"
proof
  assume "starts_with s ''#''"
  then obtain r where "s = CHR ''#'' # r" by (auto simp: starts_with_def prefix_def)
  then show False
    using assms by (simp add: find_by_spec_def strip_prefix_def starts_with_def)
qed

definition rewritten_entry :: "(string \<rightharpoonup> string) \<Rightarrow> dev_info \<Rightarrow> fstab_record \<Rightarrow> fstab_record" where
  "rewritten_entry subvols info e = e\<lparr>ft_options := new_options subvols e, ft_spec := new_spec info e\<rparr>"

lemma rewritten_entry_ok:
  assumes "identifies iv" "subvols_ok subvols" "entry_ok e" "find_by_spec env iv (ft_spec e) = Some info"
  shows "entry_ok (rewritten_entry subvols info e)"
    and "find_by_spec env iv (ft_spec (rewritten_entry subvols info e)) = Some info"
    and "rewritten_entry subvols info (rewritten_entry subvols info e) = rewritten_entry subvols info e"
proof -
  note s = new_spec_found [OF assms(1, 4), of e]
  have o: "plain_word (ft_options e)" using assms(3) by (simp add: entry_ok_def)
  show "entry_ok (rewritten_entry subvols info e)"
    using assms(3) s found_not_comment [OF s] new_options_plain [OF o assms(2)]
    by (simp add: entry_ok_def rewritten_entry_def)
  show "find_by_spec env iv (ft_spec (rewritten_entry subvols info e)) = Some info"
    using s by (simp add: rewritten_entry_def)
  show "rewritten_entry subvols info (rewritten_entry subvols info e) = rewritten_entry subvols info e"
    unfolding rewritten_entry_def new_options_idem [OF o assms(2)] by (simp add: new_spec_other)
qed

lemma entry_one_line:
  assumes "entry_ok e"
  shows "one_line (butlast (fstab_format e))"
proof -
  have "c \<noteq> LF \<and> c \<noteq> CHR 0x0D" if "plain_word w" "c \<in> set w" for c w
    using that by (auto simp: plain_word_def is_space_def)
  then show ?thesis
    using assms unfolding entry_ok_def fstab_format_join butlast_snoc one_line_def by fastforce
qed

text \<open>What a line becomes.\<close>

lemma fstab_line_cases:
  obtains (kept) "fstab_line env iv subvols l = l @ [LF]"
      "fstab_parse l = None \<or> (\<exists>e. fstab_parse l = Some e \<and> find_by_spec env iv (ft_spec e) = None)"
  | (changed) e info where "fstab_parse l = Some e" "find_by_spec env iv (ft_spec e) = Some info"
      "fstab_line env iv subvols l = fstab_format (rewritten_entry subvols info e)"
proof (cases "fstab_parse l")
  case None
  then show ?thesis using kept by (simp add: fstab_line_def)
next
  case (Some e)
  then show ?thesis
    using kept changed by (cases "find_by_spec env iv (ft_spec e)") (simp_all add: fstab_line_def rewritten_entry_def)
qed

lemma fstab_line_rewritten:
  assumes "identifies iv \<and> subvols_ok subvols" "one_line l"
  shows "\<exists>b. fstab_line env iv subvols l = b @ [LF] \<and> one_line b \<and> (identifies iv \<and> subvols_ok subvols) \<and>
    fstab_line env iv subvols b = fstab_line env iv subvols l"
proof (cases rule: fstab_line_cases [of env iv subvols l])
  case kept
  then show ?thesis using assms by auto
next
  case (changed e info)
  let ?e = "rewritten_entry subvols info e"
  note ok = rewritten_entry_ok [OF conjunct1 [OF assms(1)] conjunct2 [OF assms(1)] fstab_parse_ok [OF changed(1)] changed(2)]
  have p: "fstab_parse (butlast (fstab_format ?e)) = Some ?e" by (rule fstab_parse_format [OF ok(1)])
  have "fstab_line env iv subvols (butlast (fstab_format ?e)) = fstab_format (rewritten_entry subvols info ?e)"
    unfolding fstab_line_def p option.case ok(2) by (simp add: rewritten_entry_def)
  then have "fstab_line env iv subvols (butlast (fstab_format ?e)) = fstab_line env iv subvols l"
    unfolding ok(3) changed(3) .
  moreover have "fstab_format ?e = butlast (fstab_format ?e) @ [LF]" unfolding fstab_format_join butlast_snoc ..
  ultimately show ?thesis using changed(3) entry_one_line [OF ok(1)] assms(1) by metis
qed

interpretation fstab: line_rewriter "fstab_line env iv subvols" "\<lambda>_. identifies iv \<and> subvols_ok subvols"
  for env iv subvols
  by unfold_locales (rule fstab_line_rewritten)

subsection \<open>The crypttab rewriter\<close>

definition crypt_ok :: "crypttab_record \<Rightarrow> bool" where
  "crypt_ok e \<longleftrightarrow> plain_word (ct_name e) \<and> \<not> starts_with (ct_name e) ''#'' \<and> plain_word (ct_device e) \<and>
     plain_word (ct_keyfile e) \<and> (ct_options e = [] \<or> plain_word (ct_options e))"

abbreviation crypt_fields :: "crypttab_record \<Rightarrow> string list" where
  "crypt_fields e \<equiv> [ct_name e, ct_device e, ct_keyfile e] @ (if ct_options e = [] then [] else [ct_options e])"

lemma crypttab_parse_ok:
  assumes "crypttab_parse line = Some e"
  shows "crypt_ok e"
proof -
  define ps where "ps = split_whitespace (trim line)"
  have t: "trim line \<noteq> []" "\<not> starts_with (trim line) ''#''" and l: "2 \<le> length ps"
    and e: "e = \<lparr>ct_name = ps ! 0, ct_device = ps ! 1, ct_keyfile = get_or ps 2 ''none'', ct_options = get_or ps 3 []\<rparr>"
    using assms by (auto simp: crypttab_parse_def Let_def ps_def split: if_splits)
  have plain: "\<forall>x \<in> set ps. plain_word x" unfolding ps_def using split_whitespace_plain by blast
  have "plain_word ''none''" by (simp add: plain_word_def is_space_def)
  note g = get_or_plain [OF plain this, of 2]
  have o: "get_or ps 3 [] = [] \<or> plain_word (get_or ps 3 [])" using plain by (simp add: get_or_def)
  have w: "plain_word (ps ! i)" if "i < 2" for i using plain l that by simp
  obtain x xs where ps: "ps = x # xs" using l by (cases ps) auto
  have "\<not> starts_with (ps ! 0) ''#''"
    using trim_first_word [OF t, of x xs] ps unfolding ps_def by simp
  then show ?thesis unfolding e crypt_ok_def using w [of 0] w [of 1] g o by simp
qed

lemma crypttab_format_join: "crypttab_format e = join [CHR '' ''] (crypt_fields e) @ [LF]"
  by (simp add: crypttab_format_def)

lemma fields_line:
  assumes "ws \<noteq> []" "\<forall>x \<in> set ws. plain_word x" "\<not> starts_with (hd ws) ''#''"
  shows "trim (join [CHR '' ''] ws) = join [CHR '' ''] ws" "split_whitespace (join [CHR '' ''] ws) = ws"
    "join [CHR '' ''] ws \<noteq> []" "\<not> starts_with (join [CHR '' ''] ws) ''#''" "one_line (join [CHR '' ''] ws)"
proof -
  let ?s = "join [CHR '' ''] ws"
  have ne: "\<forall>x \<in> set ws. x \<noteq> []" using assms(2) by (simp add: plain_word_def)
  show "trim ?s = ?s" by (rule trim_join [OF assms(1)]) (use assms(2) in blast)
  show "split_whitespace ?s = ws"
    by (rule split_whitespace_join) (use assms(2) in \<open>auto simp: is_space_def\<close>)
  have ends: "?s \<noteq> [] \<and> hd ?s = hd (hd ws) \<and> last ?s = last (last ws)" by (rule join_ends [OF assms(1)]) (use ne in blast)
  then show "?s \<noteq> []" by simp
  have "hd ws \<noteq> []" using ne assms(1) by simp
  then have "hd (hd ws) \<noteq> CHR ''#''" using assms(3) by (cases "hd ws") (auto simp: starts_with_def)
  then show "\<not> starts_with ?s ''#''" using ends by (cases ?s) (auto simp: starts_with_def)
  have "c = CHR '' '' \<or> \<not> is_space c" if "c \<in> set ?s" for c
    using that set_join [of "[CHR '' '']" ws] assms(2) by (auto simp: plain_word_def)
  moreover have "is_space LF" "is_space (CHR 0x0D)" by (simp_all add: is_space_def)
  ultimately show "one_line ?s" unfolding one_line_def by fastforce
qed

lemma crypttab_parse_format:
  assumes "crypt_ok e"
  shows "crypttab_parse (butlast (crypttab_format e)) = Some e" "one_line (butlast (crypttab_format e))"
proof -
  have l: "butlast (crypttab_format e) = join [CHR '' ''] (crypt_fields e)"
    unfolding crypttab_format_join by (rule butlast_snoc)
  have "\<forall>x \<in> set (crypt_fields e). plain_word x" using assms by (cases "ct_options e = []") (simp_all add: crypt_ok_def)
  moreover have "\<not> starts_with (hd (crypt_fields e)) ''#''" using assms by (simp add: crypt_ok_def)
  ultimately have f: "trim (join [CHR '' ''] (crypt_fields e)) = join [CHR '' ''] (crypt_fields e)"
    "split_whitespace (join [CHR '' ''] (crypt_fields e)) = crypt_fields e" "join [CHR '' ''] (crypt_fields e) \<noteq> []"
    "\<not> starts_with (join [CHR '' ''] (crypt_fields e)) ''#''" "one_line (join [CHR '' ''] (crypt_fields e))"
    by (intro fields_line; simp)+
  have g: "get_or (crypt_fields e) 2 d = ct_keyfile e" "get_or (crypt_fields e) 3 [] = ct_options e" for d
    by (simp_all add: get_or_def)
  have n: "\<not> length (crypt_fields e) < 2" "crypt_fields e ! 0 = ct_name e" "crypt_fields e ! 1 = ct_device e" by simp_all
  show "crypttab_parse (butlast (crypttab_format e)) = Some e"
    unfolding l crypttab_parse_def f(1) Let_def f(2) g n(2, 3) using f(3, 4) n(1) by (simp only: simp_thms if_False) simp
  show "one_line (butlast (crypttab_format e))" unfolding l by (rule f(5))
qed

lemma crypttab_device_found:
  assumes "identifies iv" "find_by_spec env iv old = Some info" "plain_word old"
  shows "find_by_spec env iv (crypttab_device info old) = Some info" "plain_word (crypttab_device info old)"
proof -
  obtain dev where d: "by_dev iv dev = Some info" using find_by_spec_listed [OF assms(2)] by blast
  have luks: "di_uuid info = Some u" if "di_luks_uuid info = Some u" for u
    using assms(1) d that unfolding identifies_def by blast
  show "find_by_spec env iv (crypttab_device info old) = Some info" "plain_word (crypttab_device info old)"
    unfolding crypttab_device_def using luks uuid_spec_found [OF assms(1) d] assms(2, 3)
    by (cases "di_luks_uuid info"; cases "di_uuid info"; simp)+
qed

lemma crypttab_line_rewritten:
  assumes "identifies iv" "one_line l"
  shows "\<exists>b. crypttab_line env iv l = b @ [LF] \<and> one_line b \<and> identifies iv \<and> crypttab_line env iv b = crypttab_line env iv l"
proof (cases "\<exists>e info. crypttab_parse l = Some e \<and> find_by_spec env iv (ct_device e) = Some info")
  case False
  then have "crypttab_line env iv l = l @ [LF]" by (auto simp: crypttab_line_def split: option.splits)
  then show ?thesis using assms by auto
next
  case True
  then obtain e info where e: "crypttab_parse l = Some e" "find_by_spec env iv (ct_device e) = Some info" by blast
  let ?e = "e\<lparr>ct_device := crypttab_device info (ct_device e)\<rparr>"
  have ok: "crypt_ok e" by (rule crypttab_parse_ok [OF e(1)])
  note d = crypttab_device_found [OF assms(1) e(2)]
  have "crypt_ok ?e" using ok d by (simp add: crypt_ok_def)
  note p = crypttab_parse_format [OF this]
  have l: "crypttab_line env iv l = crypttab_format ?e" using e by (simp add: crypttab_line_def)
  have "find_by_spec env iv (ct_device ?e) = Some info" using d(1) ok by (simp add: crypt_ok_def)
  then have "crypttab_line env iv (butlast (crypttab_format ?e)) =
      crypttab_format (?e\<lparr>ct_device := crypttab_device info (ct_device ?e)\<rparr>)"
    unfolding crypttab_line_def p(1) option.case by (simp only: option.case)
  also have "?e\<lparr>ct_device := crypttab_device info (ct_device ?e)\<rparr> = ?e"
    by (cases "di_luks_uuid info"; cases "di_uuid info") (simp_all add: crypttab_device_def)
  finally have "crypttab_line env iv (butlast (crypttab_format ?e)) = crypttab_line env iv l" using l by simp
  moreover have "crypttab_format ?e = butlast (crypttab_format ?e) @ [LF]" unfolding crypttab_format_join butlast_snoc ..
  ultimately show ?thesis using l p(2) assms(1) by metis
qed

interpretation crypttab: line_rewriter "crypttab_line env iv" "\<lambda>_. identifies iv" for env iv
  by unfold_locales (rule crypttab_line_rewritten)

subsection \<open>Properties\<close>

text \<open>What may happen to a line: everything but an entry of a listed device stays; such an entry keeps its place in
  the file system and its device, and is named by an identifier if the device has one.\<close>

definition same_mount :: "probe_env \<Rightarrow> inventory \<Rightarrow> (string \<rightharpoonup> string) \<Rightarrow> string \<Rightarrow> string \<Rightarrow> bool" where
  "same_mount env iv subvols old new =
     (case fstab_parse old of
        None \<Rightarrow> new = old
      | Some e \<Rightarrow>
          (case fstab_parse new of
             None \<Rightarrow> False
           | Some e' \<Rightarrow>
               ft_mountpoint e' = ft_mountpoint e \<and> ft_fstype e' = ft_fstype e \<and> ft_dump e' = ft_dump e \<and>
               ft_pass e' = ft_pass e \<and>
               find_by_spec env iv (ft_spec e') = find_by_spec env iv (ft_spec e) \<and>
               (case find_by_spec env iv (ft_spec e) of
                  None \<Rightarrow> new = old
                | Some info \<Rightarrow>
                    (if ft_fstype e = ''btrfs'' \<and> subvols (ft_mountpoint e) \<noteq> None
                     then option_items (ft_options e') =
                            subvol_items (ft_options e) (the (subvols (ft_mountpoint e)))
                     else ft_options e' = ft_options e) \<and>
                    (di_uuid info = None \<and> di_partuuid info = None \<and> di_label info = None \<or>
                     needs_rewrite e' = False))))"

lemma identified_spec:
  assumes "di_uuid info \<noteq> None \<or> di_partuuid info \<noteq> None \<or> di_label info \<noteq> None"
  shows "\<not> needs_rewrite (e\<lparr>ft_spec := new_spec info e\<rparr>)"
proof -
  have "hd (new_spec info e) \<noteq> CHR ''/''"
    using assms unfolding new_spec_def canonical_spec_def prefer_partuuid_def is_partition_def Let_def
    by (cases "di_uuid info"; cases "di_partuuid info"; cases "di_label info") simp_all
  moreover have "hd (ft_spec f) = CHR ''/''" if "needs_rewrite f" for f
    using that unfolding needs_rewrite_def starts_with_def prefix_def by (elim disjE exE) simp_all
  ultimately show ?thesis by fastforce
qed

lemma fstab_line_same_mount:
  assumes "identifies iv" "subvols_ok subvols"
  shows "same_mount env iv subvols l (butlast (fstab_line env iv subvols l))"
proof (cases rule: fstab_line_cases [of env iv subvols l])
  case kept
  then have "butlast (fstab_line env iv subvols l) = l" by simp
  then show ?thesis using kept(2) by (auto simp: same_mount_def)
next
  case (changed e info)
  let ?e = "rewritten_entry subvols info e"
  have e: "entry_ok e" by (rule fstab_parse_ok [OF changed(1)])
  note ok = rewritten_entry_ok [OF assms e changed(2)]
  have p: "fstab_parse (butlast (fstab_line env iv subvols l)) = Some ?e"
    unfolding changed(3) by (rule fstab_parse_format [OF ok(1)])
  have o: "plain_word (ft_options e)" using e by (simp add: entry_ok_def)
  have "option_items (new_options subvols e) = subvol_items (ft_options e) v"
    if "ft_fstype e = ''btrfs''" "subvols (ft_mountpoint e) = Some v" for v
    using that new_options_items [OF o assms(2)] option_items_join [OF subvol_items_clean [OF o assms(2) that(2)]] by simp
  moreover have "new_options subvols e = ft_options e" if "\<not> (ft_fstype e = ''btrfs'' \<and> subvols (ft_mountpoint e) \<noteq> None)"
    unfolding new_options_items [OF o assms(2)] by (rule if_not_P [OF that])
  moreover have "needs_rewrite ?e = needs_rewrite (e\<lparr>ft_spec := new_spec info e\<rparr>)"
    by (simp add: needs_rewrite_def rewritten_entry_def)
  then have "di_uuid info = None \<and> di_partuuid info = None \<and> di_label info = None \<or> needs_rewrite ?e = False"
    using identified_spec [of info e] by blast
  ultimately show ?thesis
    unfolding same_mount_def changed(1) p option.case ok(2) changed(2)
    by (simp add: rewritten_entry_def)
qed

text \<open>
  Claim C17.  Rewriting fstab keeps the meaning of the file: the lines correspond one to one, a line
  that is not an entry of a listed device is unchanged, and an entry of one still mounts the same device at the same
  place with the same type, flags and options, up to the configured btrfs subvolume; listed devices with an
  identifier are named by it and not by a device path.  It holds under these conditions: the inventory was built from
  devices under \<^verbatim>\<open>/dev\<close>, all of which could be probed; no two of them share an identifier; their names and identifiers are
  words without white space; the configured subvolumes are clean; and the file has no carriage return.
\<close>

theorem fstab_rewrite_same_mounts:
  assumes "build_inventory env ds = Inr iv"
    and "list_all2 (\<lambda>d i. probe_device env (resolve_dev env d) = Inr i) ds is"
    and "distinct_ids (zip (map (resolve_dev env) ds) is)"
    and "\<And>d i. (d, i) \<in> set (zip (map (resolve_dev env) ds) is) \<Longrightarrow> starts_with d ''/dev/'' \<and> plain_word d \<and>
      (\<forall>u \<in> set_option (di_uuid i) \<union> set_option (di_partuuid i) \<union> set_option (di_label i). plain_word u)"
    and "subvols_ok subvols" "CHR 0x0D \<notin> set content"
  shows "\<exists>text. rewrite_fstab env iv subvols (Inr content) = Inr text \<and>
    list_all2 (same_mount env iv subvols) (lines content) (lines text)"
proof -
  have iv: "identifies iv" by (rule build_inventory_identifies [OF assms(1-3)]) (rule assms(4))
  have "lines (rewrite_text (fstab_line env iv subvols) content) =
      map (\<lambda>l. butlast (fstab_line env iv subvols l)) (lines content)"
    using fstab.lines_rewrite_text [of content iv subvols env] iv assms(5, 6) by (simp add: fstab.body_def)
  then show ?thesis
    using fstab_line_same_mount [OF iv assms(5), of env] by (simp add: rewrite_fstab_def list_all2_conv_all_nth)
qed

text \<open>
  Rewriting is idempotent: a second run over the rewritten fstab, or crypttab, changes
  nothing.
\<close>

theorem rewrite_idempotent:
  assumes "identifies iv" "subvols_ok subvols" "CHR 0x0D \<notin> set content"
  shows "rbind (rewrite_fstab env iv subvols (Inr content)) (\<lambda>text. rewrite_fstab env iv subvols (Inr text)) =
      rewrite_fstab env iv subvols (Inr content) \<and>
    rbind (rewrite_crypttab env iv (Some (Inr content))) (\<lambda>text. rewrite_crypttab env iv (map_option Inr text)) =
      rewrite_crypttab env iv (Some (Inr content))"
  using fstab.rewrite_text_idem [of content iv subvols env] crypttab.rewrite_text_idem [of content iv env] assms
  by (simp add: rewrite_fstab_def rewrite_crypttab_def)

text \<open>Two disks, and two disks of which one is a copy of the other.\<close>

definition two_disks :: "string \<Rightarrow> probe_env" where
  "two_disks second =
     \<lparr>pe_canonicalize = Some,
      pe_blkid = (\<lambda>d. Inr (True, (if d = ''/dev/sda1'' then ''UUID=11'' else ''UUID='' @ second) @ [LF] @ ''TYPE=ext4'')),
      pe_lsblk = (\<lambda>_. Inr (True, ''part''))\<rparr>"

definition disk_info :: "string \<Rightarrow> string \<Rightarrow> dev_info" where
  "disk_info d u = \<lparr>di_dev = d, di_fstype = Some ''ext4'', di_uuid = Some u, di_label = None, di_partuuid = None,
     di_blk_type = Part, di_luks_uuid = None\<rparr>"

lemma disk_info_simps [simp]:
  "di_uuid (disk_info d u) = Some u" "di_label (disk_info d u) = None" "di_partuuid (disk_info d u) = None"
  by (simp_all add: disk_info_def)

lemma blkid_output:
  "lines (''UUID=11'' @ [LF] @ ''TYPE=ext4'') = [''UUID=11'', ''TYPE=ext4'']"
  "lines (''UUID=22'' @ [LF] @ ''TYPE=ext4'') = [''UUID=22'', ''TYPE=ext4'']"
  "split_once (CHR ''='') ''UUID=11'' = Some (''UUID'', ''11'')" "split_once (CHR ''='') ''UUID=22'' = Some (''UUID'', ''22'')"
  "split_once (CHR ''='') ''TYPE=ext4'' = Some (''TYPE'', ''ext4'')" "block_type_from_str (trim ''part'') = Part"
  by (code_simp, code_simp, code_simp, code_simp, code_simp, code_simp)

lemma two_disks_blkid:
  "blkid_export (two_disks ''22'') ''/dev/sda1'' = Inr [''UUID'' \<mapsto> ''11'', ''TYPE'' \<mapsto> ''ext4'']"
  "blkid_export (two_disks ''22'') ''/dev/sdb1'' = Inr [''UUID'' \<mapsto> ''22'', ''TYPE'' \<mapsto> ''ext4'']"
  "lsblk_type (two_disks u) d = Inr Part"
  using blkid_output by (simp_all add: blkid_export_def lsblk_type_def two_disks_def)

lemma two_disks_probe:
  "probe_device (two_disks ''22'') ''/dev/sda1'' = Inr (disk_info ''/dev/sda1'' ''11'')"
  "probe_device (two_disks ''22'') ''/dev/sdb1'' = Inr (disk_info ''/dev/sdb1'' ''22'')"
  "resolve_dev (two_disks u) ''/dev/sda1'' = ''/dev/sda1''" "resolve_dev (two_disks u) ''/dev/sdb1'' = ''/dev/sdb1''"
  by (simp_all add: probe_device_def two_disks_blkid disk_info_def)
    (simp_all add: two_disks_def resolve_dev_def canonicalize_dev_path_def starts_with_def)

lemma two_disks_inventory:
  obtains iv where "build_inventory (two_disks ''22'') [''/dev/sda1'', ''/dev/sdb1''] = Inr iv"
  by (simp add: build_inventory_def two_disks_probe split_beta Let_def)

lemma two_disks_ok:
  "list_all2 (\<lambda>d i. probe_device (two_disks ''22'') (resolve_dev (two_disks ''22'') d) = Inr i)
     [''/dev/sda1'', ''/dev/sdb1''] [disk_info ''/dev/sda1'' ''11'', disk_info ''/dev/sdb1'' ''22'']"
  "distinct_ids [(''/dev/sda1'', disk_info ''/dev/sda1'' ''11''), (''/dev/sdb1'', disk_info ''/dev/sdb1'' ''22'')]"
  by (simp_all add: two_disks_probe) (auto simp: distinct_ids_def owned_def)

theorem fstab_rewrite_same_mounts_witness:
  "case build_inventory (two_disks ''22'') [''/dev/sda1'', ''/dev/sdb1''] of
     Inr iv \<Rightarrow>
       (case rewrite_fstab (two_disks ''22'') iv Map.empty (Inr ''/dev/sdb1 /data ext4 defaults'') of
          Inr text \<Rightarrow> list_all2 (same_mount (two_disks ''22'') iv Map.empty)
            [''/dev/sdb1 /data ext4 defaults''] (lines text) | Inl e \<Rightarrow> False)
   | Inl e \<Rightarrow> False"
proof -
  let ?env = "two_disks ''22''" and ?ds = "[''/dev/sda1'', ''/dev/sdb1'']"
  let ?is = "[disk_info ''/dev/sda1'' ''11'', disk_info ''/dev/sdb1'' ''22'']"
  obtain iv where iv: "build_inventory ?env ?ds = Inr iv"
    by (rule two_disks_inventory)
  have "\<exists>text. rewrite_fstab ?env iv Map.empty (Inr ''/dev/sdb1 /data ext4 defaults'') = Inr text \<and>
      list_all2 (same_mount ?env iv Map.empty) (lines ''/dev/sdb1 /data ext4 defaults'') (lines text)"
    by (rule fstab_rewrite_same_mounts [OF iv two_disks_ok(1)])
      (auto simp: two_disks_probe two_disks_ok(2) starts_with_def plain_word_def is_space_def subvols_ok_def)
  moreover have "lines ''/dev/sdb1 /data ext4 defaults'' = [''/dev/sdb1 /data ext4 defaults'']" by code_simp
  ultimately show ?thesis using iv by auto
qed

theorem rewrite_idempotent_witness:
  "case build_inventory (two_disks ''22'') [''/dev/sda1'', ''/dev/sdb1''] of
     Inr iv \<Rightarrow>
       rbind (rewrite_fstab (two_disks ''22'') iv Map.empty (Inr ''/dev/sdb1 /data ext4 defaults''))
         (\<lambda>text. rewrite_fstab (two_disks ''22'') iv Map.empty (Inr text)) =
       rewrite_fstab (two_disks ''22'') iv Map.empty (Inr ''/dev/sdb1 /data ext4 defaults'')
   | Inl e \<Rightarrow> False"
proof -
  let ?env = "two_disks ''22''" and ?ds = "[''/dev/sda1'', ''/dev/sdb1'']"
  obtain iv where iv: "build_inventory ?env ?ds = Inr iv"
    by (rule two_disks_inventory)
  have "identifies iv"
    by (rule build_inventory_identifies [OF iv two_disks_ok(1)])
      (auto simp: two_disks_probe two_disks_ok(2) starts_with_def plain_word_def is_space_def)
  then show ?thesis
    using rewrite_idempotent [of iv Map.empty "''/dev/sdb1 /data ext4 defaults''" ?env] iv by (simp add: subvols_ok_def)
qed

text \<open>
  When two devices share a UUID, rewriting can move a mount to the other device: the
  inventory keeps the first device of a UUID, and unlike a shared label a shared UUID is still written.
\<close>

theorem duplicate_uuid_redirects:
  "case build_inventory (two_disks ''11'') [''/dev/sda1'', ''/dev/sdb1''] of
     Inr iv \<Rightarrow>
       map_option di_dev (find_by_spec (two_disks ''11'') iv ''/dev/sdb1'') = Some ''/dev/sdb1'' \<and>
       (case fstab_parse (butlast (fstab_line (two_disks ''11'') iv Map.empty ''/dev/sdb1 /data ext4 defaults'')) of
          Some e \<Rightarrow> map_option di_dev (find_by_spec (two_disks ''11'') iv (ft_spec e)) = Some ''/dev/sda1''
        | None \<Rightarrow> False)
   | Inl e \<Rightarrow> False"
  by code_simp

end
