(* ===== verification/Api_Auth.thy ===== *)
theory Api_Auth
  imports Json
begin

text \<open>
  Who may call the API server: its errors (\<^verbatim>\<open>crates/zyvor-api/src/error.rs\<close>), the roles of \<^verbatim>\<open>auth/rbac.rs\<close> and
  the middleware \<^verbatim>\<open>auth/middleware.rs\<close> that every request passes.  The verification of a signed token and the
  store of revoked tokens are parameters.
\<close>

subsection \<open>Errors\<close>

record api_error =
  ae_status :: nat
  ae_error :: string
  ae_message :: string

definition not_found :: "string \<Rightarrow> api_error" where
  "not_found m = \<lparr>ae_status = 404, ae_error = ''NOT_FOUND'', ae_message = m\<rparr>"

definition bad_request :: "string \<Rightarrow> api_error" where
  "bad_request m = \<lparr>ae_status = 400, ae_error = ''BAD_REQUEST'', ae_message = m\<rparr>"

definition conflict :: "string \<Rightarrow> api_error" where
  "conflict m = \<lparr>ae_status = 409, ae_error = ''CONFLICT'', ae_message = m\<rparr>"

definition internal :: "string \<Rightarrow> api_error" where
  "internal m = \<lparr>ae_status = 500, ae_error = ''INTERNAL_ERROR'', ae_message = m\<rparr>"

definition unauthorized :: "string \<Rightarrow> api_error" where
  "unauthorized m = \<lparr>ae_status = 401, ae_error = ''UNAUTHORIZED'', ae_message = m\<rparr>"

definition forbidden :: "string \<Rightarrow> api_error" where
  "forbidden m = \<lparr>ae_status = 403, ae_error = ''FORBIDDEN'', ae_message = m\<rparr>"

subsection \<open>Roles\<close>

record user_claims =
  uc_sub :: string
  uc_email :: "string option"
  uc_name :: "string option"
  uc_role :: string
  uc_provider :: string
  uc_jti :: "string option"

definition is_admin :: "user_claims \<Rightarrow> bool" where
  "is_admin u = eq_ignore_ascii_case (uc_role u) ''admin''"

definition can_approve_guest_actions :: "user_claims \<Rightarrow> bool" where
  "can_approve_guest_actions u \<longleftrightarrow> is_admin u \<or> eq_ignore_ascii_case (uc_role u) ''operator''"

definition is_viewer :: "user_claims \<Rightarrow> bool" where
  "is_viewer u = eq_ignore_ascii_case (uc_role u) ''viewer''"

definition can_request_guest_remediation :: "user_claims \<Rightarrow> bool" where
  "can_request_guest_remediation u = can_approve_guest_actions u"

record identity_settings =
  is_allow_local_bypass :: bool
  is_default_role :: string
  is_session_hours :: u32
  is_role_claim :: string
  is_admin_roles :: "string list"
  is_admin_emails :: "string list"

definition resolve_role :: "identity_settings \<Rightarrow> string option \<Rightarrow> string list \<Rightarrow> string" where
  "resolve_role identity email groups =
     (if (case email of Some e \<Rightarrow> \<exists>a \<in> set (is_admin_emails identity). eq_ignore_ascii_case a e | None \<Rightarrow> False)
      then ''admin''
      else if \<exists>g \<in> set groups. \<exists>r \<in> set (is_admin_roles identity). eq_ignore_ascii_case r g then ''admin''
      else if trim (is_default_role identity) = [] then ''operator''
      else is_default_role identity)"

definition groups_from_json :: "json \<Rightarrow> string \<Rightarrow> string list" where
  "groups_from_json value claim =
     (let claim = (if trim claim = [] then ''groups'' else claim) in
      case json_get value claim of
        None \<Rightarrow> []
      | Some v \<Rightarrow>
          (case as_array v of
             Some arr \<Rightarrow> List.map_filter as_str arr
           | None \<Rightarrow> (case as_str v of Some s \<Rightarrow> [s] | None \<Rightarrow> [])))"

definition email_from_claims :: "string option \<Rightarrow> string option \<Rightarrow> string \<Rightarrow> string option" where
  "email_from_claims email name sub =
     (case email of
        Some e \<Rightarrow> Some e
      | None \<Rightarrow>
          (case name of
             Some n \<Rightarrow> if CHR ''@'' \<in> set n then Some n else if CHR ''@'' \<in> set sub then Some sub else None
           | None \<Rightarrow> if CHR ''@'' \<in> set sub then Some sub else None))"

definition require_guest_remediation_requester :: "bool \<Rightarrow> user_claims option \<Rightarrow> (api_error, unit) result" where
  "require_guest_remediation_requester auth_enabled user =
     (if \<not> auth_enabled then Inr ()
      else case user of
        None \<Rightarrow> Inl (unauthorized ''authentication required'')
      | Some u \<Rightarrow>
          if \<not> can_request_guest_remediation u
          then Inl (forbidden ''operator or admin role required for guest remediation'') else Inr ())"

subsection \<open>The middleware\<close>

definition is_guest_agent_public :: "string \<Rightarrow> string \<Rightarrow> bool" where
  "is_guest_agent_public meth path =
     (if \<not> starts_with path ''/api/v1/guest-agents'' then False
      else (meth, path) \<in> {(''POST'', ''/api/v1/guest-agents/register''),
               (''GET'', ''/api/v1/guest-agents/bootstrap-info''), (''POST'', ''/api/v1/guest-agents/bootstrap'')}
        \<or> meth = ''POST'' \<and> ends_with path ''/heartbeat''
        \<or> ends_with path ''/report'')"

definition public_routes :: "(string \<times> string) list" where
  "public_routes =
     [(''GET'', ''/api/v1/health''), (''GET'', ''/api/v1/auth/config''), (''GET'', ''/api/v1/auth/me''),
      (''GET'', ''/api/v1/auth/oidc/login''), (''GET'', ''/api/v1/auth/oidc/callback''),
      (''GET'', ''/api/v1/auth/saml/login''), (''POST'', ''/api/v1/auth/saml/acs''), (''POST'', ''/api/v1/auth/local''),
      (''GET'', ''/api/v1/settings/sso/saml/metadata''), (''GET'', ''/api/v1/vmtools/bundle'')]"

definition is_public_route :: "string \<Rightarrow> string \<Rightarrow> bool" where
  "is_public_route meth path \<longleftrightarrow> is_guest_agent_public meth path \<or> (meth, path) \<in> set public_routes"

text \<open>A request: its method, path and, when it is text, its authorization header.\<close>

record http_request =
  hr_method :: string
  hr_path :: string
  hr_authorization :: "string option"

definition extract_bearer :: "http_request \<Rightarrow> string option" where
  "extract_bearer req = Option.bind (hr_authorization req) (strip_prefix ''Bearer '')"

text \<open>The store of revoked tokens: whether a key exists, or why it cannot be read.\<close>

definition is_revoked :: "(string \<Rightarrow> (string, bool) result) \<Rightarrow> string \<Rightarrow> (string, bool) result" where
  "is_revoked exists_key jti = (if jti = [] then Inr False else exists_key (''auth:revoked:'' @ jti))"

definition revoke_jti :: "(string \<rightharpoonup> nat) \<Rightarrow> string \<Rightarrow> nat \<Rightarrow> (string \<rightharpoonup> nat)" where
  "revoke_jti store jti ttl_secs =
     (if jti = [] \<or> ttl_secs = 0 then store else store(''auth:revoked:'' @ jti \<mapsto> ttl_secs))"

record auth_env =
  an_enabled :: bool
  an_verify :: "string \<Rightarrow> user_claims option"
  an_exists :: "string \<Rightarrow> (string, bool) result"

text \<open>What the next handler is called with: the verified user, if the request was checked at all.\<close>

definition require_auth :: "auth_env \<Rightarrow> http_request \<Rightarrow> (api_error, user_claims option) result" where
  "require_auth env req =
     (if \<not> an_enabled env then Inr None
      else if is_public_route (hr_method req) (hr_path req) then Inr None
      else case extract_bearer req of
        None \<Rightarrow> Inl (unauthorized ''Bearer token required'')
      | Some token \<Rightarrow>
          (case an_verify env token of
             None \<Rightarrow> Inl (unauthorized ''invalid or expired token'')
           | Some verified \<Rightarrow>
               (case uc_jti verified of
                  None \<Rightarrow> Inr (Some verified)
                | Some jti \<Rightarrow>
                    (case is_revoked (an_exists env) jti of
                       Inl e \<Rightarrow> Inl (internal e)
                     | Inr True \<Rightarrow> Inl (unauthorized ''token revoked'')
                     | Inr False \<Rightarrow> Inr (Some verified)))))"

definition require_admin :: "user_claims \<Rightarrow> (api_error, unit) result" where
  "require_admin user = (if is_admin user then Inr () else Inl (forbidden ''admin role required''))"

subsection \<open>Properties\<close>

text \<open>
  Claim C31.  A request reaches its handler with a user exactly when authentication is on, the route is not public,
  and the request carries a token that verifies to that user and is not revoked; a store that cannot be read refuses.
\<close>

theorem require_auth_exact:
  "require_auth env req = Inr (Some u) \<longleftrightarrow>
     an_enabled env \<and> is_public_route (hr_method req) (hr_path req) = False \<and>
     (\<exists>token. hr_authorization req = Some (''Bearer '' @ token) \<and> an_verify env token = Some u \<and>
        (case uc_jti u of None \<Rightarrow> True | Some j \<Rightarrow> j = [] \<or> an_exists env (''auth:revoked:'' @ j) = Inr False))"
proof -
  have b: "extract_bearer req = Some t \<longleftrightarrow> hr_authorization req = Some (''Bearer '' @ t)" for t
    unfolding extract_bearer_def strip_prefix_def starts_with_def
    by (cases "hr_authorization req") (auto simp: prefix_def)
  show ?thesis
    unfolding b [symmetric]
    by (auto simp: require_auth_def is_revoked_def split: if_splits option.splits sum.splits bool.splits)
qed

text \<open>
  Once a token is revoked, no request with it reaches a protected handler while the entry lives.
\<close>

theorem revoked_token_refused:
  assumes "an_enabled env" "\<not> is_public_route (hr_method req) (hr_path req)"
    and "hr_authorization req = Some (''Bearer '' @ token)" "an_verify env token = Some u" "uc_jti u = Some jti"
    and "jti \<noteq> []" "0 < ttl"
    and "an_exists env = (\<lambda>k. Inr (k \<in> dom (revoke_jti store jti ttl)))"
  shows "require_auth env req = Inl (unauthorized ''token revoked'')"
proof -
  have "extract_bearer req = Some token"
    using assms(3) by (simp add: extract_bearer_def strip_prefix_def starts_with_def)
  then show ?thesis
    using assms by (simp add: require_auth_def is_revoked_def revoke_jti_def)
qed

end
