(* ===== verification/Qga.thy ===== *)
theory Qga
  imports Api_Auth
begin

text \<open>
  The client of the QEMU guest agent in the API server (\<^verbatim>\<open>crates/zyvor-api/src/kubevirt_qga.rs\<close>): finding the pod
  that runs a virtual machine, one request and its reply, running a program, and reading and writing a
  guest file in chunks.  The cluster, the agent behind it, the clock, the JSON parser and the base64 code are
  the fields of a channel, over a state of type \<open>'g\<close> that they may change.
\<close>

subsection \<open>One request\<close>

record pod =
  pod_phase :: "string option"
  pod_name :: "string option"

text \<open>How running the client inside the pod can fail.\<close>

datatype io_failure = ExecFailed string | StdoutFailed string | StderrFailed string

record 'g channel =
  ch_pods :: "'g \<Rightarrow> string \<Rightarrow> string \<Rightarrow> pod list option"
  ch_exec :: "'g \<Rightarrow> string \<Rightarrow> string \<Rightarrow> string \<Rightarrow> json \<Rightarrow> 'g \<times> (io_failure, byte list \<times> byte list) result"
  ch_parse :: "string \<Rightarrow> (string, json) result"
  ch_show :: "json \<Rightarrow> string"
  ch_now :: "'g \<Rightarrow> nat"
  ch_sleep :: "'g \<Rightarrow> nat \<Rightarrow> 'g"
  ch_encode :: "byte list \<Rightarrow> string"
  ch_decode :: "string \<Rightarrow> (string, byte list) result"

definition libvirt_domain :: "string \<Rightarrow> string \<Rightarrow> string" where
  "libvirt_domain namespace name = namespace @ ''_'' @ name"

definition pod_labels :: "string \<Rightarrow> string list" where
  "pod_labels vm_name =
     [''kubevirt.io/vm='' @ vm_name, ''kubevirt.io/domain='' @ vm_name, ''vm.kubevirt.io/name='' @ vm_name]"

definition running_pod :: "pod list \<Rightarrow> pod option" where
  "running_pod pods = find (\<lambda>p. pod_phase p = Some ''Running'') pods"

fun pod_by_labels :: "(string \<Rightarrow> pod list option) \<Rightarrow> string list \<Rightarrow> pod option" where
  "pod_by_labels list_pods [] = None"
| "pod_by_labels list_pods (label # labels) =
     (case Option.bind (list_pods label) running_pod of
        Some p \<Rightarrow> Some p
      | None \<Rightarrow> pod_by_labels list_pods labels)"

definition find_virt_launcher_pod :: "'g channel \<Rightarrow> 'g \<Rightarrow> string \<Rightarrow> string \<Rightarrow> (api_error, string) result" where
  "find_virt_launcher_pod ch g namespace vm_name =
     (case pod_by_labels (ch_pods ch g namespace) (pod_labels vm_name) of
        Some p \<Rightarrow> (case pod_name p of Some n \<Rightarrow> Inr n | None \<Rightarrow> Inl (internal ''virt-launcher pod missing name''))
      | None \<Rightarrow> Inl (bad_request (''No running virt-launcher pod for VM '' @ namespace @ ''/'' @ vm_name)))"

definition virsh_qga_raw ::
    "'g channel \<Rightarrow> 'g \<Rightarrow> string \<Rightarrow> string \<Rightarrow> string \<Rightarrow> json \<Rightarrow> 'g \<times> (api_error, string) result" where
  "virsh_qga_raw ch g namespace pod domain body =
     (case ch_exec ch g namespace pod domain body of
        (g', Inl (ExecFailed e)) \<Rightarrow> (g', Inl (internal (''exec QGA client in '' @ pod @ '': '' @ e)))
      | (g', Inl (StdoutFailed e)) \<Rightarrow> (g', Inl (internal (''read QGA stdout: '' @ e)))
      | (g', Inl (StderrFailed e)) \<Rightarrow> (g', Inl (internal (''read QGA stderr: '' @ e)))
      | (g', Inr (stdout, stderr)) \<Rightarrow>
          if stderr \<noteq> [] \<and> stdout = []
          then (g', Inl (internal (''QGA command failed: '' @ to_string (utf8_lossy stderr))))
          else (g', Inr (to_string (utf8_lossy stdout))))"

definition virsh_qga_json ::
    "'g channel \<Rightarrow> 'g \<Rightarrow> string \<Rightarrow> string \<Rightarrow> string \<Rightarrow> json \<Rightarrow> 'g \<times> (api_error, json) result" where
  "virsh_qga_json ch g namespace pod domain body =
     (case virsh_qga_raw ch g namespace pod domain body of
        (g', Inl e) \<Rightarrow> (g', Inl e)
      | (g', Inr stdout) \<Rightarrow>
          let trimmed = trim stdout in
          if trimmed = [] then (g', Inl (internal ''empty response from QGA socket''))
          else case ch_parse ch trimmed of
            Inl e \<Rightarrow> (g', Inl (internal (''parse QGA response '' @ trimmed @ '': '' @ e)))
          | Inr v \<Rightarrow> (g', Inr v))"

definition qga_command :: "string \<Rightarrow> (string \<times> json) list \<Rightarrow> json" where
  "qga_command name arguments = JObject [(''execute'', JString name), (''arguments'', JObject arguments)]"

definition qga_ping :: "'g channel \<Rightarrow> 'g \<Rightarrow> string \<Rightarrow> string \<Rightarrow> 'g \<times> (api_error, unit) result" where
  "qga_ping ch g namespace name =
     (case find_virt_launcher_pod ch g namespace name of
        Inl e \<Rightarrow> (g, Inl e)
      | Inr pod \<Rightarrow>
          (case virsh_qga_json ch g namespace pod (libvirt_domain namespace name)
                  (JObject [(''execute'', JString ''guest-ping'')]) of
             (g', Inl e) \<Rightarrow> (g', Inl e)
           | (g', Inr out) \<Rightarrow>
               if json_get out ''return'' \<noteq> None then (g', Inr ())
               else case json_get out ''error'' of
                 Some err \<Rightarrow> (g', Inl (bad_request (''guest-ping failed: '' @ ch_show ch err)))
               | None \<Rightarrow> (g', Inl (internal (''unexpected guest-ping response: '' @ ch_show ch out)))))"

definition qga_available :: "'g channel \<Rightarrow> 'g \<Rightarrow> string \<Rightarrow> string \<Rightarrow> 'g \<times> bool" where
  "qga_available ch g namespace name = (case qga_ping ch g namespace name of (g', r) \<Rightarrow> (g', is_ok r))"

subsection \<open>Running a program\<close>

record qga_exec_result =
  qx_exit_code :: int
  qx_stdout :: string
  qx_stderr :: string

definition decode_b64_field :: "'g channel \<Rightarrow> json option \<Rightarrow> string" where
  "decode_b64_field ch value =
     (case Option.bind value as_str of
        None \<Rightarrow> []
      | Some s \<Rightarrow> (case ch_decode ch s of Inr b \<Rightarrow> to_string (utf8_lossy b) | Inl _ \<Rightarrow> s))"

definition exec_body :: "string \<Rightarrow> string list \<Rightarrow> json" where
  "exec_body path args =
     qga_command ''guest-exec'' [(''path'', JString path), (''arg'', JArray (map JString args)),
       (''capture-output'', JBool True), (''env'', JArray [])]"

definition status_body :: "nat \<Rightarrow> json" where
  "status_body pid = qga_command ''guest-exec-status'' [(''pid'', JNumber (int pid))]"

definition exec_result :: "'g channel \<Rightarrow> json \<Rightarrow> qga_exec_result" where
  "exec_result ch ret =
     \<lparr>qx_exit_code = (case Option.bind (json_get ret ''exitcode'') as_i64 of Some c \<Rightarrow> c | None \<Rightarrow> 1),
      qx_stdout = decode_b64_field ch (json_get ret ''out-data''),
      qx_stderr = decode_b64_field ch (json_get ret ''err-data'')\<rparr>"

partial_function (option) exec_loop ::
    "'g channel \<Rightarrow> string \<Rightarrow> string \<Rightarrow> string \<Rightarrow> nat \<Rightarrow> nat \<Rightarrow> nat \<Rightarrow> 'g
      \<Rightarrow> ('g \<times> (api_error, qga_exec_result) result) option" where
  "exec_loop ch namespace pod domain pid deadline timeout_secs g =
     (case virsh_qga_json ch g namespace pod domain (status_body pid) of
        (g', Inl e) \<Rightarrow> Some (g', Inl e)
      | (g', Inr status) \<Rightarrow>
          (case json_get status ''return'' of
             None \<Rightarrow> Some (g', Inl (internal (''guest-exec-status: '' @ ch_show ch status)))
           | Some ret \<Rightarrow>
               if Option.bind (json_get ret ''exited'') as_bool = Some True then Some (g', Inr (exec_result ch ret))
               else if deadline \<le> ch_now ch g'
               then Some (g', Inl (internal (''guest-exec pid '' @ show_nat pid @ '' timed out after '' @
                      show_nat timeout_secs @ ''s'')))
               else exec_loop ch namespace pod domain pid deadline timeout_secs (ch_sleep ch g' 500)))"

definition qga_exec ::
    "'g channel \<Rightarrow> 'g \<Rightarrow> string \<Rightarrow> string \<Rightarrow> string \<Rightarrow> string list \<Rightarrow> nat
      \<Rightarrow> ('g \<times> (api_error, qga_exec_result) result) option" where
  "qga_exec ch g namespace name path args timeout_secs =
     (case find_virt_launcher_pod ch g namespace name of
        Inl e \<Rightarrow> Some (g, Inl e)
      | Inr pod \<Rightarrow>
          let domain = libvirt_domain namespace name in
          (case virsh_qga_json ch g namespace pod domain (exec_body path args) of
             (g', Inl e) \<Rightarrow> Some (g', Inl e)
           | (g', Inr resp) \<Rightarrow>
               (case Option.bind (json_at resp [''return'', ''pid'']) as_u64 of
                  None \<Rightarrow> Some (g', Inl (internal (''guest-exec missing pid: '' @ ch_show ch resp)))
                | Some pid \<Rightarrow>
                    exec_loop ch namespace pod domain pid (ch_now ch g' + 1000 * max timeout_secs 5) timeout_secs g')))"

definition powershell_path :: string where
  "powershell_path =
     ''C:'' @ [CHR 0x5C] @ ''Windows'' @ [CHR 0x5C] @ ''System32'' @ [CHR 0x5C] @ ''WindowsPowerShell'' @ [CHR 0x5C] @ ''v1.0''
       @ [CHR 0x5C] @ ''powershell.exe''"

definition qga_exec_shell ::
    "'g channel \<Rightarrow> 'g \<Rightarrow> string \<Rightarrow> string \<Rightarrow> string \<Rightarrow> nat \<Rightarrow> ('g \<times> (api_error, qga_exec_result) result) option" where
  "qga_exec_shell ch g namespace name script timeout_secs =
     qga_exec ch g namespace name ''/bin/sh'' [''-c'', script] timeout_secs"

definition qga_exec_powershell ::
    "'g channel \<Rightarrow> 'g \<Rightarrow> string \<Rightarrow> string \<Rightarrow> string \<Rightarrow> nat \<Rightarrow> ('g \<times> (api_error, qga_exec_result) result) option" where
  "qga_exec_powershell ch g namespace name script timeout_secs =
     qga_exec ch g namespace name powershell_path
       [''-NoProfile'', ''-NonInteractive'', ''-ExecutionPolicy'', ''Bypass'', ''-Command'', script] timeout_secs"

text \<open>\<open>String::truncate\<close> panics, here \<open>None\<close>, when the cut is not between two characters.\<close>

definition is_char_boundary :: "string \<Rightarrow> nat \<Rightarrow> bool" where
  "is_char_boundary s n \<longleftrightarrow> n = 0 \<or> n = length s \<or> n < length s \<and> \<not> is_cont (of_string s ! n)"

definition str_truncate :: "string \<Rightarrow> nat \<Rightarrow> string option" where
  "str_truncate s n = (if length s \<le> n then Some s else if is_char_boundary s n then Some (take n s) else None)"

definition truncated_mark :: string where
  "truncated_mark = [CHR 0xE2, CHR 0x80, CHR 0xA6] @ ''[truncated]''"

definition truncate_output :: "string \<Rightarrow> nat \<Rightarrow> string option" where
  "truncate_output s max_bytes =
     (if max_bytes < length s then map_option (\<lambda>t. t @ truncated_mark) (str_truncate s max_bytes) else Some s)"

definition truncate_exec_output :: "string \<Rightarrow> string \<Rightarrow> nat \<Rightarrow> (string \<times> string) option" where
  "truncate_exec_output stdout stderr max_bytes =
     Option.bind (truncate_output stdout max_bytes) (\<lambda>out.
       map_option (\<lambda>err. (out, err)) (truncate_output stderr max_bytes))"

subsection \<open>Files\<close>

definition QGA_FILE_CHUNK :: nat where
  "QGA_FILE_CHUNK = 48 * 1024"

definition open_body :: "string \<Rightarrow> string \<Rightarrow> json" where
  "open_body guest_path mode = qga_command ''guest-file-open'' [(''path'', JString guest_path), (''mode'', JString mode)]"

definition write_body :: "int \<Rightarrow> string \<Rightarrow> nat \<Rightarrow> json" where
  "write_body handle buf len =
     qga_command ''guest-file-write'' [(''handle'', JNumber handle), (''buf-b64'', JString buf), (''count'', JNumber (int len))]"

definition read_body :: "int \<Rightarrow> nat \<Rightarrow> json" where
  "read_body handle len = qga_command ''guest-file-read'' [(''handle'', JNumber handle), (''count'', JNumber (int len))]"

definition close_body :: "int \<Rightarrow> json" where
  "close_body handle = qga_command ''guest-file-close'' [(''handle'', JNumber handle)]"

definition qga_file_close :: "'g channel \<Rightarrow> 'g \<Rightarrow> string \<Rightarrow> string \<Rightarrow> string \<Rightarrow> int \<Rightarrow> 'g \<times> (api_error, unit) result" where
  "qga_file_close ch g namespace pod domain handle =
     (case virsh_qga_json ch g namespace pod domain (close_body handle) of
        (g', Inl e) \<Rightarrow> (g', Inl e)
      | (g', Inr close_resp) \<Rightarrow>
          if json_get close_resp ''return'' \<noteq> None then (g', Inr ())
          else case json_get close_resp ''error'' of
            Some err \<Rightarrow> (g', Inl (internal (''guest-file-close: '' @ ch_show ch err)))
          | None \<Rightarrow> (g', Inr ()))"

definition qga_file_open ::
    "'g channel \<Rightarrow> 'g \<Rightarrow> string \<Rightarrow> string \<Rightarrow> string \<Rightarrow> string \<Rightarrow> string \<Rightarrow> 'g \<times> (api_error, int) result" where
  "qga_file_open ch g namespace pod domain guest_path mode =
     (case virsh_qga_json ch g namespace pod domain (open_body guest_path mode) of
        (g', Inl e) \<Rightarrow> (g', Inl e)
      | (g', Inr open_resp) \<Rightarrow>
          (case Option.bind (json_get open_resp ''return'') as_i64 of
             None \<Rightarrow> (g', Inl (internal (''guest-file-open missing handle: '' @ ch_show ch open_resp)))
           | Some handle \<Rightarrow> (g', Inr handle)))"

partial_function (option) file_write_loop ::
    "'g channel \<Rightarrow> string \<Rightarrow> string \<Rightarrow> string \<Rightarrow> int \<Rightarrow> nat \<Rightarrow> nat \<Rightarrow> byte list \<Rightarrow> nat \<Rightarrow> 'g
      \<Rightarrow> ('g \<times> (api_error, unit) result) option" where
  "file_write_loop ch namespace pod domain handle deadline timeout_secs bytes offset g =
     (if length bytes \<le> offset then Some (g, Inr ())
      else if deadline \<le> ch_now ch g then
        Some (fst (qga_file_close ch g namespace pod domain handle),
          Inl (internal (''guest-file-write timed out after '' @ show_nat timeout_secs @ ''s'')))
      else
        let chunk = take (min (offset + QGA_FILE_CHUNK) (length bytes) - offset) (drop offset bytes) in
        (case virsh_qga_json ch g namespace pod domain (write_body handle (ch_encode ch chunk) (length chunk)) of
           (g', Inl e) \<Rightarrow> Some (g', Inl e)
         | (g', Inr write_resp) \<Rightarrow>
             let written = (case Option.bind (json_at write_resp [''return'', ''count'']) as_u64 of Some n \<Rightarrow> n | None \<Rightarrow> 0) in
             if written = 0 then
               Some (fst (qga_file_close ch g' namespace pod domain handle),
                 Inl (internal (''guest-file-write stalled at offset '' @ show_nat offset @ '': '' @ ch_show ch write_resp)))
             else file_write_loop ch namespace pod domain handle deadline timeout_secs bytes ((offset + written) mod 2 ^ 64) g'))"

definition qga_file_write ::
    "'g channel \<Rightarrow> 'g \<Rightarrow> string \<Rightarrow> string \<Rightarrow> string \<Rightarrow> byte list \<Rightarrow> nat \<Rightarrow> ('g \<times> (api_error, unit) result) option" where
  "qga_file_write ch g namespace name guest_path bytes timeout_secs =
     (case find_virt_launcher_pod ch g namespace name of
        Inl e \<Rightarrow> Some (g, Inl e)
      | Inr pod \<Rightarrow>
          let domain = libvirt_domain namespace name in
          (case qga_file_open ch g namespace pod domain guest_path ''w+'' of
             (g1, Inl e) \<Rightarrow> Some (g1, Inl e)
           | (g1, Inr handle) \<Rightarrow>
               (case file_write_loop ch namespace pod domain handle (ch_now ch g1 + 1000 * max timeout_secs 30)
                       timeout_secs bytes 0 g1 of
                  None \<Rightarrow> None
                | Some (g2, Inl e) \<Rightarrow> Some (g2, Inl e)
                | Some (g2, Inr _) \<Rightarrow> Some (qga_file_close ch g2 namespace pod domain handle))))"

partial_function (option) file_read_loop ::
    "'g channel \<Rightarrow> string \<Rightarrow> string \<Rightarrow> string \<Rightarrow> int \<Rightarrow> nat \<Rightarrow> nat \<Rightarrow> nat \<Rightarrow> byte list \<Rightarrow> 'g
      \<Rightarrow> ('g \<times> (api_error, byte list) result) option" where
  "file_read_loop ch namespace pod domain handle deadline timeout_secs max_bytes out g =
     (if deadline \<le> ch_now ch g then
        Some (fst (qga_file_close ch g namespace pod domain handle),
          Inl (internal (''guest-file-read timed out after '' @ show_nat timeout_secs @ ''s'')))
      else if max_bytes \<le> length out then Some (g, Inr out)
      else
        (case virsh_qga_json ch g namespace pod domain (read_body handle (min (max_bytes - length out) QGA_FILE_CHUNK)) of
           (g', Inl e) \<Rightarrow> Some (g', Inl e)
         | (g', Inr read_resp) \<Rightarrow>
             (case json_get read_resp ''return'' of
                None \<Rightarrow> Some (g', Inl (internal (''guest-file-read: '' @ ch_show ch read_resp)))
              | Some ret \<Rightarrow>
                  if Option.bind (json_get ret ''eof'') as_bool = Some True then Some (g', Inr out)
                  else
                    let chunk_b64 = (case Option.bind (json_get ret ''buf-b64'') as_str of Some s \<Rightarrow> s | None \<Rightarrow> []) in
                    if chunk_b64 = [] then Some (g', Inr out)
                    else case ch_decode ch chunk_b64 of
                      Inl e \<Rightarrow> Some (g', Inl (internal (''decode guest-file-read: '' @ e)))
                    | Inr chunk \<Rightarrow>
                        file_read_loop ch namespace pod domain handle deadline timeout_secs max_bytes (out @ chunk) g')))"

definition qga_file_read ::
    "'g channel \<Rightarrow> 'g \<Rightarrow> string \<Rightarrow> string \<Rightarrow> string \<Rightarrow> nat \<Rightarrow> nat \<Rightarrow> ('g \<times> (api_error, byte list) result) option" where
  "qga_file_read ch g namespace name guest_path max_bytes timeout_secs =
     (case find_virt_launcher_pod ch g namespace name of
        Inl e \<Rightarrow> Some (g, Inl e)
      | Inr pod \<Rightarrow>
          let domain = libvirt_domain namespace name in
          (case qga_file_open ch g namespace pod domain guest_path ''r'' of
             (g1, Inl e) \<Rightarrow> Some (g1, Inl e)
           | (g1, Inr handle) \<Rightarrow>
               (case file_read_loop ch namespace pod domain handle (ch_now ch g1 + 1000 * max timeout_secs 30)
                       timeout_secs max_bytes [] g1 of
                  None \<Rightarrow> None
                | Some (g2, Inl e) \<Rightarrow> Some (g2, Inl e)
                | Some (g2, Inr out) \<Rightarrow>
                    (case qga_file_close ch g2 namespace pod domain handle of
                       (g3, Inl e) \<Rightarrow> Some (g3, Inl e)
                     | (g3, Inr _) \<Rightarrow> Some (g3, Inr out)))))"

subsection \<open>The loops end\<close>

text \<open>
  Claim C33.  A call of \<open>qga_exec\<close> always returns, whatever the agent answers, on a clock that does not run
  backwards and that a sleep moves on.
\<close>

theorem qga_exec_returns:
  assumes exec_mono: "\<And>g ns p d b. ch_now ch g \<le> ch_now ch (fst (ch_exec ch g ns p d b))"
    and sleep: "\<And>g ms. ch_now ch g + ms \<le> ch_now ch (ch_sleep ch g ms)"
  shows "qga_exec ch g namespace name path args timeout_secs \<noteq> None"
proof -
  have raw: "ch_now ch g \<le> ch_now ch g'" if "virsh_qga_json ch g ns p d b = (g', r)" for g ns p d b g' r
    using that exec_mono [of g ns p d b]
    by (auto simp: virsh_qga_json_def virsh_qga_raw_def Let_def
        split: prod.splits sum.splits io_failure.splits if_splits)
  have loop: "exec_loop ch ns p d pid deadline t g \<noteq> None" for ns p d pid deadline t g
  proof (induction "deadline - ch_now ch g" arbitrary: g rule: less_induct)
    case less
    obtain g' r where v: "virsh_qga_json ch g ns p d (status_body pid) = (g', r)" by fastforce
    have step: "exec_loop ch ns p d pid deadline t (ch_sleep ch g' 500) \<noteq> None" if "\<not> deadline \<le> ch_now ch g'"
      by (rule less) (use that raw [OF v] sleep [of g' 500] in auto)
    show ?case
      using step by (subst exec_loop.simps) (auto simp: v split: sum.splits option.splits)
  qed
  show ?thesis
    by (auto simp: qga_exec_def Let_def loop [simplified] split: prod.splits sum.splits option.splits)
qed

subsection \<open>Files arrive\<close>

text \<open>
  What the guest agent's documentation promises.  A read returns the next bytes of the file, at most as many as asked
  for, and \<open>eof\<close> says that the end of the file was met during that read.  A write takes a
  non-empty prefix of the data and returns its length.  Base64 decodes what it encodes.  Requests take time: a bound on
  it, in milliseconds, is the argument \<open>ms\<close>.
\<close>

definition base64_ok :: "'g channel \<Rightarrow> bool" where
  "base64_ok ch \<longleftrightarrow> (\<forall>d. ch_decode ch (ch_encode ch d) = Inr d) \<and> (\<forall>d. ch_encode ch d = [] \<longleftrightarrow> d = [])"

definition serves_file :: "'g channel \<Rightarrow> string \<Rightarrow> string \<Rightarrow> string \<Rightarrow> int \<Rightarrow> ('g \<Rightarrow> nat) \<Rightarrow> nat \<Rightarrow> byte list \<Rightarrow> bool" where
  "serves_file ch namespace pod domain handle pos ms content \<longleftrightarrow>
     (\<forall>g n. 0 < n \<longrightarrow> (\<exists>g' reply ret.
        virsh_qga_json ch g namespace pod domain (read_body handle n) = (g', Inr reply) \<and>
        json_get reply ''return'' = Some ret \<and>
        json_get ret ''eof'' = Some (JBool (length content < pos g + n)) \<and>
        json_get ret ''buf-b64'' = Some (JString (ch_encode ch (take n (drop (pos g) content)))) \<and>
        pos g' = pos g + length (take n (drop (pos g) content)) \<and> ch_now ch g' \<le> ch_now ch g + ms))"

definition accepts_writes :: "'g channel \<Rightarrow> string \<Rightarrow> string \<Rightarrow> string \<Rightarrow> int \<Rightarrow> ('g \<Rightarrow> byte list) \<Rightarrow> bool" where
  "accepts_writes ch namespace pod domain handle content \<longleftrightarrow>
     (\<forall>g data. data \<noteq> [] \<longrightarrow> (\<exists>g' reply k.
        virsh_qga_json ch g namespace pod domain (write_body handle (ch_encode ch data) (length data)) = (g', Inr reply) \<and>
        0 < k \<and> k \<le> length data \<and> json_at reply [''return'', ''count''] = Some (JNumber (int k)) \<and>
        content g' = content g @ take k data))"

definition write_takes :: "'g channel \<Rightarrow> string \<Rightarrow> string \<Rightarrow> string \<Rightarrow> int \<Rightarrow> nat \<Rightarrow> bool" where
  "write_takes ch namespace pod domain handle ms \<longleftrightarrow>
     (\<forall>g buf n. ch_now ch (fst (virsh_qga_json ch g namespace pod domain (write_body handle buf n))) \<le> ch_now ch g + ms)"

definition write_timeout :: "nat \<Rightarrow> api_error" where
  "write_timeout timeout_secs = internal (''guest-file-write timed out after '' @ show_nat timeout_secs @ ''s'')"

text \<open>One turn of the loop, before the deadline: the agent has taken a part of what was left.\<close>

lemma file_write_loop_turn:
  assumes "accepts_writes ch ns p d h content" "length bytes < 2 ^ 64" "ch_now ch g < deadline" "offset < length bytes"
  obtains g' k where "0 < k" "offset + k \<le> length bytes" "content g' = content g @ take k (drop offset bytes)"
    "file_write_loop ch ns p d h deadline t bytes offset g = file_write_loop ch ns p d h deadline t bytes (offset + k) g'"
    "\<And>ms. write_takes ch ns p d h ms \<Longrightarrow> ch_now ch g' \<le> ch_now ch g + ms"
proof -
  define chunk where "chunk = take (min (offset + QGA_FILE_CHUNK) (length bytes) - offset) (drop offset bytes)"
  have "chunk \<noteq> []" using assms(4) by (simp add: chunk_def QGA_FILE_CHUNK_def)
  then obtain g' reply k where r:
      "virsh_qga_json ch g ns p d (write_body h (ch_encode ch chunk) (length chunk)) = (g', Inr reply)"
      "0 < k" "k \<le> length chunk" "json_at reply [''return'', ''count''] = Some (JNumber (int k))"
      "content g' = content g @ take k chunk"
    using assms(1) unfolding accepts_writes_def by meson
  have k: "offset + k \<le> length bytes" using r(3) assms(4) by (simp add: chunk_def)
  then have k64: "k < 2 ^ 64" "(offset + k) mod 2 ^ 64 = offset + k" using assms(2) by simp_all
  have "as_u64 (JNumber (int k)) = Some k" by (rule as_u64_nat) (rule k64)
  then have w: "Option.bind (json_at reply [''return'', ''count'']) as_u64 = Some k" by (simp only: r(4) Option.bind.simps)
  have step: "file_write_loop ch ns p d h deadline t bytes offset g = file_write_loop ch ns p d h deadline t bytes (offset + k) g'"
    apply (subst file_write_loop.simps)
    unfolding Let_def chunk_def [symmetric] r(1) prod.case sum.case w option.case k64(2)
    using assms(3, 4) r(2) by simp
  have "k \<le> min (offset + QGA_FILE_CHUNK) (length bytes) - offset" using r(3) unfolding chunk_def length_take by linarith
  then have c: "content g' = content g @ take k (drop offset bytes)" unfolding r(5) by (simp only: chunk_def take_take min_absorb1)
  have "ch_now ch g' \<le> ch_now ch g + ms" if "write_takes ch ns p d h ms" for ms
    using that r(1) unfolding write_takes_def by (metis fst_conv)
  then show ?thesis by (rule that [OF r(2) k c step])
qed

lemma take_strict_prefix: "k < length xs \<Longrightarrow> strict_prefix (take k xs) xs"
  by (auto simp: strict_prefix_def take_is_prefix dest: arg_cong [where f = length])

lemma time_left:
  fixes now now' ms deadline :: nat
  assumes "offset + k < len" "0 < k" "now < deadline" "now' \<le> now + ms" "now + ms * (len - offset) \<le> deadline"
  shows "now' < deadline \<and> now' + ms * (len - (offset + k)) \<le> deadline"
proof -
  have "ms + ms * (len - (offset + k)) = ms * Suc (len - (offset + k))" by simp
  also have "\<dots> \<le> ms * (len - offset)" using assms(1, 2) by (intro mult_le_mono2) simp
  finally have le: "now' + ms * (len - (offset + k)) \<le> deadline" using assms(4, 5) by linarith
  moreover have "now' < deadline"
  proof (cases "ms = 0")
    case False
    then have "0 < ms * (len - (offset + k))" using assms(1) by simp
    then show ?thesis using le by linarith
  qed (use assms(3, 4) in simp)
  ultimately show ?thesis by blast
qed

lemma file_write_loop_outcome:
  assumes "accepts_writes ch ns p d h content" "length bytes < 2 ^ 64" "offset \<le> length bytes"
    and close: "\<And>g. content (fst (qga_file_close ch g ns p d h)) = content g"
  shows "\<exists>g' r. file_write_loop ch ns p d h deadline t bytes offset g = Some (g', r) \<and>
    (r = Inr () \<and> content g' = content g @ drop offset bytes \<or>
     r = Inl (write_timeout t) \<and> (\<exists>k. offset + k < length bytes \<and> content g' = content g @ take k (drop offset bytes))) \<and>
    (\<forall>ms. write_takes ch ns p d h ms \<longrightarrow> ch_now ch g < deadline \<longrightarrow>
       ch_now ch g + ms * (length bytes - offset) \<le> deadline \<longrightarrow> r = Inr ())"
  using assms(3)
proof (induction "length bytes - offset" arbitrary: g offset rule: less_induct)
  case less
  show ?case
  proof (cases "length bytes \<le> offset")
    case True
    then have "file_write_loop ch ns p d h deadline t bytes offset g = Some (g, Inr ())" by (subst file_write_loop.simps) simp
    then show ?thesis using True by simp
  next
    case more: False
    show ?thesis
    proof (cases "deadline \<le> ch_now ch g")
      case True
      then have "file_write_loop ch ns p d h deadline t bytes offset g =
          Some (fst (qga_file_close ch g ns p d h), Inl (write_timeout t))"
        using more unfolding write_timeout_def by (subst file_write_loop.simps) simp
      then show ?thesis using True more close [of g] by (auto intro!: exI [of _ "0 :: nat"])
    next
      case False
      then obtain g' k where k: "0 < k" "offset + k \<le> length bytes" "content g' = content g @ take k (drop offset bytes)"
          "file_write_loop ch ns p d h deadline t bytes offset g = file_write_loop ch ns p d h deadline t bytes (offset + k) g'"
          "\<And>ms. write_takes ch ns p d h ms \<Longrightarrow> ch_now ch g' \<le> ch_now ch g + ms"
        using file_write_loop_turn [OF assms(1, 2), of g deadline offset t] more by (metis not_le)
      obtain g2 r where h: "file_write_loop ch ns p d h deadline t bytes (offset + k) g' = Some (g2, r)"
          "r = Inr () \<and> content g2 = content g' @ drop (offset + k) bytes \<or>
           r = Inl (write_timeout t) \<and> (\<exists>i. offset + k + i < length bytes \<and> content g2 = content g' @ take i (drop (offset + k) bytes))"
          "\<forall>ms. write_takes ch ns p d h ms \<longrightarrow> ch_now ch g' < deadline \<longrightarrow>
             ch_now ch g' + ms * (length bytes - (offset + k)) \<le> deadline \<longrightarrow> r = Inr ()"
        using less.hyps [OF _ k(2), of g'] k(1) more by (auto simp: diff_less_mono2)
      have parts: "take k (drop offset bytes) @ drop (offset + k) bytes = drop offset bytes"
          "take k (drop offset bytes) @ take i (drop (offset + k) bytes) = take (k + i) (drop offset bytes)" for i
        by (metis append_take_drop_id drop_drop add.commute) (simp only: take_add drop_drop add.commute [of k offset])
      have "r = Inr ()" if ms: "write_takes ch ns p d h ms" "ch_now ch g + ms * (length bytes - offset) \<le> deadline" for ms
      proof (cases "offset + k = length bytes")
        case True
        then have "file_write_loop ch ns p d h deadline t bytes (offset + k) g' = Some (g', Inr ())"
          by (subst file_write_loop.simps) simp
        then show ?thesis using h(1) by simp
      next
        case False
        then have "offset + k < length bytes" using k(2) by simp
        then have "ch_now ch g' < deadline \<and> ch_now ch g' + ms * (length bytes - (offset + k)) \<le> deadline"
          by (rule time_left [OF _ k(1) _ k(5) [OF ms(1)] ms(2)]) (use \<open>\<not> deadline \<le> ch_now ch g\<close> in simp)
        then show ?thesis using h(3) ms(1) by blast
      qed
      moreover have "r = Inr () \<and> content g2 = content g @ drop offset bytes \<or>
          r = Inl (write_timeout t) \<and> (\<exists>i. offset + i < length bytes \<and> content g2 = content g @ take i (drop offset bytes))"
        using h(2)
      proof
        assume "r = Inl (write_timeout t) \<and> (\<exists>i. offset + k + i < length bytes \<and> content g2 = content g' @ take i (drop (offset + k) bytes))"
        then obtain i where "r = Inl (write_timeout t)" "offset + (k + i) < length bytes"
            "content g2 = content g @ take (k + i) (drop offset bytes)"
          using k(3) parts(2) by (auto simp: add.assoc)
        then show ?thesis by blast
      qed (use k(3) parts(1) in auto)
      ultimately show ?thesis using h(1) k(4) by auto
    qed
  qed
qed

text \<open>
  Claim C25.  Writing a guest file, with an agent that may take as little of each chunk as it likes and as long as it
  likes, always returns.  It succeeds, and then the file holds exactly the bytes given, or it reports that the time ran
  out, and then the file holds a proper prefix of them; with a bound on the time of one request under which the bytes
  sent one by one would meet the deadline, it succeeds.
\<close>

theorem qga_file_write_complete:
  assumes "find_virt_launcher_pod ch g namespace name = Inr pod"
    and "qga_file_open ch g namespace pod (libvirt_domain namespace name) guest_path ''w+'' = (g1, Inr handle)"
    and "content g1 = []"
    and "accepts_writes ch namespace pod (libvirt_domain namespace name) handle content"
    and "\<And>g. \<exists>g'. qga_file_close ch g namespace pod (libvirt_domain namespace name) handle = (g', Inr ()) \<and> content g' = content g"
    and "length bytes < 2 ^ 64"
  shows "\<exists>g' r. qga_file_write ch g namespace name guest_path bytes timeout_secs = Some (g', r) \<and>
    (r = Inr () \<and> content g' = bytes \<or> r = Inl (write_timeout timeout_secs) \<and> strict_prefix (content g') bytes) \<and>
    (\<forall>ms. write_takes ch namespace pod (libvirt_domain namespace name) handle ms \<longrightarrow>
       ms * length bytes \<le> 1000 * max timeout_secs 30 \<longrightarrow> r = Inr ())"
proof -
  let ?d = "libvirt_domain namespace name" and ?limit = "ch_now ch g1 + 1000 * max timeout_secs 30"
  have close: "content (fst (qga_file_close ch g namespace pod ?d handle)) = content g" for g
    using assms(5) [of g] by auto
  obtain g2 r where h: "file_write_loop ch namespace pod ?d handle ?limit timeout_secs bytes 0 g1 = Some (g2, r)"
      "r = Inr () \<and> content g2 = bytes \<or> r = Inl (write_timeout timeout_secs) \<and> (\<exists>k. k < length bytes \<and> content g2 = take k bytes)"
      "\<forall>ms. write_takes ch namespace pod ?d handle ms \<longrightarrow> ch_now ch g1 < ?limit \<longrightarrow> ch_now ch g1 + ms * length bytes \<le> ?limit \<longrightarrow> r = Inr ()"
    using file_write_loop_outcome [OF assms(4, 6) le0 close, where g = g1 and deadline = ?limit and t = timeout_secs]
    unfolding assms(3) append_Nil drop_0 add_0 diff_zero by blast
  have fast: "\<forall>ms. write_takes ch namespace pod ?d handle ms \<longrightarrow> ms * length bytes \<le> 1000 * max timeout_secs 30 \<longrightarrow> r = Inr ()"
    using h(3) by simp
  obtain g3 where g3: "qga_file_close ch g2 namespace pod ?d handle = (g3, Inr ())" "content g3 = content g2" using assms(5) by blast
  show ?thesis
  proof (cases r)
    case (Inl e)
    then have "qga_file_write ch g namespace name guest_path bytes timeout_secs = Some (g2, Inl e)"
      using assms(1, 2) h(1) by (simp add: qga_file_write_def Let_def)
    moreover have "strict_prefix (content g2) bytes" "e = write_timeout timeout_secs"
      using h(2) Inl by (auto intro: take_strict_prefix)
    ultimately show ?thesis using fast Inl by auto
  next
    case (Inr u)
    then have "qga_file_write ch g namespace name guest_path bytes timeout_secs = Some (g3, Inr ())"
      using assms(1, 2) h(1) g3(1) by (simp add: qga_file_write_def Let_def)
    then show ?thesis using h(2) Inr g3(2) by auto
  qed
qed

lemma chunk_pos: "0 < QGA_FILE_CHUNK"
  by (simp add: QGA_FILE_CHUNK_def)

lemma whole_chunks:
  "0 < c \<Longrightarrow> k + c \<le> m \<Longrightarrow> k + c + c * ((m - (k + c)) div c) = k + c * ((m - k) div c)" for c k m :: nat
  by (subst (2) le_div_geq) (simp_all add: algebra_simps)

text \<open>One turn of the loop: it ends at the end-of-file mark, or goes on with a full chunk.\<close>

lemma file_read_loop_turn:
  assumes "serves_file ch ns p d h pos ms content" "base64_ok ch" "ch_now ch g < deadline" "pos g = length out"
    and n: "n = min (max_bytes - length out) QGA_FILE_CHUNK" "0 < n"
  shows "length content < length out + n \<Longrightarrow> \<exists>g'. file_read_loop ch ns p d h deadline t max_bytes out g = Some (g', Inr out)"
    and "length out + n \<le> length content \<Longrightarrow> \<exists>g'. file_read_loop ch ns p d h deadline t max_bytes out g =
      file_read_loop ch ns p d h deadline t max_bytes (out @ take n (drop (length out) content)) g' \<and>
      pos g' = length out + n \<and> ch_now ch g' \<le> ch_now ch g + ms"
proof -
  obtain g' reply ret where r:
      "virsh_qga_json ch g ns p d (read_body h n) = (g', Inr reply)" "json_get reply ''return'' = Some ret"
      "json_get ret ''eof'' = Some (JBool (length content < length out + n))"
      "json_get ret ''buf-b64'' = Some (JString (ch_encode ch (take n (drop (length out) content))))"
      "pos g' = length out + length (take n (drop (length out) content))" "ch_now ch g' \<le> ch_now ch g + ms"
    using assms(1, 4) n(2) unfolding serves_file_def by metis
  have go: "\<not> deadline \<le> ch_now ch g" "\<not> max_bytes \<le> length out" using assms(3) n by auto
  {
    assume "length content < length out + n"
    then have eof: "Option.bind (json_get ret ''eof'') as_bool = Some True" unfolding r(3) by simp
    have "file_read_loop ch ns p d h deadline t max_bytes out g = Some (g', Inr out)"
      apply (subst file_read_loop.simps)
      unfolding n(1) [symmetric] r(1) prod.case sum.case r(2) option.case eof
      using go by simp
    then show "\<exists>g'. file_read_loop ch ns p d h deadline t max_bytes out g = Some (g', Inr out)" by blast
  next
    assume more: "length out + n \<le> length content"
    define chunk where "chunk = take n (drop (length out) content)"
    have len: "length chunk = n" using more by (simp add: chunk_def)
    then have "chunk \<noteq> []" using n(2) by auto
    then have dec: "ch_encode ch chunk \<noteq> []" "ch_decode ch (ch_encode ch chunk) = Inr chunk"
      using assms(2) by (simp_all add: base64_ok_def)
    have eof: "Option.bind (json_get ret ''eof'') as_bool \<noteq> Some True" unfolding r(3) using more by simp
    have "file_read_loop ch ns p d h deadline t max_bytes out g = file_read_loop ch ns p d h deadline t max_bytes (out @ chunk) g'"
      apply (subst file_read_loop.simps)
      unfolding n(1) [symmetric] r(1) prod.case sum.case r(2) option.case Let_def r(4) [folded chunk_def] Option.bind.simps
        as_str.simps dec(2)
      using go eof dec(1) by simp
    then show "\<exists>g'. file_read_loop ch ns p d h deadline t max_bytes out g =
        file_read_loop ch ns p d h deadline t max_bytes (out @ take n (drop (length out) content)) g' \<and>
        pos g' = length out + n \<and> ch_now ch g' \<le> ch_now ch g + ms"
      using r(5, 6) len unfolding chunk_def by auto
  }
qed

text \<open>The requests needed to read \<open>n\<close> bytes.\<close>

definition reads_for :: "nat \<Rightarrow> nat" where
  "reads_for n = (n + QGA_FILE_CHUNK - 1) div QGA_FILE_CHUNK"

lemma ceil_div_step:
  fixes m c :: nat
  assumes "0 < m" "0 < c"
  shows "(m + c - 1) div c = Suc ((m - min m c + c - 1) div c)"
proof -
  have "m + c - 1 = c + (m - 1)" using assms by simp
  then have "(m + c - 1) div c = Suc ((m - 1) div c)" using div_add_self1 [of c "m - 1"] assms(2) by (metis Suc_eq_plus1 not_gr_zero)
  moreover have "(m - min m c + c - 1) div c = (m - 1) div c"
  proof (cases "c \<le> m")
    case True
    then have "m - min m c + c - 1 = m - 1" by simp
    then show ?thesis by (rule arg_cong)
  next
    case False
    then have "m - min m c + c - 1 = c - 1" "m - 1 < c" by simp_all
    then show ?thesis using assms(2) by (metis div_less diff_less zero_less_one)
  qed
  ultimately show ?thesis by (rule trans [OF _ arg_cong [OF sym]])
qed

lemma reads_for_step: "0 < m \<Longrightarrow> reads_for m = Suc (reads_for (m - min m QGA_FILE_CHUNK))"
  unfolding reads_for_def by (rule ceil_div_step [OF _ chunk_pos])

lemma file_read_loop_exact:
  assumes "serves_file ch ns p d h pos ms content" "base64_ok ch" "ch_now ch g + ms * reads_for (max_bytes - length out) < deadline"
    and "pos g = length out" "take (length out) content = out"
    and "length out \<le> length content" "length out \<le> max_bytes"
  shows "\<exists>g'. file_read_loop ch ns p d h deadline t max_bytes out g = Some (g',
      Inr (if max_bytes \<le> length content then take max_bytes content
           else take (length out + QGA_FILE_CHUNK * ((length content - length out) div QGA_FILE_CHUNK)) content))"
  using assms(3-7)
proof (induction "length content - length out" arbitrary: g out rule: less_induct)
  case less
  define n where "n = min (max_bytes - length out) QGA_FILE_CHUNK"
  have n_le: "n \<le> max_bytes - length out" "n \<le> QGA_FILE_CHUNK" by (simp_all add: n_def)
  have now: "ch_now ch g < deadline" using less.prems(1) by linarith
  note turn = file_read_loop_turn [OF assms(1, 2) now less.prems(2) n_def]
  consider "max_bytes = length out" | "0 < n" "length content < length out + n" | "0 < n" "length out + n \<le> length content"
    using less.prems(5) chunk_pos by (fastforce simp: n_def)
  then show ?case
  proof cases
    case 1
    then have "file_read_loop ch ns p d h deadline t max_bytes out g = Some (g, Inr out)"
      using now by (subst file_read_loop.simps) simp
    then show ?thesis using 1 less.prems(3, 4) by simp
  next
    case 2
    then have "length content - length out < QGA_FILE_CHUNK" "\<not> max_bytes \<le> length content"
      using n_le less.prems(4, 5) by linarith+
    then show ?thesis using turn(1) [OF 2] less.prems(3) by simp
  next
    case 3
    define out' where "out' = out @ take n (drop (length out) content)"
    obtain g' where step: "file_read_loop ch ns p d h deadline t max_bytes out g = file_read_loop ch ns p d h deadline t max_bytes out' g'"
        "pos g' = length out + n" "ch_now ch g' \<le> ch_now ch g + ms"
      using turn(2) [OF 3] unfolding out'_def by auto
    have lo: "length out' = length out + n" using 3(2) by (simp add: out'_def)
    have tk: "take (length out + n) content = out'" by (simp add: take_add less.prems(3) out'_def)
    have "reads_for (max_bytes - length out) = Suc (reads_for (max_bytes - length out'))"
      using reads_for_step [of "max_bytes - length out"] 3(1) by (simp add: n_def lo)
    then have time: "ch_now ch g' + ms * reads_for (max_bytes - length out') < deadline"
      using less.prems(1) step(3) by simp
    have "\<exists>g''. file_read_loop ch ns p d h deadline t max_bytes out' g' = Some (g'',
        Inr (if max_bytes \<le> length content then take max_bytes content
             else take (length out' + QGA_FILE_CHUNK * ((length content - length out') div QGA_FILE_CHUNK)) content))"
      by (rule less.hyps [OF _ time]) (use 3 lo tk step(2) n_le less.prems(2-5) in auto)
    moreover have "length out + n + QGA_FILE_CHUNK * ((length content - (length out + n)) div QGA_FILE_CHUNK) =
        length out + QGA_FILE_CHUNK * ((length content - length out) div QGA_FILE_CHUNK)" if "\<not> max_bytes \<le> length content"
    proof -
      have "n = QGA_FILE_CHUNK" using that 3(2) by (auto simp: n_def)
      then show ?thesis using whole_chunks [OF chunk_pos] 3(2) by simp
    qed
    ultimately show ?thesis unfolding step(1) lo by (cases "max_bytes \<le> length content") (simp_all add: add.assoc)
  qed
qed

text \<open>
  Claim C24.  What reading a guest file returns, exactly, from an agent that keeps its documentation and answers so fast
  that the deadline is met: the first bytes asked for when the file has that many, and otherwise the file without its last, incomplete chunk, which arrives with
  the end-of-file mark and is dropped.  A shorter file than one chunk is read as empty.
\<close>

theorem qga_file_read_drops_tail:
  assumes "find_virt_launcher_pod ch g namespace name = Inr pod"
    and "qga_file_open ch g namespace pod (libvirt_domain namespace name) guest_path ''r'' = (g1, Inr handle)"
    and "pos g1 = 0"
    and "serves_file ch namespace pod (libvirt_domain namespace name) handle pos ms content" "base64_ok ch"
    and "\<And>g. \<exists>g'. qga_file_close ch g namespace pod (libvirt_domain namespace name) handle = (g', Inr ())"
    and "ms * reads_for max_bytes < 1000 * max timeout_secs 30"
  shows "\<exists>g'. qga_file_read ch g namespace name guest_path max_bytes timeout_secs = Some (g',
    Inr (if max_bytes \<le> length content then take max_bytes content
         else take (QGA_FILE_CHUNK * (length content div QGA_FILE_CHUNK)) content))"
proof -
  have "\<exists>g2. file_read_loop ch namespace pod (libvirt_domain namespace name) handle
      (ch_now ch g1 + 1000 * max timeout_secs 30) timeout_secs max_bytes [] g1 = Some (g2,
      Inr (if max_bytes \<le> length content then take max_bytes content
         else take (length ([] :: byte list) + QGA_FILE_CHUNK * ((length content - length ([] :: byte list)) div QGA_FILE_CHUNK)) content))"
    by (rule file_read_loop_exact [OF assms(4, 5)]) (use assms(3, 7) in simp_all)
  then obtain g2 where "file_read_loop ch namespace pod (libvirt_domain namespace name) handle
      (ch_now ch g1 + 1000 * max timeout_secs 30) timeout_secs max_bytes [] g1 = Some (g2,
      Inr (if max_bytes \<le> length content then take max_bytes content
         else take (QGA_FILE_CHUNK * (length content div QGA_FILE_CHUNK)) content))"
    by auto
  then show ?thesis
    using assms(1, 2) assms(6) [of g2] by (auto simp: qga_file_read_def Let_def)
qed

subsection \<open>Cutting output\<close>

lemma truncate_output_bound:
  "truncate_output s m = Some t \<Longrightarrow> length t \<le> m + length truncated_mark \<and> prefix (take m t) s"
  by (auto simp: truncate_output_def str_truncate_def take_is_prefix split: if_splits)

lemma truncate_output_ascii:
  "\<forall>c \<in> set s. of_char c < (128 :: nat) \<Longrightarrow> truncate_output s m \<noteq> None"
proof -
  assume a: "\<forall>c \<in> set s. of_char c < (128 :: nat)"
  have "\<not> is_cont (of_string s ! m)" if "m < length s"
  proof -
    have "of_char (s ! m) < (128 :: nat)" using a that by simp
    then have "unat (of_string s ! m) < 128" using that by (simp add: of_string_def unat_of_nat)
    then show ?thesis by (simp add: is_cont_def word_le_nat_alt)
  qed
  then show ?thesis by (auto simp: truncate_output_def str_truncate_def is_char_boundary_def)
qed

lemma utf8_lossy_ascii: "utf8_lossy (replicate n 0x61 @ r) = replicate n 0x61 @ utf8_lossy r"
  by (induction n) (simp_all add: seq_len_def good_prefix_def)

text \<open>
  Whatever the limit, some well-formed output makes the cut panic: it falls inside a character.
\<close>

theorem truncate_exec_output_panics:
  assumes "0 < m"
  shows "\<exists>s. is_utf8 s \<and> truncate_exec_output s [] m = None"
proof -
  define s where "s = replicate (m - 1) CHR ''a'' @ [CHR 0xC3, CHR 0xA9]"
  have o: "of_string s = replicate (m - 1) 0x61 @ [0xC3, 0xA9]" by (simp add: s_def of_string_def)
  have "utf8_lossy [0xC3, 0xA9] = [0xC3, 0xA9]" by code_simp
  then have "is_utf8 s" by (simp add: is_utf8_def o utf8_lossy_ascii)
  moreover have "length s = Suc m" using assms by (simp add: s_def)
  moreover have "is_cont (of_string s ! m)" unfolding o using assms by (cases m) (simp_all add: nth_append is_cont_def)
  ultimately show ?thesis using assms
    by (auto simp: truncate_exec_output_def truncate_output_def str_truncate_def is_char_boundary_def intro!: exI [of _ s])
qed

theorem truncate_exec_output_panics_witness:
  "\<exists>s. is_utf8 s \<and> truncate_exec_output s [] 32768 = None"
  by (rule truncate_exec_output_panics) simp

subsection \<open>Examples\<close>

text \<open>
  An agent that has one file: a read takes from the front of what is left of it, a write appends one byte.  Its replies are
  tokens that the parser of the channel turns into JSON.
\<close>

definition demo_json :: "string \<Rightarrow> json" where
  "demo_json s =
     (if s = ''W'' then JObject [(''return'', JObject [(''count'', JNumber 1)])]
      else if s = ''O'' then JObject [(''return'', JNumber 1)]
      else if s = ''A'' then JObject [(''return'', JObject [(''eof'', JBool False), (''buf-b64'', JString ''x'')])]
      else if s = ''B'' then JObject [(''return'', JObject [(''eof'', JBool True), (''buf-b64'', JString ''x'')])]
      else JObject [(''return'', JObject [(''eof'', JBool True), (''buf-b64'', JString [])])])"

definition demo_field :: "json \<Rightarrow> string \<Rightarrow> json" where
  "demo_field body key = (case json_at body [''arguments'', key] of Some j \<Rightarrow> j | None \<Rightarrow> JNull)"

text \<open>The state is the position of the reader and the bytes written.\<close>

definition demo_exec :: "nat \<times> byte list \<Rightarrow> json \<Rightarrow> (nat \<times> byte list) \<times> string" where
  "demo_exec g body =
     (let c = json_get body ''execute'' in
      if c = Some (JString ''guest-file-write'') then
        ((fst g, snd g @ take 1 (case demo_field body ''buf-b64'' of JString b \<Rightarrow> of_string b | _ \<Rightarrow> [])), ''W'')
      else if c = Some (JString ''guest-file-read'') then
        (if fst g = 0 then ((1, snd g), if demo_field body ''count'' = JNumber 1 then ''A'' else ''B'') else (g, ''E''))
      else (g, ''O''))"

definition demo_channel :: "(nat \<times> byte list) channel" where
  "demo_channel = \<lparr>
     ch_pods = (\<lambda>_ _ _. Some [\<lparr>pod_phase = Some ''Running'', pod_name = Some ''launcher''\<rparr>]),
     ch_exec = (\<lambda>g _ _ _ body. (fst (demo_exec g body), Inr (of_string (snd (demo_exec g body)), []))),
     ch_parse = (\<lambda>s. Inr (demo_json s)), ch_show = (\<lambda>_. []), ch_now = (\<lambda>_. 0),
     ch_sleep = (\<lambda>g _. g), ch_encode = to_string, ch_decode = (\<lambda>s. Inr (of_string s))\<rparr>"

lemma of_string_to_string [simp]: "of_string (to_string d) = d"
  by (simp add: of_string_def to_string_def comp_def map_idI)

lemma to_string_Nil [simp]: "to_string d = [] \<longleftrightarrow> d = []"
  by (simp add: to_string_def)

lemma demo_base64: "base64_ok demo_channel"
  by (simp add: base64_ok_def demo_channel_def)

lemma demo_token: "snd (demo_exec g body) \<in> set [''W'', ''O'', ''A'', ''B'', ''E'']"
  by (simp add: demo_exec_def Let_def)

lemma demo_reply:
  "virsh_qga_json demo_channel g ns p d body = (fst (demo_exec g body), Inr (demo_json (snd (demo_exec g body))))"
proof -
  have "list_all (\<lambda>s. trim (to_string (utf8_lossy (of_string s))) = s \<and> s \<noteq> []) [''W'', ''O'', ''A'', ''B'', ''E'']"
    by code_simp
  then have t: "trim (to_string (utf8_lossy (of_string (snd (demo_exec g body))))) = snd (demo_exec g body)"
      "snd (demo_exec g body) \<noteq> []"
    unfolding list_all_iff using demo_token [of g body] by blast+
  show ?thesis
    unfolding virsh_qga_json_def virsh_qga_raw_def using t by (simp add: demo_channel_def)
qed

lemma demo_pod: "find_virt_launcher_pod demo_channel g ''ns'' ''vm'' = Inr ''launcher''"
  by (simp add: find_virt_launcher_pod_def demo_channel_def pod_labels_def running_pod_def)

lemma demo_other:
  "demo_exec g (open_body path mode) = (g, ''O'')" "demo_exec g (close_body h) = (g, ''O'')"
  by (simp_all add: demo_exec_def open_body_def close_body_def qga_command_def)

lemma demo_open: "qga_file_open demo_channel g ns p d path mode = (g, Inr 1)"
  by (simp add: qga_file_open_def demo_reply demo_other demo_json_def)

lemma demo_close: "qga_file_close demo_channel g ns p d h = (g, Inr ())"
  by (simp add: qga_file_close_def demo_reply demo_other demo_json_def)

lemma demo_writes: "accepts_writes demo_channel ns p d h snd"
  unfolding accepts_writes_def
proof (intro allI impI)
  fix g :: "nat \<times> byte list" and data :: "byte list"
  assume ne: "data \<noteq> []"
  have e: "demo_exec g (write_body h (ch_encode demo_channel data) (length data)) = ((fst g, snd g @ take 1 data), ''W'')"
    by (simp add: demo_exec_def write_body_def qga_command_def demo_field_def demo_channel_def)
  show "\<exists>g' reply k.
        virsh_qga_json demo_channel g ns p d (write_body h (ch_encode demo_channel data) (length data)) = (g', Inr reply) \<and>
        0 < k \<and> k \<le> length data \<and> json_at reply [''return'', ''count''] = Some (JNumber (int k)) \<and>
        snd g' = snd g @ take k data"
    unfolding demo_reply e
    by (rule exI [of _ "(fst g, snd g @ take 1 data)"], rule exI [of _ "demo_json ''W''"], rule exI [of _ 1])
      (use ne in \<open>simp add: demo_json_def demo_channel_def Suc_le_eq\<close>)
qed

lemma demo_reads: "serves_file demo_channel ns p d h fst 5 (of_string ''x'')"
  unfolding serves_file_def
proof (intro allI impI)
  fix g :: "nat \<times> byte list" and n :: nat
  assume "0 < n"
  have o: "of_string ''x'' = [0x78]" by code_simp
  have t: "to_string [0x78] = ''x''" by code_simp
  have e: "demo_exec g (read_body h n) =
      (if fst g = 0 then ((1, snd g), if n = 1 then ''A'' else ''B'') else (g, ''E''))"
    by (simp add: demo_exec_def read_body_def qga_command_def demo_field_def)
  show "\<exists>g' reply ret. virsh_qga_json demo_channel g ns p d (read_body h n) = (g', Inr reply) \<and>
        json_get reply ''return'' = Some ret \<and>
        json_get ret ''eof'' = Some (JBool (length (of_string ''x'') < fst g + n)) \<and>
        json_get ret ''buf-b64'' = Some (JString (ch_encode demo_channel (take n (drop (fst g) (of_string ''x''))))) \<and>
        fst g' = fst g + length (take n (drop (fst g) (of_string ''x''))) \<and> ch_now demo_channel g' \<le> ch_now demo_channel g + 5"
    unfolding demo_reply e o using \<open>0 < n\<close> t
    by (cases n; cases "fst g") (auto simp: demo_json_def demo_channel_def to_string_def [of "[]"])
qed

theorem qga_exec_returns_witness:
  "qga_exec (demo_channel\<lparr>ch_now := fst, ch_sleep := (\<lambda>g ms. (fst g + ms, snd g)),
       ch_exec := (\<lambda>g _ _ _ _. (g, Inr (of_string ''O'', [])))\<rparr>) (0, []) ''ns'' ''vm'' ''/bin/true'' [] 5 \<noteq> None"
  by (rule qga_exec_returns) simp_all

lemma demo_write_takes: "write_takes demo_channel ns p d h 1"
  by (simp add: write_takes_def demo_channel_def)

theorem qga_file_write_complete_witness:
  "\<exists>g'. qga_file_write demo_channel (0, []) ''ns'' ''vm'' ''/etc/motd'' (of_string ''hello'') 300 = Some (g', Inr ()) \<and>
     snd g' = of_string ''hello''"
proof -
  have close: "\<exists>g'. qga_file_close demo_channel g ''ns'' ''launcher'' (libvirt_domain ''ns'' ''vm'') 1 = (g', Inr ()) \<and> snd g' = snd g" for g
    by (simp add: demo_close)
  have len: "length (of_string ''hello'') < 2 ^ 64" "1 * length (of_string ''hello'') \<le> 1000 * max 300 30" by (simp_all add: of_string_def)
  obtain g' res where w: "qga_file_write demo_channel (0, []) ''ns'' ''vm'' ''/etc/motd'' (of_string ''hello'') 300 = Some (g', res)"
      "res = Inr () \<and> snd g' = of_string ''hello'' \<or> res = Inl (write_timeout 300) \<and> strict_prefix (snd g') (of_string ''hello'')"
      "\<forall>ms. write_takes demo_channel ''ns'' ''launcher'' (libvirt_domain ''ns'' ''vm'') 1 ms \<longrightarrow>
         ms * length (of_string ''hello'') \<le> 1000 * max 300 30 \<longrightarrow> res = Inr ()"
    using qga_file_write_complete [where content = snd and timeout_secs = 300 and guest_path = "''/etc/motd''",
        OF demo_pod demo_open [of "(0, [])"] snd_conv demo_writes close len(1)] by blast
  have "res = Inr ()" using w(3) demo_write_takes len(2) by blast
  then show ?thesis using w(1, 2) by auto
qed

theorem qga_file_read_drops_tail_witness:
  "\<exists>g'. qga_file_read demo_channel (0, []) ''ns'' ''vm'' ''/etc/motd'' 65536 120 = Some (g', Inr [])"
proof -
  have close: "\<exists>g'. qga_file_close demo_channel g ''ns'' ''launcher'' (libvirt_domain ''ns'' ''vm'') 1 = (g', Inr ())" for g
    by (simp add: demo_close)
  have "length (of_string ''x'') = 1" by (simp add: of_string_def)
  then show ?thesis
    using qga_file_read_drops_tail [where pos = fst, OF demo_pod demo_open _ demo_reads demo_base64 close,
        of "(0, [])" 65536 120 "''/etc/motd''"]
    by (simp add: QGA_FILE_CHUNK_def reads_for_def)
qed

end
