(* ===== verification/Guest_Transport.thy ===== *)
theory Guest_Transport
  imports Qga
begin

text \<open>
  How the API server reaches the agent inside a guest: remote calls through the guest agent's
  program execution (\<^verbatim>\<open>crates/zyvor-api/src/guest_agent_vm.rs\<close>), the ladder of transports and the probe of a guest
  (\<^verbatim>\<open>guest_control/transport.rs\<close>), the capability contract (\<^verbatim>\<open>guest_control/capabilities.rs\<close>), the fallback of
  \<^verbatim>\<open>kubevirt_guest_pull.rs\<close>, and the doctor's report (\<^verbatim>\<open>guest_control/doctor.rs\<close>).
\<close>

subsection \<open>Running with a world\<close>

type_synonym ('g, 'a) run = "'g \<Rightarrow> ('g \<times> 'a) option"

definition run_then :: "('g, 'a) run \<Rightarrow> ('a \<Rightarrow> ('g, 'b) run) \<Rightarrow> ('g, 'b) run" where
  "run_then m f g = (case m g of None \<Rightarrow> None | Some (g', x) \<Rightarrow> f x g')"

definition run_return :: "'a \<Rightarrow> ('g, 'a) run" where
  "run_return x g = Some (g, x)"

text \<open>The cluster's objects, the cached reports, and the HTTP client of the proxy.\<close>

datatype http_call = HttpGet string | HttpPost string json

record 'g fabric =
  fb_channel :: "'g channel"
  fb_kube :: bool
  fb_fetch_vm :: "'g \<Rightarrow> string \<Rightarrow> string \<Rightarrow> json option"
  fb_fetch_vmi :: "'g \<Rightarrow> string \<Rightarrow> string \<Rightarrow> json option"
  fb_report :: "'g \<Rightarrow> string \<Rightarrow> string \<Rightarrow> json option"
  fb_proxy_url :: "string option"
  fb_http :: "'g \<Rightarrow> http_call \<Rightarrow> 'g \<times> (string, json) result"
  fb_json_bytes :: "json \<Rightarrow> byte list"

definition fb_now :: "'g fabric \<Rightarrow> 'g \<Rightarrow> nat" where
  "fb_now fb g = ch_now (fb_channel fb) g"

subsection \<open>Calls inside the guest\<close>

definition rpc_body :: "string \<Rightarrow> json \<Rightarrow> json" where
  "rpc_body meth params =
     JObject [(''jsonrpc'', JString ''2.0''), (''method'', JString meth), (''params'', params), (''id'', JNumber 1)]"

definition build_rpc_request :: "'g fabric \<Rightarrow> string \<Rightarrow> json \<Rightarrow> string" where
  "build_rpc_request fb meth params = ch_encode (fb_channel fb) (fb_json_bytes fb (rpc_body meth params))"

definition parse_rpc_stdout :: "'g fabric \<Rightarrow> string \<Rightarrow> (api_error, json) result" where
  "parse_rpc_stdout fb stdout =
     (let trimmed = trim stdout in
      if trimmed = [] then Inl (internal ''empty guest rpc response'')
      else case ch_parse (fb_channel fb) trimmed of
        Inl e \<Rightarrow> Inl (internal (''parse guest rpc response: '' @ e @ '' '' @ [CHR 0xE2, CHR 0x80, CHR 0x94] @ '' '' @ trimmed))
      | Inr v \<Rightarrow> Inr v)"

definition windows_agent :: string where
  "windows_agent = ''C:'' @ [CHR 0x5C] @ ''Program Files'' @ [CHR 0x5C] @ ''Zyvor'' @ [CHR 0x5C] @ ''zyvor-guest-agent.exe''"

definition quoted_one :: "string \<Rightarrow> string" where
  "quoted_one s = [CHR 0x27] @ s @ [CHR 0x27]"

text \<open>The lines of the script end in a backslash and a newline, as in the raw string of the source.\<close>

definition socket_script :: "bool \<Rightarrow> string \<Rightarrow> string" where
  \<open>socket_script is_windows b64 =
     (let eol = '' '' @ [CHR 0x5C, CHR 0x0A] in
      if is_windows then
        ''$b64='' @ quoted_one b64 @ ''; $agent='' @ quoted_one windows_agent @ '';'' @ eol @
        ''if (-not (Test-Path $agent)) { exit 2 };'' @ eol @
        ''$bytes=[Convert]::FromBase64String($b64);'' @ eol @
        ''$req=[Text.Encoding]::UTF8.GetString($bytes);'' @ eol @
        ''$req | & $agent rpc 2>$null; if ($LASTEXITCODE -ne 0) { exit $LASTEXITCODE }''
      else
        ''B64='' @ quoted_one b64 @ ''; SOCK='' @ quoted_one ''/var/run/zyvor/guest-agent.sock'' @
        ''; [ -S "$SOCK" ] || exit 2; AGENT=$(command -v zyvor-guest-agent 2>/dev/null || echo /usr/local/bin/zyvor-guest-agent); '' @
        ''echo "$B64" | base64 -d | "$AGENT" rpc 2>/dev/null'')\<close>

definition exec_in_guest ::
    "'g fabric \<Rightarrow> string \<Rightarrow> string \<Rightarrow> bool \<Rightarrow> string \<Rightarrow> nat \<Rightarrow> ('g, (api_error, qga_exec_result) result) run" where
  "exec_in_guest fb namespace name is_windows script timeout_secs g =
     (if is_windows then qga_exec_powershell (fb_channel fb) g namespace name script timeout_secs
      else qga_exec_shell (fb_channel fb) g namespace name script timeout_secs)"

definition vm_in_guest_socket_rpc ::
    "'g fabric \<Rightarrow> string \<Rightarrow> string \<Rightarrow> string \<Rightarrow> json \<Rightarrow> bool \<Rightarrow> ('g, (api_error, json) result) run" where
  "vm_in_guest_socket_rpc fb namespace name meth params is_windows g =
     (case qga_available (fb_channel fb) g namespace name of (g', available) \<Rightarrow>
        if \<not> available then Some (g', Inl (bad_request ''QEMU guest agent not available for in-guest socket RPC''))
        else run_then (exec_in_guest fb namespace name is_windows
               (socket_script is_windows (build_rpc_request fb meth params)) 120) (\<lambda>r. run_return (
          rbind r (\<lambda>exec.
            if qx_exit_code exec = 2 then Inl (bad_request ''zyvor-guest-agent socket not available'')
            else if qx_exit_code exec \<noteq> 0 then
              Inl (bad_request (''in-guest socket rpc failed (exit '' @ show_int (qx_exit_code exec) @ ''): '' @ trim (qx_stderr exec)))
            else parse_rpc_stdout fb (qx_stdout exec)))) g')"

definition exec_script :: "string \<Rightarrow> string" where
  \<open>exec_script b64 =
     ''B64='' @ quoted_one b64 @
     ''; AGENT=$(command -v zyvor-guest-agent 2>/dev/null || echo /usr/local/bin/zyvor-guest-agent); '' @
     ''echo "$B64" | base64 -d | "$AGENT" rpc 2>/dev/null || '' @
     ''echo "$B64" | base64 -d | "$AGENT" --rpc 2>/dev/null || '' @
     ''echo "$B64" | base64 -d | /usr/local/bin/zyvor-guest-agent rpc 2>/dev/null''\<close>

definition vm_guestkit_rpc ::
    "'g fabric \<Rightarrow> string \<Rightarrow> string \<Rightarrow> string \<Rightarrow> json \<Rightarrow> ('g, (api_error, json) result) run" where
  "vm_guestkit_rpc fb namespace name meth params g =
     (case qga_available (fb_channel fb) g namespace name of (g', available) \<Rightarrow>
        if \<not> available then Some (g', Inl (bad_request ''QEMU guest agent not available for per-VM pull''))
        else run_then (\<lambda>g. qga_exec_shell (fb_channel fb) g namespace name
               (exec_script (build_rpc_request fb meth params)) 120) (\<lambda>r. run_return (
          rbind r (\<lambda>exec.
            if qx_exit_code exec \<noteq> 0 then
              Inl (bad_request (''guest rpc failed (exit '' @ show_int (qx_exit_code exec) @ ''): '' @ trim (qx_stderr exec)))
            else parse_rpc_stdout fb (qx_stdout exec)))) g')"

definition active_script :: "bool \<Rightarrow> string" where
  "active_script is_windows =
     (if is_windows then
        ''(Get-Service -Name '' @ quoted_one ''zyvor-guest-agent'' @
        '' -ErrorAction SilentlyContinue | Where-Object Status -eq '' @ quoted_one ''Running'' @ '') -ne $null''
      else ''systemctl is-active zyvor-guest-agent 2>/dev/null | grep -q '' @ quoted_one ''^active$'')"

definition vm_agent_daemon_active :: "'g fabric \<Rightarrow> string \<Rightarrow> string \<Rightarrow> bool \<Rightarrow> ('g, bool) run" where
  "vm_agent_daemon_active fb namespace name is_windows =
     run_then (exec_in_guest fb namespace name is_windows (active_script is_windows) 15) (\<lambda>r. run_return (
       case r of Inr exec \<Rightarrow> qx_exit_code exec = 0 | Inl _ \<Rightarrow> False))"

subsection \<open>Transports and control states\<close>

datatype guest_transport =
    VirtioSerial | QgaExecRpc | QgaBuiltin | InGuestSocket | HttpsPush | OfflineDisk | ConsoleOnlyTransport

fun transport_str :: "guest_transport \<Rightarrow> string" where
  "transport_str VirtioSerial = ''virtio-serial''"
| "transport_str QgaExecRpc = ''qga-exec''"
| "transport_str QgaBuiltin = ''qga-builtin''"
| "transport_str InGuestSocket = ''in-guest-socket''"
| "transport_str HttpsPush = ''https-push''"
| "transport_str OfflineDisk = ''offline-disk''"
| "transport_str ConsoleOnlyTransport = ''console-only''"

fun rank :: "guest_transport \<Rightarrow> nat" where
  "rank VirtioSerial = 0"
| "rank QgaExecRpc = 1"
| "rank QgaBuiltin = 2"
| "rank InGuestSocket = 3"
| "rank HttpsPush = 4"
| "rank OfflineDisk = 5"
| "rank ConsoleOnlyTransport = 6"

text \<open>The order of the transports is that of their ranks.\<close>

lemma rank_inj: "rank s = rank t \<Longrightarrow> s = t"
  by (cases s; cases t) simp_all

instantiation guest_transport :: linorder
begin

definition less_eq_guest_transport :: "guest_transport \<Rightarrow> guest_transport \<Rightarrow> bool" where
  "s \<le> t \<longleftrightarrow> rank s \<le> rank t"

definition less_guest_transport :: "guest_transport \<Rightarrow> guest_transport \<Rightarrow> bool" where
  "s < t \<longleftrightarrow> rank s < rank t"

instance
  by standard (auto simp: less_eq_guest_transport_def less_guest_transport_def intro: rank_inj)

end

datatype control_state = FullAgent | AirgapLive | QgaOnly | DiskOnly | ConsoleOnly | BlindVm

fun control_state_str :: "control_state \<Rightarrow> string" where
  "control_state_str FullAgent = ''full_agent''"
| "control_state_str AirgapLive = ''airgap_live''"
| "control_state_str QgaOnly = ''qga_only''"
| "control_state_str DiskOnly = ''disk_only''"
| "control_state_str ConsoleOnly = ''console_only''"
| "control_state_str BlindVm = ''blind_vm''"

definition infer_control_state :: "bool \<Rightarrow> bool \<Rightarrow> bool \<Rightarrow> bool \<Rightarrow> bool \<Rightarrow> bool \<Rightarrow> bool \<Rightarrow> control_state" where
  "infer_control_state vmi_running qga zyvor_agent agent_daemon_running network push_registered offline_repair =
     (if \<not> vmi_running then (if offline_repair then DiskOnly else BlindVm)
      else if \<not> qga then ConsoleOnly
      else if zyvor_agent \<and> agent_daemon_running \<and> (network \<or> push_registered) then FullAgent
      else if zyvor_agent \<and> agent_daemon_running then AirgapLive
      else if qga then QgaOnly
      else BlindVm)"

record transport_attempt =
  ta_tier :: string
  ta_ok :: bool
  ta_latency_ms :: nat
  ta_error :: "string option"

record guest_capability_supports =
  cs_evidence :: bool
  cs_exec :: bool
  cs_file_read :: bool
  cs_file_write :: bool
  cs_freeze :: bool
  cs_service_control :: bool
  cs_self_update :: bool
  cs_push_telemetry :: bool
  cs_doctor :: bool
  cs_offline_repair :: bool

record guest_capability_contract =
  gc_network :: bool
  gc_qga :: bool
  gc_zyvor_agent :: bool
  gc_agent_daemon_running :: bool
  gc_push_registered :: bool
  gc_transport :: string
  gc_control_state :: string
  gc_protocol_version :: string
  gc_agent_version :: "string option"
  gc_supports :: guest_capability_supports
  gc_warnings :: "string list"
  gc_recommended_actions :: "string list"

definition build_capabilities ::
    "bool \<Rightarrow> bool \<Rightarrow> bool \<Rightarrow> bool \<Rightarrow> bool \<Rightarrow> guest_transport \<Rightarrow> control_state \<Rightarrow> string option \<Rightarrow> bool \<Rightarrow> bool
      \<Rightarrow> guest_capability_contract" where
  "build_capabilities network qga zyvor_agent agent_daemon_running push_registered transport control_state agent_version
     offline_repair is_windows =
     \<lparr>gc_network = network, gc_qga = qga, gc_zyvor_agent = zyvor_agent, gc_agent_daemon_running = agent_daemon_running,
      gc_push_registered = push_registered, gc_transport = transport_str transport,
      gc_control_state = control_state_str control_state, gc_protocol_version = ''1.3'', gc_agent_version = agent_version,
      gc_supports =
        \<lparr>cs_evidence = (zyvor_agent \<or> push_registered), cs_exec = (qga \<and> (zyvor_agent \<or> control_state = QgaOnly)),
         cs_file_read = qga, cs_file_write = qga, cs_freeze = qga,
         cs_service_control = (zyvor_agent \<and> agent_daemon_running), cs_self_update = (network \<and> zyvor_agent),
         cs_push_telemetry = (network \<and> push_registered), cs_doctor = (zyvor_agent \<or> offline_repair \<or> qga),
         cs_offline_repair = offline_repair\<rparr>,
      gc_warnings = (if network then [] else [''guest network unavailable'']),
      gc_recommended_actions =
        (if qga \<and> \<not> zyvor_agent then [''install_agent_via_qga''] else []) @
        (if \<not> qga \<and> control_state = DiskOnly then [''offline_inject_agent''] else []) @
        (if \<not> qga \<and> control_state = ConsoleOnly then [''attach_virtio_guestagent_channel''] else []) @
        (if is_windows \<and> \<not> zyvor_agent \<and> qga then [''install_windows_agent_via_qga''] else [])\<rparr>"

subsection \<open>What the cluster says of a guest\<close>

definition lowercase :: "string \<Rightarrow> string" where
  "lowercase s = map ascii_lower s"

definition is_windows_os_name :: "string \<Rightarrow> bool" where
  "is_windows_os_name os_name =
     (let lower = lowercase os_name in contains lower ''windows'' \<or> starts_with lower ''win'')"

definition guest_os_label :: "json \<Rightarrow> string option" where
  "guest_os_label vm =
     (case json_at vm [''metadata'', ''labels''] of
        None \<Rightarrow> None
      | Some labels \<Rightarrow>
          List.find (\<lambda>v. v \<noteq> []) (List.map_filter (\<lambda>key. Option.bind (json_get labels key) as_str)
            [''hyper2kvm.io/guest-os'', ''v9s.io/guest-os'', ''zeus-os.io/guest-os'']))"

definition vm_is_windows :: "json option \<Rightarrow> json option \<Rightarrow> bool" where
  "vm_is_windows vm vmi \<longleftrightarrow>
     (case Option.bind vmi (\<lambda>v. json_at v [''status'', ''guestOSInfo'']) of
        Some guest \<Rightarrow>
          list_ex (\<lambda>key. case Option.bind (json_get guest key) as_str of Some s \<Rightarrow> is_windows_os_name s | None \<Rightarrow> False)
            [''name'', ''prettyName'']
      | None \<Rightarrow> False) \<or>
     (case Option.bind vm guest_os_label of Some s \<Rightarrow> eq_ignore_ascii_case s ''windows'' | None \<Rightarrow> False) \<or>
     (case Option.bind (Option.bind vm (\<lambda>v. json_at v [''spec'', ''template'', ''spec'', ''volumes''])) as_array of
        Some vols \<Rightarrow> list_ex (\<lambda>v. json_get v ''sysprep'' \<noteq> None) vols
      | None \<Rightarrow> False)"

text \<open>The pointer is split at every slash, so the label's name becomes two keys.\<close>

definition zyvor_tools_connected :: "json \<Rightarrow> json option \<Rightarrow> bool" where
  "zyvor_tools_connected vm vmi \<longleftrightarrow>
     Option.bind (json_at vm [''metadata'', ''labels'', ''zeus.zyvor.dev'', ''guest-tools'']) as_str = Some ''connected'' \<or>
     (case Option.bind vmi (\<lambda>v. json_str v [''status'', ''guestAgentVersion'']) of
        Some v \<Rightarrow> contains (lowercase v) ''guestkit'' \<or> contains (lowercase v) ''zyvor''
      | None \<Rightarrow> False)"

subsection \<open>Probing a guest\<close>

record guest_context =
  cx_namespace :: string
  cx_name :: string
  cx_vmi_running :: bool
  cx_qga_connected :: bool
  cx_zyvor_agent_installed :: bool
  cx_agent_daemon_running :: bool
  cx_network_available :: bool
  cx_push_registered :: bool
  cx_offline_repair_available :: bool
  cx_is_windows :: bool
  cx_control_state :: control_state
  cx_active_transport :: guest_transport
  cx_agent_version :: "string option"
  cx_attempts :: "transport_attempt list"

definition blind_context :: "string \<Rightarrow> string \<Rightarrow> guest_context" where
  "blind_context namespace name =
     \<lparr>cx_namespace = namespace, cx_name = name, cx_vmi_running = False, cx_qga_connected = False,
      cx_zyvor_agent_installed = False, cx_agent_daemon_running = False, cx_network_available = False,
      cx_push_registered = False, cx_offline_repair_available = False, cx_is_windows = False, cx_control_state = BlindVm,
      cx_active_transport = ConsoleOnlyTransport, cx_agent_version = None, cx_attempts = []\<rparr>"

definition choose_transport :: "bool \<Rightarrow> bool \<Rightarrow> bool \<Rightarrow> bool \<Rightarrow> bool \<Rightarrow> bool \<Rightarrow> guest_transport" where
  "choose_transport vmi_running qga_connected zyvor_agent_installed agent_daemon_running push_registered
     offline_repair_available =
     (if zyvor_agent_installed \<and> agent_daemon_running \<and> qga_connected then VirtioSerial
      else if qga_connected \<and> zyvor_agent_installed then QgaExecRpc
      else if qga_connected then QgaBuiltin
      else if push_registered then HttpsPush
      else if offline_repair_available then OfflineDisk
      else if vmi_running then ConsoleOnlyTransport
      else OfflineDisk)"

definition note_attempt :: "'g fabric \<Rightarrow> 'g \<Rightarrow> 'g \<Rightarrow> string \<Rightarrow> bool \<Rightarrow> string option \<Rightarrow> transport_attempt" where
  "note_attempt fb start stop tier ok err =
     \<lparr>ta_tier = tier, ta_ok = ok, ta_latency_ms = fb_now fb stop - fb_now fb start, ta_error = err\<rparr>"

definition parse_i32 :: "string \<Rightarrow> int option" where
  "parse_i32 s =
     (let (neg, ds) = (case s of c # cs \<Rightarrow> if c = CHR ''-'' then (True, cs) else if c = CHR ''+'' then (False, cs) else (False, s)
                        | [] \<Rightarrow> (False, []));
          i = (if neg then - int (digits_value ds) else int (digits_value ds)) in
      if ds \<noteq> [] \<and> list_all is_digit ds \<and> - (2 ^ 31) \<le> i \<and> i < 2 ^ 31 then Some i else None)"

definition parsed_or_zero :: "string \<Rightarrow> int" where
  "parsed_or_zero s = (case parse_i32 (trim s) of Some i \<Rightarrow> i | None \<Rightarrow> 0)"

definition binary_script :: "bool \<Rightarrow> string" where
  "binary_script is_windows =
     (if is_windows then
        ''if (Test-Path '' @ quoted_one windows_agent @ '') { '' @ quoted_one ''installed'' @
        '' } elseif (Get-Command zyvor-guest-agent -ErrorAction SilentlyContinue) { '' @ quoted_one ''installed'' @
        '' } else { '' @ quoted_one ''missing'' @ '' }''
      else ''command -v zyvor-guest-agent >/dev/null 2>&1 && echo installed || echo missing'')"

definition probe_binary ::
    "'g fabric \<Rightarrow> string \<Rightarrow> string \<Rightarrow> bool \<Rightarrow> ('g, bool \<times> transport_attempt) run" where
  "probe_binary fb namespace name is_windows g =
     (case exec_in_guest fb namespace name is_windows (binary_script is_windows) 30 g of
        None \<Rightarrow> None
      | Some (g', r) \<Rightarrow>
          let note = note_attempt fb g g' ''agent-binary-probe'' in
          Some (g', case r of
              Inr x \<Rightarrow>
                if qx_exit_code x = 0 \<and> contains (qx_stdout x) ''installed'' then (True, note True None)
                else (False, note False (Some (trim (qx_stdout x))))
            | Inl e \<Rightarrow> (False, note False (Some (ae_message e)))))"

definition daemon_script :: "bool \<Rightarrow> string" where
  "daemon_script is_windows =
     (if is_windows then
        ''(Get-Service -Name '' @ quoted_one ''QEMU-GA'' @ '','' @ quoted_one ''zyvor-guest-agent'' @
        '' -ErrorAction SilentlyContinue | Where-Object Status -eq '' @ quoted_one ''Running'' @ '').Count''
      else ''systemctl is-active zyvor-guest-agent 2>/dev/null || echo inactive'')"

definition probe_daemon :: "'g fabric \<Rightarrow> string \<Rightarrow> string \<Rightarrow> bool \<Rightarrow> ('g, bool \<times> transport_attempt) run" where
  "probe_daemon fb namespace name is_windows g =
     (case exec_in_guest fb namespace name is_windows (daemon_script is_windows) 30 g of
        None \<Rightarrow> None
      | Some (g', r) \<Rightarrow>
          let ok = (case r of
                Inl _ \<Rightarrow> False
              | Inr x \<Rightarrow> if is_windows then 1 \<le> parsed_or_zero (qx_stdout x)
                         else qx_exit_code x = 0 \<and> trim (qx_stdout x) = ''active'') in
          Some (g', ok, note_attempt fb g g' (if is_windows then ''windows-service-probe'' else ''agent-daemon-probe'') ok None))"

definition network_script :: "bool \<Rightarrow> string" where
  "network_script is_windows =
     (if is_windows then
        ''(Get-NetIPAddress -AddressFamily IPv4 -ErrorAction SilentlyContinue | Where-Object { $_.IPAddress -notlike '' @
        quoted_one ''127.*'' @ '' -and $_.PrefixOrigin -ne '' @ quoted_one ''WellKnown'' @ '' }).Count''
      else ''ip -4 route show default 2>/dev/null | grep -q default && echo up || echo down'')"

definition probe_network :: "'g fabric \<Rightarrow> string \<Rightarrow> string \<Rightarrow> bool \<Rightarrow> ('g, bool \<times> transport_attempt) run" where
  "probe_network fb namespace name is_windows g =
     (case exec_in_guest fb namespace name is_windows (network_script is_windows) (if is_windows then 20 else 15) g of
        None \<Rightarrow> None
      | Some (g', r) \<Rightarrow>
          let ok = (case r of
                Inl _ \<Rightarrow> False
              | Inr x \<Rightarrow> if is_windows then 0 < parsed_or_zero (qx_stdout x) else contains (qx_stdout x) ''up'') in
          Some (g', ok, note_attempt fb g g' (if is_windows then ''windows-network-probe'' else ''guest-network-probe'') ok None))"

text \<open>The three probes that need the guest agent: what they found, with their attempts.\<close>

definition probe_inside ::
    "'g fabric \<Rightarrow> string \<Rightarrow> string \<Rightarrow> bool \<Rightarrow> bool \<Rightarrow> ('g, bool \<times> bool \<times> bool \<times> transport_attempt list) run" where
  "probe_inside fb namespace name is_windows installed =
     run_then (probe_binary fb namespace name is_windows) (\<lambda>(found, a1).
     run_then (probe_daemon fb namespace name is_windows) (\<lambda>(daemon, a2).
     run_then (probe_network fb namespace name is_windows) (\<lambda>(network, a3).
     run_return (installed \<or> found, daemon, network, [a1, a2, a3]))))"

definition probe_qga :: "'g fabric \<Rightarrow> string \<Rightarrow> string \<Rightarrow> bool \<Rightarrow> ('g, bool \<times> transport_attempt list) run" where
  "probe_qga fb namespace name vmi_running g =
     (if \<not> vmi_running then Some (g, False, [])
      else case qga_available (fb_channel fb) g namespace name of (g', ok) \<Rightarrow>
        Some (g', ok, [note_attempt fb g g' (transport_str QgaBuiltin) ok (if ok then None else Some ''guest-ping failed'')]))"

definition zyvor_version :: "json option \<Rightarrow> string option" where
  "zyvor_version vmi =
     (case Option.bind vmi (\<lambda>v. Option.bind (json_at v [''status'', ''guestAgentVersion'']) as_str) of
        Some v \<Rightarrow> if contains (lowercase v) ''zyvor'' \<or> contains (lowercase v) ''guestkit'' then Some v else None
      | None \<Rightarrow> None)"

definition probe_guest_context :: "'g fabric \<Rightarrow> string \<Rightarrow> string \<Rightarrow> ('g, guest_context) run" where
  "probe_guest_context fb namespace name g =
     (if \<not> fb_kube fb then Some (g, blind_context namespace name)
      else
        let vm = fb_fetch_vm fb g namespace name;
            vmi = fb_fetch_vmi fb g namespace name;
            vmi_running = (vmi \<noteq> None);
            is_windows = vm_is_windows vm vmi;
            labelled = (case vm of Some v \<Rightarrow> zyvor_tools_connected v vmi | None \<Rightarrow> False) in
        run_then (probe_qga fb namespace name vmi_running) (\<lambda>(qga_connected, a1).
        run_then (if qga_connected then probe_inside fb namespace name is_windows labelled
                  else run_return (labelled, False, False, [])) (\<lambda>(installed, daemon, network, a2) g'.
          let push = (fb_report fb g' namespace name \<noteq> None);
              offline = (\<not> vmi_running \<and> vm \<noteq> None) in
          Some (g', \<lparr>cx_namespace = namespace, cx_name = name, cx_vmi_running = vmi_running,
            cx_qga_connected = qga_connected, cx_zyvor_agent_installed = installed, cx_agent_daemon_running = daemon,
            cx_network_available = network, cx_push_registered = push, cx_offline_repair_available = offline,
            cx_is_windows = is_windows,
            cx_control_state = infer_control_state vmi_running qga_connected installed daemon network push offline,
            cx_active_transport = choose_transport vmi_running qga_connected installed daemon push offline,
            cx_agent_version = zyvor_version vmi,
            cx_attempts = a1 @ a2 @
              (if push then [\<lparr>ta_tier = transport_str HttpsPush, ta_ok = True, ta_latency_ms = 0, ta_error = None\<rparr>] else [])\<rparr>)))
        g)"

definition context_to_capabilities :: "guest_context \<Rightarrow> guest_capability_contract" where
  "context_to_capabilities ctx =
     build_capabilities (cx_network_available ctx) (cx_qga_connected ctx) (cx_zyvor_agent_installed ctx)
       (cx_agent_daemon_running ctx) (cx_push_registered ctx) (cx_active_transport ctx) (cx_control_state ctx)
       (cx_agent_version ctx) (cx_offline_repair_available ctx) (cx_is_windows ctx)"

definition rpc_capabilities_to_contract :: "json \<Rightarrow> guest_context \<Rightarrow> guest_capability_contract" where
  "rpc_capabilities_to_contract rpc ctx =
     (let found = (\<lambda>key. case json_at rpc [''result'', key] of Some v \<Rightarrow> Some v | None \<Rightarrow> json_get rpc key);
          methods = (case Option.bind (found ''methods'') as_array of Some arr \<Rightarrow> List.map_filter as_str arr | None \<Rightarrow> []);
          caps = context_to_capabilities (ctx\<lparr>cx_agent_version := Option.bind (found ''agent_version'') as_str\<rparr>) in
      if methods = [] then caps
      else caps\<lparr>gc_supports := (gc_supports caps)\<lparr>
        cs_evidence := list_ex (\<lambda>m. contains m ''getEvidence'') methods,
        cs_doctor := list_ex (\<lambda>m. contains m ''doctor'') methods,
        cs_exec := list_ex (\<lambda>m. contains m ''exec'') methods\<rparr>\<rparr>)"

subsection \<open>The ladder\<close>

record pull_result =
  pr_value :: json
  pr_transport :: guest_transport
  pr_attempts :: "transport_attempt list"
  pr_network_required :: bool

definition method_min_transport :: "string \<Rightarrow> guest_transport" where
  "method_min_transport meth =
     (if meth \<in> {''guestkit.freezeFilesystem'', ''guestkit.thawFilesystem'', ''guestkit.ping''} then QgaBuiltin else QgaExecRpc)"

definition read_only_method :: "string \<Rightarrow> bool" where
  "read_only_method meth \<longleftrightarrow> meth \<in> set
     [''guestkit.getEvidence'', ''guestkit.getGuestHealth'', ''guestkit.getGuestInfo'', ''guestkit.getSystemdUnits'',
      ''guestkit.getSystemdEvents'', ''guestkit.getProcesses'', ''guestkit.getCapabilities'', ''guestkit.getStatus'',
      ''guestkit.doctor'', ''guestkit.migrateScore'', ''guestkit.getBootAnalysis'', ''guestkit.ping'']"

definition map_push_report_to_method :: "json \<Rightarrow> string \<Rightarrow> json option" where
  "map_push_report_to_method report meth =
     (if meth = ''guestkit.getGuestHealth'' then json_get report ''guest_health''
      else if meth = ''guestkit.getEvidence'' then
        (case json_get report ''evidence'' of Some e \<Rightarrow> Some e | None \<Rightarrow> Some report)
      else if meth = ''guestkit.getSystemdEvents'' then json_get report ''recent_events''
      else None)"

definition params_empty :: "json \<Rightarrow> bool" where
  "params_empty params = (case params of JObject fs \<Rightarrow> fs = [] | _ \<Rightarrow> True)"

definition proxy_path :: "string \<Rightarrow> json \<Rightarrow> string" where
  "proxy_path meth params =
     (if \<not> params_empty params then ''/rpc''
      else if meth = ''guestkit.getGuestHealth'' then ''/guest/health''
      else if meth = ''guestkit.getSystemdUnits'' then ''/guest/systemd''
      else if meth = ''guestkit.getGuestInfo'' then ''/guest/info''
      else if meth = ''guestkit.getProcesses'' then ''/guest/processes''
      else if meth = ''guestkit.getEvidence'' then ''/evidence''
      else ''/rpc'')"

definition pull_guest_rpc :: "'g fabric \<Rightarrow> string \<Rightarrow> string \<Rightarrow> json \<Rightarrow> 'g \<Rightarrow> 'g \<times> (string, json) result" where
  "pull_guest_rpc fb proxy_url meth params g =
     (if proxy_path meth params = ''/rpc'' then fb_http fb g (HttpPost (proxy_url @ ''/rpc'') (rpc_body meth params))
      else fb_http fb g (HttpGet (proxy_url @ proxy_path meth params)))"

type_synonym 'g rung = "transport_attempt list \<Rightarrow> ('g, (string, pull_result) result) run"

text \<open>One rung: the call's value is the answer; its error is noted and the next rung tried.\<close>

definition try_rung ::
    "'g fabric \<Rightarrow> guest_transport \<Rightarrow> 'g \<Rightarrow> ('g, (api_error, json) result) run \<Rightarrow> 'g rung \<Rightarrow> 'g rung" where
  "try_rung fb transport start call next_rung attempts g =
     (case call g of
        None \<Rightarrow> None
      | Some (g', Inr v) \<Rightarrow>
          Some (g', Inr \<lparr>pr_value = v, pr_transport = transport,
            pr_attempts = attempts @ [note_attempt fb start g' (transport_str transport) True None], pr_network_required = False\<rparr>)
      | Some (g', Inl e) \<Rightarrow>
          next_rung (attempts @ [note_attempt fb start g' (transport_str transport) False (Some (ae_message e))]) g')"

definition proxy_rung :: "'g fabric \<Rightarrow> string \<Rightarrow> string \<Rightarrow> string \<Rightarrow> json \<Rightarrow> 'g rung" where
  "proxy_rung fb namespace name meth params attempts g =
     (let none = ''no guest transport for '' @ namespace @ ''/'' @ name @ '' method '' @ meth in
      case fb_proxy_url fb of
        None \<Rightarrow> Some (g, Inl none)
      | Some proxy \<Rightarrow>
          (case pull_guest_rpc fb proxy meth params g of
             (g', Inr v) \<Rightarrow>
               Some (g', Inr \<lparr>pr_value = v, pr_transport = HttpsPush,
                 pr_attempts = attempts @ [note_attempt fb g g' ''http-proxy'' True None], pr_network_required = False\<rparr>)
           | (g', Inl _) \<Rightarrow> Some (g', Inl none)))"

definition ping_rung :: "'g fabric \<Rightarrow> string \<Rightarrow> string \<Rightarrow> string \<Rightarrow> json \<Rightarrow> 'g rung" where
  "ping_rung fb namespace name meth params attempts g =
     (if method_min_transport meth = QgaBuiltin \<and> meth = ''guestkit.ping'' then
        (case qga_available (fb_channel fb) g namespace name of (g', ok) \<Rightarrow>
           if ok then
             Some (g', Inr \<lparr>pr_value = JObject [(''result'', JObject [(''pong'', JBool True)])], pr_transport = QgaBuiltin,
               pr_attempts = attempts @ [note_attempt fb g g' (transport_str QgaBuiltin) True None], pr_network_required = False\<rparr>)
           else proxy_rung fb namespace name meth params attempts g')
      else proxy_rung fb namespace name meth params attempts g)"

definition cached_rung :: "'g fabric \<Rightarrow> string \<Rightarrow> string \<Rightarrow> string \<Rightarrow> json \<Rightarrow> 'g rung" where
  "cached_rung fb namespace name meth params attempts g =
     (case (if read_only_method meth
            then Option.bind (fb_report fb g namespace name) (\<lambda>cached. map_push_report_to_method cached meth) else None) of
        Some v \<Rightarrow>
          Some (g, Inr \<lparr>pr_value = JObject [(''result'', v)], pr_transport = HttpsPush,
            pr_attempts = attempts @ [note_attempt fb g g (transport_str HttpsPush) True None], pr_network_required = True\<rparr>)
      | None \<Rightarrow> ping_rung fb namespace name meth params attempts g)"

definition exec_rung :: "'g fabric \<Rightarrow> string \<Rightarrow> string \<Rightarrow> string \<Rightarrow> json \<Rightarrow> 'g rung" where
  "exec_rung fb namespace name meth params attempts g =
     (if method_min_transport meth \<le> QgaExecRpc then
        try_rung fb QgaExecRpc g (vm_guestkit_rpc fb namespace name meth params)
          (cached_rung fb namespace name meth params) attempts g
      else cached_rung fb namespace name meth params attempts g)"

definition socket_rung :: "'g fabric \<Rightarrow> string \<Rightarrow> string \<Rightarrow> bool \<Rightarrow> string \<Rightarrow> json \<Rightarrow> 'g rung" where
  "socket_rung fb namespace name is_windows meth params attempts g =
     (if method_min_transport meth \<le> InGuestSocket then
        try_rung fb InGuestSocket g (vm_in_guest_socket_rpc fb namespace name meth params is_windows)
          (exec_rung fb namespace name meth params) attempts g
      else exec_rung fb namespace name meth params attempts g)"

definition virtio_rung :: "'g fabric \<Rightarrow> string \<Rightarrow> string \<Rightarrow> bool \<Rightarrow> string \<Rightarrow> json \<Rightarrow> 'g rung" where
  "virtio_rung fb namespace name is_windows meth params attempts g =
     (if method_min_transport meth \<le> VirtioSerial then
        run_then (vm_agent_daemon_active fb namespace name is_windows) (\<lambda>active g'.
          if active then
            try_rung fb VirtioSerial g (vm_in_guest_socket_rpc fb namespace name meth params is_windows)
              (socket_rung fb namespace name is_windows meth params) attempts g'
          else socket_rung fb namespace name is_windows meth params attempts g') g
      else socket_rung fb namespace name is_windows meth params attempts g)"

definition pull_method :: "'g fabric \<Rightarrow> string \<Rightarrow> string \<Rightarrow> string \<Rightarrow> json \<Rightarrow> ('g, (string, pull_result) result) run" where
  "pull_method fb namespace name meth params g =
     (if fb_kube fb then
        let is_windows = vm_is_windows (fb_fetch_vm fb g namespace name) (fb_fetch_vmi fb g namespace name) in
        virtio_rung fb namespace name is_windows meth params [] g
      else proxy_rung fb namespace name meth params [] g)"

definition pull_for_vm :: "'g fabric \<Rightarrow> string \<Rightarrow> string \<Rightarrow> string \<Rightarrow> json \<Rightarrow> ('g, (string, json) result) run" where
  "pull_for_vm fb namespace name meth params =
     run_then (pull_method fb namespace name meth params) (\<lambda>r g.
       case r of
         Inr pulled \<Rightarrow> Some (g, Inr (pr_value pulled))
       | Inl primary \<Rightarrow>
           (case fb_proxy_url fb of
              Some proxy \<Rightarrow> Some (pull_guest_rpc fb proxy meth params g)
            | None \<Rightarrow> Some (g, Inl primary)))"

definition pull_for_vm_api :: "'g fabric \<Rightarrow> string \<Rightarrow> string \<Rightarrow> string \<Rightarrow> json \<Rightarrow> ('g, (api_error, json) result) run" where
  "pull_for_vm_api fb namespace name meth params =
     run_then (pull_for_vm fb namespace name meth params) (\<lambda>r. run_return (
       case r of Inr v \<Rightarrow> Inr v | Inl e \<Rightarrow> Inl (bad_request e)))"

definition rpc_result :: "json \<Rightarrow> json" where
  "rpc_result resp = (case json_get resp ''result'' of Some r \<Rightarrow> r | None \<Rightarrow> resp)"

subsection \<open>The doctor\<close>

record doctor_node =
  dn_id :: string
  dn_question :: string
  dn_answer :: string
  dn_ok :: bool
  dn_detail :: "string option"

record agent_doctor_report =
  dr_control_state :: string
  dr_transport :: string
  dr_nodes :: "doctor_node list"
  dr_recommended_actions :: "string list"
  dr_warnings :: "string list"
  dr_live_doctor :: "json option"
  dr_readiness_score :: "nat option"

definition yes_no :: "string \<Rightarrow> string \<Rightarrow> bool \<Rightarrow> doctor_node" where
  "yes_no i question ok =
     \<lparr>dn_id = i, dn_question = question, dn_answer = (if ok then ''yes'' else ''no''), dn_ok = ok, dn_detail = None\<rparr>"

definition base_nodes :: "guest_context \<Rightarrow> doctor_node list" where
  "base_nodes ctx =
     [yes_no ''vm_running'' ''Is VM running?'' (cx_vmi_running ctx),
      yes_no ''qga_channel'' ''Is QGA channel connected?'' (cx_qga_connected ctx),
      yes_no ''guest_ping'' ''Does guest-ping respond?'' (cx_qga_connected ctx),
      (yes_no ''zyvor_agent_installed'' ''Is zyvor-guest-agent installed?'' (cx_zyvor_agent_installed ctx))
        \<lparr>dn_detail := cx_agent_version ctx\<rparr>,
      yes_no ''agent_daemon'' ''Is agent daemon running?'' (cx_agent_daemon_running ctx),
      yes_no ''guest_network'' ''Is guest network available?'' (cx_network_available ctx),
      yes_no ''push_registration'' ''Is push registration alive?'' (cx_push_registered ctx),
      yes_no ''offline_repair'' ''Is offline repair possible?'' (cx_offline_repair_available ctx)]"

definition dash :: string where
  "dash = [CHR 0xE2, CHR 0x80, CHR 0x94]"

definition windows_node :: "guest_context \<Rightarrow> doctor_node" where
  "windows_node ctx =
     \<lparr>dn_id = ''windows_platform'', dn_question = ''Windows guest '' @ dash @ '' VirtIO/QGA service path?'',
      dn_answer = (if cx_qga_connected ctx then ''qga_ready'' else ''needs_virtio_win''), dn_ok = cx_qga_connected ctx,
      dn_detail = Some ''Install VirtIO drivers + QEMU Guest Agent for full Windows airgap control''\<rparr>"

definition compute_readiness_score :: "guest_context \<Rightarrow> json option \<Rightarrow> nat" where
  "compute_readiness_score ctx live =
     (let score = (if cx_vmi_running ctx then 15 else if cx_offline_repair_available ctx then 10 else 0) +
            (if cx_qga_connected ctx then 25 else 0) + (if cx_zyvor_agent_installed ctx then 25 else 0) +
            (if cx_agent_daemon_running ctx then 15 else 0) +
            (if cx_network_available ctx then 10
             else if cx_qga_connected ctx \<and> cx_zyvor_agent_installed ctx then 8 else 0) +
            (if cx_push_registered ctx then 10 else 0 :: int);
          score = (case Option.bind (Option.bind live (\<lambda>doc. json_at doc [''bootability'', ''score''])) as_u64 of
              Some boot \<Rightarrow> max (- (2 ^ 31)) (min (2 ^ 31 - 1) (score + sint (word_of_nat (boot div 10) :: 32 word)))
            | None \<Rightarrow> score) in
      nat (max 0 (min 100 score)))"

definition run_agent_doctor :: "'g fabric \<Rightarrow> string \<Rightarrow> string \<Rightarrow> bool \<Rightarrow> ('g, agent_doctor_report) run" where
  "run_agent_doctor fb namespace name run_live =
     run_then (probe_guest_context fb namespace name) (\<lambda>ctx.
     run_then (if run_live \<and> cx_zyvor_agent_installed ctx then
                 run_then (pull_method fb namespace name ''guestkit.doctor'' (JObject [])) (\<lambda>r. run_return (
                   case r of Inr pulled \<Rightarrow> Some (rpc_result (pr_value pulled)) | Inl _ \<Rightarrow> None))
               else run_return None) (\<lambda>live.
     let caps = context_to_capabilities ctx;
         lacks = (cx_control_state ctx = QgaOnly \<and> \<not> cx_zyvor_agent_installed ctx) in
     run_return
       \<lparr>dr_control_state = control_state_str (cx_control_state ctx), dr_transport = transport_str (cx_active_transport ctx),
        dr_nodes = base_nodes ctx @ (if cx_is_windows ctx then [windows_node ctx] else []) @
          (if lacks then [\<lparr>dn_id = ''recommendation'', dn_question = ''Recommended action'',
             dn_answer = ''Install Zyvor Guest Agent using QGA (no guest network required)'', dn_ok = True, dn_detail = None\<rparr>]
           else []) @
          (if cx_control_state ctx = AirgapLive then [\<lparr>dn_id = ''airgap_mode'',
             dn_question = ''Airgap live control available?'',
             dn_answer = ''yes '' @ dash @ '' host-mediated polling works without guest network'', dn_ok = True, dn_detail = None\<rparr>]
           else []),
        dr_recommended_actions = gc_recommended_actions caps @ (if lacks then [''install_agent_via_qga''] else []),
        dr_warnings = gc_warnings caps, dr_live_doctor = live,
        dr_readiness_score = Some (compute_readiness_score ctx live)\<rparr>))"

subsection \<open>Properties\<close>

lemma min_above_virtio: "\<not> method_min_transport meth \<le> VirtioSerial"
  by (simp add: method_min_transport_def less_eq_guest_transport_def)

lemma try_rung_answers:
  assumes "try_rung fb t start call next_rung attempts g = Some (g', Inr r)"
  obtains "pr_transport r = t" | attempts' g'' where "next_rung attempts' g'' = Some (g', Inr r)"
  using assms by (auto simp: try_rung_def split: option.splits sum.splits prod.splits)

lemma proxy_answers: "proxy_rung fb ns n m p a g = Some (g', Inr r) \<Longrightarrow> pr_transport r = HttpsPush"
  by (auto simp: proxy_rung_def Let_def split: option.splits sum.splits prod.splits)

lemma cached_answers: "cached_rung fb ns n m p a g = Some (g', Inr r) \<Longrightarrow> pr_transport r \<in> {HttpsPush, QgaBuiltin}"
  by (auto simp: cached_rung_def ping_rung_def dest: proxy_answers split: option.splits if_splits prod.splits)

lemma exec_answers: "exec_rung fb ns n m p a g = Some (g', Inr r) \<Longrightarrow> pr_transport r \<in> {HttpsPush, QgaBuiltin, QgaExecRpc}"
  by (auto simp: exec_rung_def dest: cached_answers elim!: try_rung_answers split: if_splits)

lemma socket_answers:
  "socket_rung fb ns n w m p a g = Some (g', Inr r) \<Longrightarrow> pr_transport r \<in> {HttpsPush, QgaBuiltin, QgaExecRpc, InGuestSocket}"
  by (auto simp: socket_rung_def dest: exec_answers elim!: try_rung_answers split: if_splits)

text \<open>
  The first rung of the ladder is never used: every method's minimum ranks above it, so no call is answered over
  the virtio channel, whatever the state of the guest's agent.
\<close>

theorem virtio_never_answers:
  assumes "pull_method fb namespace name meth params g = Some (g', Inr r)"
  shows "pr_transport r \<in> {HttpsPush, QgaBuiltin, QgaExecRpc, InGuestSocket}"
  using assms socket_answers proxy_answers
  by (fastforce simp: pull_method_def virtio_rung_def min_above_virtio Let_def split: if_splits)

text \<open>
  A state-changing call whose answers are all errors is sent again and again: through the guest's socket, through
  program execution, to the proxy, and to the proxy once more, whose answer is the result.
\<close>

theorem failed_call_repeated:
  assumes "fb_kube fb" "fb_proxy_url fb = Some url"
    and "\<not> read_only_method meth" "meth \<noteq> ''guestkit.freezeFilesystem''" "meth \<noteq> ''guestkit.thawFilesystem''"
    and "vm_in_guest_socket_rpc fb namespace name meth params
           (vm_is_windows (fb_fetch_vm fb g namespace name) (fb_fetch_vmi fb g namespace name)) g = Some (g1, Inl e1)"
    and "vm_guestkit_rpc fb namespace name meth params g1 = Some (g2, Inl e2)"
    and "pull_guest_rpc fb url meth params g2 = (g3, Inl e3)"
  shows "pull_for_vm fb namespace name meth params g = Some (pull_guest_rpc fb url meth params g3)"
proof -
  have m: "method_min_transport meth = QgaExecRpc" "meth \<noteq> ''guestkit.ping''"
    using assms(3-5) by (auto simp: method_min_transport_def read_only_method_def)
  have "proxy_rung fb namespace name meth params a g2 =
      Some (g3, Inl (''no guest transport for '' @ namespace @ ''/'' @ name @ '' method '' @ meth))" for a
    unfolding proxy_rung_def assms(2) Let_def using assms(8) by simp
  then have "cached_rung fb namespace name meth params a g2 =
      Some (g3, Inl (''no guest transport for '' @ namespace @ ''/'' @ name @ '' method '' @ meth))" for a
    using assms(3) m(2) by (simp only: cached_rung_def ping_rung_def if_False option.case simp_thms)
  then have "pull_method fb namespace name meth params g =
      Some (g3, Inl (''no guest transport for '' @ namespace @ ''/'' @ name @ '' method '' @ meth))"
    unfolding pull_method_def virtio_rung_def socket_rung_def exec_rung_def try_rung_def Let_def m(1) assms(6) option.case
      prod.case sum.case assms(7)
    using assms(1) by (simp add: less_eq_guest_transport_def)
  then show ?thesis
    unfolding pull_for_vm_def run_then_def by (simp only: option.case prod.case sum.case assms(2))
qed

lemma probe_shape:
  assumes "probe_guest_context fb namespace name g = Some (g', ctx)"
  shows "ctx = blind_context namespace name \<or>
    (cx_qga_connected ctx \<longrightarrow> cx_vmi_running ctx) \<and> (cx_offline_repair_available ctx \<longrightarrow> \<not> cx_vmi_running ctx) \<and>
    cx_control_state ctx = infer_control_state (cx_vmi_running ctx) (cx_qga_connected ctx) (cx_zyvor_agent_installed ctx)
      (cx_agent_daemon_running ctx) (cx_network_available ctx) (cx_push_registered ctx) (cx_offline_repair_available ctx) \<and>
    cx_active_transport ctx = choose_transport (cx_vmi_running ctx) (cx_qga_connected ctx) (cx_zyvor_agent_installed ctx)
      (cx_agent_daemon_running ctx) (cx_push_registered ctx) (cx_offline_repair_available ctx)"
proof (cases "fb_kube fb")
  case False
  then show ?thesis using assms by (simp add: probe_guest_context_def)
next
  case True
  obtain g1 q a1 where q: "probe_qga fb namespace name (fb_fetch_vmi fb g namespace name \<noteq> None) g = Some (g1, q, a1)"
      "q \<longrightarrow> fb_fetch_vmi fb g namespace name \<noteq> None"
    by (cases "fb_fetch_vmi fb g namespace name"; cases "qga_available (fb_channel fb) g namespace name")
      (auto simp: probe_qga_def)
  show ?thesis
    using assms True q(2) unfolding probe_guest_context_def Let_def run_then_def q(1) option.case prod.case
    by (auto split: option.splits prod.splits)
qed

lemma contract_agrees:
  assumes "qga \<longrightarrow> running" "offline \<longrightarrow> \<not> running"
    and st: "st = infer_control_state running qga agent daemon network push offline"
  shows "(choose_transport running qga agent daemon push offline = VirtioSerial) = (st = FullAgent \<or> st = AirgapLive)"
    and "(agent \<or> st = QgaOnly) \<and> qga \<longleftrightarrow> qga"
    and "(st = BlindVm) = (running = offline)" "(st = DiskOnly) = offline"
    and "(st = FullAgent \<or> st = AirgapLive \<or> st = QgaOnly) = qga"
  using assms(1, 2) unfolding st
  by (cases running; cases qga; cases agent; cases daemon; cases network; cases push; cases offline;
      simp add: infer_control_state_def choose_transport_def)+

text \<open>
  The contract published for a guest agrees with what was probed: the virtio transport is named exactly in the two
  states with a running agent, programs can be run exactly when the guest agent answers, a blind machine is one
  that neither runs nor can be repaired, and the services of the agent are offered only where it runs.
\<close>

theorem probe_context_consistent:
  assumes "probe_guest_context fb namespace name g = Some (g', ctx)"
  shows "(cx_active_transport ctx = VirtioSerial) = (cx_control_state ctx \<in> {FullAgent, AirgapLive}) \<and>
    cs_exec (gc_supports (context_to_capabilities ctx)) = cx_qga_connected ctx \<and>
    (cx_control_state ctx = BlindVm) = (cx_vmi_running ctx = cx_offline_repair_available ctx) \<and>
    (cx_control_state ctx = DiskOnly) = cx_offline_repair_available ctx \<and>
    cx_qga_connected ctx = (cx_control_state ctx \<in> {FullAgent, AirgapLive, QgaOnly})"
proof -
  consider "ctx = blind_context namespace name"
    | "cx_qga_connected ctx \<longrightarrow> cx_vmi_running ctx" "cx_offline_repair_available ctx \<longrightarrow> \<not> cx_vmi_running ctx"
      "cx_control_state ctx = infer_control_state (cx_vmi_running ctx) (cx_qga_connected ctx) (cx_zyvor_agent_installed ctx)
        (cx_agent_daemon_running ctx) (cx_network_available ctx) (cx_push_registered ctx) (cx_offline_repair_available ctx)"
      "cx_active_transport ctx = choose_transport (cx_vmi_running ctx) (cx_qga_connected ctx) (cx_zyvor_agent_installed ctx)
        (cx_agent_daemon_running ctx) (cx_push_registered ctx) (cx_offline_repair_available ctx)"
    using probe_shape [OF assms] by blast
  then show ?thesis
  proof cases
    case 1
    then show ?thesis by (simp add: blind_context_def context_to_capabilities_def build_capabilities_def)
  next
    case 2
    show ?thesis
      using contract_agrees [OF 2(1-3)] unfolding 2(4) by (simp add: context_to_capabilities_def build_capabilities_def) blast
  qed
qed

lemma readiness_bound: "compute_readiness_score ctx live \<le> 100"
proof -
  have clamp: "nat (max 0 (min 100 x)) \<le> 100" for x :: int by simp
  show ?thesis unfolding compute_readiness_score_def Let_def by (rule clamp)
qed

text \<open>
  The label that marks a machine's tools as connected is never seen: label values are strings, and the pointer
  used looks for a second object under the first half of the label's name.
\<close>

theorem tools_label_ignored:
  assumes "json_at vm [''metadata'', ''labels''] = Some (JObject labels)"
    and "list_all (\<lambda>(_, v). as_str v \<noteq> None) labels"
  shows "zyvor_tools_connected vm vmi = (zyvor_version vmi \<noteq> None)"
proof -
  have "json_get v ''guest-tools'' = None" if "map_of labels ''zeus.zyvor.dev'' = Some v" for v
    using assms(2) map_of_SomeD [OF that] by (cases v) (auto simp: list_all_iff)
  then have "json_at vm ([''metadata'', ''labels''] @ [''zeus.zyvor.dev'', ''guest-tools'']) = None"
    unfolding json_at_append assms(1) by (cases "map_of labels ''zeus.zyvor.dev''") simp_all
  then have "json_at vm [''metadata'', ''labels'', ''zeus.zyvor.dev'', ''guest-tools''] = None"
    by (simp only: append.simps)
  then show ?thesis
    unfolding zyvor_tools_connected_def zyvor_version_def json_str_def
    by (auto split: option.splits)
qed

subsection \<open>Examples\<close>

text \<open>A cluster without pods, and a proxy whose calls are counted and that always fails or always answers.\<close>

definition no_pods :: "nat channel" where
  "no_pods = \<lparr>ch_pods = (\<lambda>_ _ _. None), ch_exec = (\<lambda>g _ _ _ _. (g, Inl (ExecFailed []))), ch_parse = (\<lambda>_. Inl []),
     ch_show = (\<lambda>_. []), ch_now = (\<lambda>_. 0), ch_sleep = (\<lambda>g _. g), ch_encode = to_string, ch_decode = (\<lambda>s. Inr (of_string s))\<rparr>"

definition counting_fabric :: "(string, json) result \<Rightarrow> nat fabric" where
  "counting_fabric answer = \<lparr>fb_channel = no_pods, fb_kube = True, fb_fetch_vm = (\<lambda>_ _ _. None), fb_fetch_vmi = (\<lambda>_ _ _. None),
     fb_report = (\<lambda>_ _ _. None), fb_proxy_url = Some ''http://proxy'', fb_http = (\<lambda>g _. (Suc g, answer)),
     fb_json_bytes = (\<lambda>_. [])\<rparr>"

lemma no_pod: "find_virt_launcher_pod no_pods g ns n = Inl (bad_request (''No running virt-launcher pod for VM '' @ ns @ ''/'' @ n))"
  by (simp add: find_virt_launcher_pod_def no_pods_def pod_labels_def)

lemma no_qga: "qga_available no_pods g ns n = (g, False)"
  by (simp add: qga_available_def qga_ping_def no_pod is_ok_def)

lemma counting_fields:
  "fb_kube (counting_fabric a)" "fb_proxy_url (counting_fabric a) = Some ''http://proxy''"
  "fb_fetch_vm (counting_fabric a) g ns n = None" "fb_fetch_vmi (counting_fabric a) g ns n = None"
  "fb_report (counting_fabric a) g ns n = None"
  by (simp_all add: counting_fabric_def)

lemma counting_calls:
  "vm_in_guest_socket_rpc (counting_fabric a) ns n m p w g =
     Some (g, Inl (bad_request ''QEMU guest agent not available for in-guest socket RPC''))"
  "vm_guestkit_rpc (counting_fabric a) ns n m p g = Some (g, Inl (bad_request ''QEMU guest agent not available for per-VM pull''))"
  "pull_guest_rpc (counting_fabric a) url m p g = (Suc g, a)"
  by (simp_all add: vm_in_guest_socket_rpc_def vm_guestkit_rpc_def counting_fabric_def no_qga pull_guest_rpc_def)

theorem virtio_never_answers_witness:
  "pull_method (counting_fabric (Inr JNull)) ''ns'' ''vm'' ''guestkit.restartUnit'' JNull 0 \<noteq> None \<and>
   (\<exists>g' r. pull_method (counting_fabric (Inr JNull)) ''ns'' ''vm'' ''guestkit.restartUnit'' JNull 0 = Some (g', Inr r) \<and>
      pr_transport r \<in> {HttpsPush, QgaBuiltin, QgaExecRpc, InGuestSocket})"
proof -
  have m: "method_min_transport ''guestkit.restartUnit'' = QgaExecRpc" "read_only_method ''guestkit.restartUnit'' = False"
    by code_simp+
  have "\<exists>g' r. pull_method (counting_fabric (Inr JNull)) ''ns'' ''vm'' ''guestkit.restartUnit'' JNull 0 = Some (g', Inr r)"
    unfolding pull_method_def virtio_rung_def socket_rung_def exec_rung_def cached_rung_def ping_rung_def try_rung_def Let_def m
      counting_calls
    by (simp add: less_eq_guest_transport_def proxy_rung_def counting_calls counting_fields)
  then obtain g' r where
    p: "pull_method (counting_fabric (Inr JNull)) ''ns'' ''vm'' ''guestkit.restartUnit'' JNull 0 = Some (g', Inr r)" by blast
  show ?thesis using p virtio_never_answers [OF p] by (simp only: p option.distinct) blast
qed

theorem failed_call_repeated_witness:
  "pull_for_vm (counting_fabric (Inl ''down'')) ''ns'' ''vm'' ''guestkit.restartUnit'' JNull 0 = Some (2, Inl ''down'')"
proof -
  have "\<not> read_only_method ''guestkit.restartUnit''" by code_simp
  then have "pull_for_vm (counting_fabric (Inl ''down'')) ''ns'' ''vm'' ''guestkit.restartUnit'' JNull 0 =
      Some (pull_guest_rpc (counting_fabric (Inl ''down'')) ''http://proxy'' ''guestkit.restartUnit'' JNull 1)"
    by (intro failed_call_repeated) (simp_all add: counting_calls counting_fields)
  then show ?thesis by (simp add: counting_calls)
qed

theorem probe_context_consistent_witness:
  "probe_guest_context (counting_fabric (Inr JNull)) ''ns'' ''vm'' 0 \<noteq> None \<and>
   cx_control_state (snd (the (probe_guest_context (counting_fabric (Inr JNull)) ''ns'' ''vm'' 0))) = BlindVm"
proof -
  obtain ctx where p: "probe_guest_context (counting_fabric (Inr JNull)) ''ns'' ''vm'' 0 = Some (0, ctx)"
      "cx_vmi_running ctx = cx_offline_repair_available ctx"
    by (auto simp: probe_guest_context_def run_then_def probe_qga_def run_return_def counting_fabric_def Let_def)
  show ?thesis using probe_context_consistent [OF p(1)] p by simp
qed

definition labelled_vm :: json where
  "labelled_vm = JObject [(''metadata'', JObject [(''labels'', JObject [(''zeus.zyvor.dev/guest-tools'', JString ''connected'')])])]"

theorem tools_label_ignored_witness:
  "json_str labelled_vm [''metadata'', ''labels'', ''zeus.zyvor.dev/guest-tools''] = Some ''connected'' \<and>
   \<not> zyvor_tools_connected labelled_vm None"
proof -
  have "zyvor_tools_connected labelled_vm None = (zyvor_version None \<noteq> None)"
  proof (rule tools_label_ignored)
    show "json_at labelled_vm [''metadata'', ''labels''] = Some (JObject [(''zeus.zyvor.dev/guest-tools'', JString ''connected'')])"
      by code_simp
    show "list_all (\<lambda>(_, v). as_str v \<noteq> None) [(''zeus.zyvor.dev/guest-tools'', JString ''connected'')]" by code_simp
  qed
  moreover have "json_str labelled_vm [''metadata'', ''labels'', ''zeus.zyvor.dev/guest-tools''] = Some ''connected''"
    by code_simp
  ultimately show ?thesis by (simp add: zyvor_version_def)
qed

end
