(* ===== verification/Agent_Push.thy ===== *)
theory Agent_Push
  imports Guest_Transport
begin

text \<open>
  What agents push to the API server (\<^verbatim>\<open>crates/zyvor-api/src/routes/guest_agent.rs\<close>): registration under a bootstrap
  token, heartbeats, and reports that the ladder of transports falls back to.  The key-value store is a map from keys to
  JSON values, without connection failures; the updates of cluster objects are a parameter.
\<close>

subsection \<open>State\<close>

definition report_key :: "string \<Rightarrow> string" where
  "report_key agent_id = ''guest-agent:report:'' @ agent_id"

definition vm_report_key :: "string \<Rightarrow> string \<Rightarrow> string" where
  "vm_report_key namespace name = ''guest-agent:vm-report:'' @ namespace @ '':'' @ name"

definition vm_agent_id_key :: "string \<Rightarrow> string \<Rightarrow> string" where
  "vm_agent_id_key namespace name = ''guest-agent:vm-agent:'' @ namespace @ '':'' @ name"

definition heartbeat_key :: "string \<Rightarrow> string" where
  "heartbeat_key agent_id = ''guest-agent:heartbeat:'' @ agent_id"

definition events_key :: "string \<Rightarrow> string" where
  "events_key agent_id = ''guest-agent:events:'' @ agent_id"

definition meta_key :: "string \<Rightarrow> string" where
  "meta_key agent_id = ''guest-agent:meta:'' @ agent_id"

datatype cluster_patch =
    PatchHeartbeat string string json
  | PatchMigration string string json
  | PatchHealth string string json string
  | Correlate string string json json json string

record 'g push_state =
  ps_world :: 'g
  ps_kv :: "string \<rightharpoonup> json"

record 'g push_env =
  pe_bootstrap_token :: "string option"
  pe_auth_enabled :: bool
  pe_mtls_bind_addr :: "string option"
  pe_kube :: bool
  pe_patch :: "cluster_patch \<Rightarrow> 'g \<Rightarrow> 'g"
  pe_uuid :: "'g \<Rightarrow> string"
  pe_time :: "'g \<Rightarrow> string"

definition put :: "string \<Rightarrow> json \<Rightarrow> 'g push_state \<Rightarrow> 'g push_state" where
  "put k v st = st\<lparr>ps_kv := (ps_kv st)(k \<mapsto> v)\<rparr>"

definition patch :: "'g push_env \<Rightarrow> cluster_patch \<Rightarrow> 'g push_state \<Rightarrow> 'g push_state" where
  "patch env p st = st\<lparr>ps_world := pe_patch env p (ps_world st)\<rparr>"

subsection \<open>Registration\<close>

record register_request =
  rg_hostname :: string
  rg_agent_version :: string
  rg_bootstrap_token :: "string option"
  rg_namespace :: "string option"
  rg_vm_name :: "string option"

definition enforce_agent_bootstrap :: "'g push_env \<Rightarrow> string option \<Rightarrow> (api_error, unit) result" where
  "enforce_agent_bootstrap env provided =
     (case pe_bootstrap_token env of
        Some expected \<Rightarrow>
          if (case provided of Some t \<Rightarrow> t | None \<Rightarrow> []) \<noteq> expected
          then Inl (unauthorized ''invalid or missing bootstrap token'') else Inr ()
      | None \<Rightarrow>
          if pe_auth_enabled env \<or> pe_mtls_bind_addr env \<noteq> None
          then Inl (internal (''guest agent bootstrap token not configured '' @ dash @ '' set AGENT_BOOTSTRAP_TOKEN''))
          else Inr ())"

definition json_option :: "string option \<Rightarrow> json" where
  "json_option s = (case s of Some t \<Rightarrow> JString t | None \<Rightarrow> JNull)"

definition new_agent_id :: "string \<Rightarrow> string \<Rightarrow> string" where
  "new_agent_id hostname uuid =
     (if hostname = [] then uuid
      else map (\<lambda>c. if c = CHR ''.'' then CHR ''-'' else c) hostname @ ''-'' @ hd (split_on (CHR ''-'') uuid))"

definition register_guest_agent ::
    "'g push_env \<Rightarrow> register_request \<Rightarrow> 'g push_state \<Rightarrow> 'g push_state \<times> (api_error, string) result" where
  "register_guest_agent env body st =
     (case enforce_agent_bootstrap env (rg_bootstrap_token body) of
        Inl e \<Rightarrow> (st, Inl e)
      | Inr _ \<Rightarrow>
          let agent_id = new_agent_id (rg_hostname body) (pe_uuid env (ps_world st));
              meta = JObject [(''hostname'', JString (rg_hostname body)), (''agent_version'', JString (rg_agent_version body)),
                (''namespace'', json_option (rg_namespace body)), (''vm_name'', json_option (rg_vm_name body)),
                (''registered_at'', JString (pe_time env (ps_world st)))];
              st = put (meta_key agent_id) meta st;
              st = (case (rg_namespace body, rg_vm_name body) of
                  (Some ns, Some vm) \<Rightarrow> put (vm_agent_id_key ns vm) (JString agent_id) st
                | _ \<Rightarrow> st) in
          (st, Inr agent_id))"

subsection \<open>Heartbeats and reports\<close>

text \<open>The machine an agent registered for, if it named one.\<close>

definition registered_vm :: "'g push_state \<Rightarrow> string \<Rightarrow> (json \<times> string \<times> string) option" where
  "registered_vm st agent_id =
     Option.bind (ps_kv st (meta_key agent_id)) (\<lambda>meta.
     Option.bind (Option.bind (json_get meta ''namespace'') as_str) (\<lambda>ns.
     map_option (\<lambda>vm. (meta, ns, vm)) (Option.bind (json_get meta ''vm_name'') as_str)))"

definition guest_agent_heartbeat :: "'g push_env \<Rightarrow> string \<Rightarrow> json \<Rightarrow> 'g push_state \<Rightarrow> 'g push_state" where
  "guest_agent_heartbeat env agent_id body st =
     (let payload = JObject [(''agent_id'', JString agent_id), (''body'', body), (''at'', JString (pe_time env (ps_world st)))];
          st = (case json_get body ''recent_events'' of Some events \<Rightarrow> put (events_key agent_id) events st | None \<Rightarrow> st);
          st = put (heartbeat_key agent_id) payload st in
      if json_get body ''heartbeat'' = None \<and> json_get body ''migration_assessment'' = None then st
      else case (registered_vm st agent_id, pe_kube env) of
        (Some (_, ns, vm), True) \<Rightarrow>
          let st = (case json_get body ''heartbeat'' of Some hb \<Rightarrow> patch env (PatchHeartbeat ns vm hb) st | None \<Rightarrow> st) in
          (case json_get body ''migration_assessment'' of
             Some m \<Rightarrow> patch env (PatchMigration ns vm m) st
           | None \<Rightarrow> st)
      | _ \<Rightarrow> st)"

record guest_report_payload =
  rp_guest_health :: json
  rp_metrics :: json
  rp_recent_events :: json

definition stored_report :: "string \<Rightarrow> guest_report_payload \<Rightarrow> string \<Rightarrow> json" where
  "stored_report agent_id body received_at =
     JObject [(''agent_id'', JString agent_id), (''guest_health'', rp_guest_health body), (''metrics'', rp_metrics body),
       (''recent_events'', rp_recent_events body), (''received_at'', JString received_at)]"

definition guest_agent_report :: "'g push_env \<Rightarrow> string \<Rightarrow> guest_report_payload \<Rightarrow> 'g push_state \<Rightarrow> 'g push_state" where
  "guest_agent_report env agent_id body st =
     (let report = stored_report agent_id body (pe_time env (ps_world st));
          st = put (report_key agent_id) report st in
      case registered_vm st agent_id of
        None \<Rightarrow> st
      | Some (meta, ns, vm) \<Rightarrow>
          let st = put (vm_report_key ns vm) report st;
              version = (case Option.bind (json_get meta ''agent_version'') as_str of Some v \<Rightarrow> v | None \<Rightarrow> ''unknown'') in
          if pe_kube env then
            patch env (Correlate ns vm (rp_guest_health body) (rp_metrics body) (rp_recent_events body) version)
              (patch env (PatchHealth ns vm (rp_guest_health body) version) st)
          else st)"

definition get_guest_agent_report :: "string \<Rightarrow> 'g push_state \<Rightarrow> json" where
  "get_guest_agent_report agent_id st = (case ps_kv st (report_key agent_id) of Some r \<Rightarrow> r | None \<Rightarrow> JObject [])"

definition fetch_vm_guest_report :: "'g push_state \<Rightarrow> string \<Rightarrow> string \<Rightarrow> json option" where
  "fetch_vm_guest_report st namespace name = ps_kv st (vm_report_key namespace name)"

subsection \<open>Keys do not meet\<close>

lemma keys_apart [simp]:
  "report_key a \<noteq> vm_report_key n v" "vm_report_key n v \<noteq> report_key a" "meta_key a \<noteq> report_key b" "meta_key a \<noteq> vm_report_key n v"
  "report_key b \<noteq> meta_key a" "vm_agent_id_key n v \<noteq> meta_key a" "meta_key a \<noteq> vm_agent_id_key n v"
  by (simp_all add: report_key_def vm_report_key_def meta_key_def vm_agent_id_key_def)

lemma put_kv [simp]: "ps_kv (put k v st) = (ps_kv st)(k \<mapsto> v)" "ps_world (put k v st) = ps_world st"
  by (simp_all add: put_def)

lemma patch_kv [simp]: "ps_kv (patch env p st) = ps_kv st"
  by (simp add: patch_def)

lemma registered_put [simp]: "k \<noteq> meta_key a \<Longrightarrow> registered_vm (put k v st) a = registered_vm st a"
  by (simp add: registered_vm_def)

lemma report_kv:
  "ps_kv (guest_agent_report env agent_id body st) =
     (case registered_vm st agent_id of
        None \<Rightarrow> (ps_kv st)(report_key agent_id \<mapsto> stored_report agent_id body (pe_time env (ps_world st)))
      | Some (_, ns, vm) \<Rightarrow> (ps_kv st)(report_key agent_id \<mapsto> stored_report agent_id body (pe_time env (ps_world st)),
          vm_report_key ns vm \<mapsto> stored_report agent_id body (pe_time env (ps_world st))))"
  by (auto simp: guest_agent_report_def Let_def split: option.splits)

text \<open>
  Registration is a round trip: a registered agent's reports are kept under the machine it named, and a wrong token
  changes nothing.
\<close>

theorem registration_roundtrip:
  assumes "register_guest_agent env reg st = (st', r)" "rg_namespace reg = Some ns" "rg_vm_name reg = Some vm"
  shows "case r of
      Inl e \<Rightarrow> st' = st \<and> enforce_agent_bootstrap env (rg_bootstrap_token reg) = Inl e
    | Inr agent_id \<Rightarrow>
        fetch_vm_guest_report (guest_agent_report env agent_id body st') ns vm =
          Some (get_guest_agent_report agent_id (guest_agent_report env agent_id body st'))"
proof (cases "enforce_agent_bootstrap env (rg_bootstrap_token reg)")
  case (Inl e)
  then show ?thesis using assms(1) by (auto simp: register_guest_agent_def)
next
  case (Inr x)
  define i where "i = new_agent_id (rg_hostname reg) (pe_uuid env (ps_world st))"
  have r: "r = Inr i" using assms(1) Inr by (auto simp: register_guest_agent_def Let_def i_def)
  have "\<exists>meta. registered_vm st' i = Some (meta, ns, vm)"
    using assms Inr by (auto simp: register_guest_agent_def Let_def i_def registered_vm_def json_option_def)
  then show ?thesis
    by (auto simp: r fetch_vm_guest_report_def get_guest_agent_report_def report_kv)
qed

text \<open>
  Claim C32.  Reports need no identity.  With authentication on, a request without any credential reaches the report route of every
  agent, for writing and for reading; the report it leaves for a registered agent is stored for that agent's machine, and a
  call for the machine's health that no live transport answers returns the forged value.
\<close>

theorem forged_report_served:
  assumes "registered_vm st agent_id = Some (meta, ns, vm)"
    and "fb_report fb g ns vm = fetch_vm_guest_report (guest_agent_report env agent_id body st) ns vm"
  shows "require_auth aenv \<lparr>hr_method = meth, hr_path = ''/api/v1/guest-agents/'' @ agent_id @ ''/report'', hr_authorization = None\<rparr>
      = Inr None \<and>
    cached_rung fb ns vm ''guestkit.getGuestHealth'' params attempts g =
      Some (g, Inr \<lparr>pr_value = JObject [(''result'', rp_guest_health body)], pr_transport = HttpsPush,
        pr_attempts = attempts @ [note_attempt fb g g (transport_str HttpsPush) True None], pr_network_required = True\<rparr>)"
proof
  let ?path = "''/api/v1/guest-agents/'' @ agent_id @ ''/report''"
  have "starts_with ?path ''/api/v1/guest-agents''" by (simp add: starts_with_def)
  moreover have "ends_with ?path ''/report''" unfolding ends_with_def suffix_def by (metis append.assoc)
  ultimately have "is_guest_agent_public meth ?path" unfolding is_guest_agent_public_def by simp
  then have "is_public_route meth ?path" by (simp only: is_public_route_def simp_thms)
  then show "require_auth aenv \<lparr>hr_method = meth, hr_path = ?path, hr_authorization = None\<rparr> = Inr None"
    unfolding require_auth_def http_request.simps by simp
  have f: "fb_report fb g ns vm = Some (stored_report agent_id body (pe_time env (ps_world st)))"
    using assms by (simp add: fetch_vm_guest_report_def report_kv)
  have m: "map_push_report_to_method (stored_report agent_id body t) ''guestkit.getGuestHealth'' = Some (rp_guest_health body)" for t
    by (simp add: map_push_report_to_method_def stored_report_def)
  have ro: "read_only_method ''guestkit.getGuestHealth''" by code_simp
  show "cached_rung fb ns vm ''guestkit.getGuestHealth'' params attempts g =
      Some (g, Inr \<lparr>pr_value = JObject [(''result'', rp_guest_health body)], pr_transport = HttpsPush,
        pr_attempts = attempts @ [note_attempt fb g g (transport_str HttpsPush) True None], pr_network_required = True\<rparr>)"
    unfolding cached_rung_def f Option.bind.simps m using ro by simp
qed

subsection \<open>Examples\<close>

definition sample_env :: "nat push_env" where
  "sample_env = \<lparr>pe_bootstrap_token = Some ''secret'', pe_auth_enabled = True, pe_mtls_bind_addr = None, pe_kube = False,
     pe_patch = (\<lambda>_ g. g), pe_uuid = (\<lambda>_. ''1234-5678''), pe_time = (\<lambda>_. ''now'')\<rparr>"

definition sample_registration :: register_request where
  "sample_registration = \<lparr>rg_hostname = ''web.local'', rg_agent_version = ''1.0'', rg_bootstrap_token = Some ''secret'',
     rg_namespace = Some ''ns'', rg_vm_name = Some ''vm''\<rparr>"

definition empty_push :: "nat push_state" where
  "empty_push = \<lparr>ps_world = 0, ps_kv = Map.empty\<rparr>"

definition forged :: guest_report_payload where
  "forged = \<lparr>rp_guest_health = JString ''healthy'', rp_metrics = JNull, rp_recent_events = JNull\<rparr>"

definition registered_push :: "nat push_state" where
  "registered_push = fst (register_guest_agent sample_env sample_registration empty_push)"

lemma sample_registers: "snd (register_guest_agent sample_env sample_registration empty_push) = Inr ''web-local-1234''"
  by code_simp

theorem registration_roundtrip_witness:
  "fetch_vm_guest_report (guest_agent_report sample_env ''web-local-1234'' forged registered_push) ''ns'' ''vm'' =
     Some (get_guest_agent_report ''web-local-1234'' (guest_agent_report sample_env ''web-local-1234'' forged registered_push))"
proof -
  have "register_guest_agent sample_env sample_registration empty_push = (registered_push, Inr ''web-local-1234'')"
    using sample_registers by (simp add: registered_push_def prod_eq_iff)
  from registration_roundtrip [OF this, of "''ns''" "''vm''" forged] show ?thesis
    by (simp add: sample_registration_def)
qed

lemma sample_vm: "\<exists>meta. registered_vm registered_push ''web-local-1234'' = Some (meta, ''ns'', ''vm'')"
proof -
  have "map_option snd (registered_vm registered_push ''web-local-1234'') = Some (''ns'', ''vm'')" by code_simp
  then show ?thesis by auto
qed

theorem forged_report_served_witness:
  "\<exists>g r. cached_rung ((counting_fabric (Inl []))\<lparr>fb_report :=
       (\<lambda>_. fetch_vm_guest_report (guest_agent_report sample_env ''web-local-1234'' forged registered_push))\<rparr>)
     ''ns'' ''vm'' ''guestkit.getGuestHealth'' JNull [] 0 = Some (g, Inr r) \<and>
     pr_value r = JObject [(''result'', JString ''healthy'')]"
proof -
  obtain meta where m: "registered_vm registered_push ''web-local-1234'' = Some (meta, ''ns'', ''vm'')" using sample_vm by blast
  have "rp_guest_health forged = JString ''healthy''" by (simp add: forged_def)
  then show ?thesis
    using forged_report_served [OF m, where fb = "(counting_fabric (Inl []))\<lparr>fb_report :=
       (\<lambda>_. fetch_vm_guest_report (guest_agent_report sample_env ''web-local-1234'' forged registered_push))\<rparr>" and g = 0
       and env = sample_env and body = forged and params = JNull and attempts = "[]"] by simp
qed

end
