(* ===== verification/Action_Policy.thy ===== *)
theory Action_Policy
  imports Api_Auth
begin

text \<open>
  The cluster's \<open>GuestActionPolicy\<close> and its enforcement (\<^verbatim>\<open>crates/zyvor-api/src/guest_action_policy.rs\<close>).
  The Kubernetes client is a parameter: what listing the policy objects returned, and the decoding of one.
\<close>

subsection \<open>The policy\<close>

record guest_action_policy =
  gp_allowed_actions :: "string list"
  gp_restart_unit_allowlist :: "string list"
  gp_exec_allowlist :: "string list"
  gp_file_read_allowlist :: "string list"
  gp_file_write_allowlist :: "string list"
  gp_freeze_allowed :: bool
  gp_max_exec_output_bytes :: nat
  gp_require_approval :: bool

definition default_max_output :: nat where
  "default_max_output = 32 * 1024"

text \<open>A client: the specifications of the listed objects, or a failed request, and their decoding.\<close>

record 's kube_client =
  kc_list :: "'s option list option"
  kc_decode :: "'s \<Rightarrow> guest_action_policy option"

definition fetch_guest_action_policy :: "'s kube_client \<Rightarrow> guest_action_policy option" where
  "fetch_guest_action_policy client =
     (case kc_list client of
        Some (spec # _) \<Rightarrow> Option.bind spec (kc_decode client)
      | _ \<Rightarrow> None)"

definition restart_unit_allowed :: "guest_action_policy \<Rightarrow> string \<Rightarrow> bool" where
  "restart_unit_allowed p unit_name =
     (if gp_allowed_actions p \<noteq> [] \<and> \<not> (\<exists>a \<in> set (gp_allowed_actions p). a = ''restart_unit'' \<or> a = ''restart-unit'')
      then False
      else if gp_restart_unit_allowlist p = [] then True
      else unit_name \<in> set (gp_restart_unit_allowlist p))"

definition underscored :: "string \<Rightarrow> string" where
  "underscored s = map (\<lambda>c. if c = CHR ''-'' then CHR ''_'' else c) s"

definition action_allowed :: "guest_action_policy \<Rightarrow> string \<Rightarrow> bool" where
  "action_allowed p action =
     (gp_allowed_actions p = [] \<or> (\<exists>a \<in> set (gp_allowed_actions p). a = action \<or> underscored a = underscored action))"

definition path_matches_allowlist :: "string list \<Rightarrow> string \<Rightarrow> bool \<Rightarrow> bool" where
  "path_matches_allowlist allowlist path policy_active =
     (if allowlist = [] then \<not> policy_active else \<exists>p \<in> set allowlist. starts_with path p \<or> path = p)"

definition trim_end_stars :: "string \<Rightarrow> string" where
  "trim_end_stars s = rev (dropWhile (\<lambda>c. c = CHR ''*'') (rev s))"

definition command_matches :: "string \<Rightarrow> string \<Rightarrow> bool" where
  "command_matches command pat =
     (if ends_with pat ''*'' then starts_with command (trim_end_stars pat)
      else command = pat \<or> contains command pat)"

definition command_matches_allowlist :: "string list \<Rightarrow> string \<Rightarrow> bool \<Rightarrow> bool" where
  "command_matches_allowlist allowlist command policy_active =
     (if allowlist = [] then \<not> policy_active else \<exists>pat \<in> set allowlist. command_matches command pat)"

text \<open>Every enforcement starts the same way: no client or no policy lets the action pass, and a policy may
  demand an approval that the caller does not bring.\<close>

definition with_policy ::
    "'s kube_client option \<Rightarrow> bool \<Rightarrow> string \<Rightarrow> 'a \<Rightarrow> (guest_action_policy \<Rightarrow> (api_error, 'a) result) \<Rightarrow> (api_error, 'a) result" where
  "with_policy client skip_approval what absent check =
     (case Option.bind client fetch_guest_action_policy of
        None \<Rightarrow> Inr absent
      | Some p \<Rightarrow>
          if \<not> skip_approval \<and> gp_require_approval p
          then Inl (bad_request (''GuestActionPolicy requires approval for '' @ what))
          else check p)"

definition enforce_restart_unit :: "'s kube_client option \<Rightarrow> string \<Rightarrow> bool \<Rightarrow> (api_error, unit) result" where
  "enforce_restart_unit client unit_name skip_approval =
     with_policy client skip_approval ''remediation actions'' () (\<lambda>p.
       if \<not> restart_unit_allowed p unit_name
       then Inl (bad_request (''restart_unit denied by GuestActionPolicy for '' @ unit_name)) else Inr ())"

definition enforce_support_bundle :: "'s kube_client option \<Rightarrow> bool \<Rightarrow> (api_error, unit) result" where
  "enforce_support_bundle client skip_approval =
     with_policy client skip_approval ''support bundle collection'' () (\<lambda>p.
       if \<not> action_allowed p ''collect_support_bundle''
       then Inl (bad_request ''collect_support_bundle denied by GuestActionPolicy'') else Inr ())"

definition enforce_exec :: "'s kube_client option \<Rightarrow> string \<Rightarrow> bool \<Rightarrow> (api_error, nat) result" where
  "enforce_exec client command skip_approval =
     with_policy client skip_approval ''exec'' default_max_output (\<lambda>p.
       if \<not> action_allowed p ''exec'' \<and> gp_allowed_actions p \<noteq> [] then Inl (bad_request ''exec denied by GuestActionPolicy'')
       else if gp_exec_allowlist p = [] then
         Inl (bad_request ''exec denied: configure execAllowlist in GuestActionPolicy (no raw shell by default)'')
       else if \<not> command_matches_allowlist (gp_exec_allowlist p) command True then
         Inl (bad_request ''exec command not in GuestActionPolicy allowlist'')
       else Inr (gp_max_exec_output_bytes p))"

definition enforce_file_read :: "'s kube_client option \<Rightarrow> string \<Rightarrow> bool \<Rightarrow> (api_error, unit) result" where
  "enforce_file_read client path skip_approval =
     with_policy client skip_approval ''file read'' () (\<lambda>p.
       if \<not> action_allowed p ''file_read'' \<and> gp_allowed_actions p \<noteq> []
       then Inl (bad_request ''file_read denied by GuestActionPolicy'')
       else if \<not> path_matches_allowlist (gp_file_read_allowlist p) path True
       then Inl (bad_request ''file path not in GuestActionPolicy read allowlist (configure fileReadAllowlist)'')
       else Inr ())"

definition enforce_file_write :: "'s kube_client option \<Rightarrow> string \<Rightarrow> bool \<Rightarrow> (api_error, unit) result" where
  "enforce_file_write client path skip_approval =
     with_policy client skip_approval ''file write'' () (\<lambda>p.
       if \<not> action_allowed p ''file_write'' \<and> gp_allowed_actions p \<noteq> []
       then Inl (bad_request ''file_write denied by GuestActionPolicy'')
       else if \<not> path_matches_allowlist (gp_file_write_allowlist p) path True
       then Inl (bad_request ''file path not in GuestActionPolicy write allowlist (configure fileWriteAllowlist)'')
       else Inr ())"

definition enforce_freeze :: "'s kube_client option \<Rightarrow> bool \<Rightarrow> (api_error, unit) result" where
  "enforce_freeze client skip_approval =
     with_policy client skip_approval ''filesystem freeze'' () (\<lambda>p.
       if \<not> gp_freeze_allowed p then Inl (bad_request ''freeze denied by GuestActionPolicy'')
       else if \<not> action_allowed p ''freeze'' \<and> gp_allowed_actions p \<noteq> []
       then Inl (bad_request ''freeze denied by GuestActionPolicy'')
       else Inr ())"

definition policy_requires_approval :: "'s kube_client option \<Rightarrow> bool" where
  "policy_requires_approval client =
     (case Option.bind client fetch_guest_action_policy of Some p \<Rightarrow> gp_require_approval p | None \<Rightarrow> False)"

end
