(* ===== verification/Guest_Routes.thy ===== *)
theory Guest_Routes
  imports Guest_Transport Action_Policy
begin

text \<open>
  The routes that act inside a running guest: running a command (\<^verbatim>\<open>crates/zyvor-api/src/kubevirt_vmtools_ops.rs\<close>) and reading
  and writing a file (\<^verbatim>\<open>guest_control/routes.rs\<close>), each under the cluster's policy and with an audit record
  (\<^verbatim>\<open>guest_actions.rs\<close>).  The same file has the operations that
  KubeVirt carries out on a machine: freezing, thawing, rebooting and stopping it.  The clock, the identifiers, the store of
  audit events and the requests to KubeVirt are parameters.
\<close>

record guest_action_audit_event =
  ev_id :: string
  ev_action :: string
  ev_namespace :: string
  ev_vm_name :: string
  ev_transport :: string
  ev_network_required :: bool
  ev_created_at :: string
  ev_detail :: "json option"

record ('g, 's) app =
  ap_fabric :: "'g fabric"
  ap_kube :: "'s kube_client option"
  ap_uuid :: "'g \<Rightarrow> string"
  ap_time :: "'g \<Rightarrow> string"
  ap_store_event :: "'g \<Rightarrow> guest_action_audit_event \<Rightarrow> 'g \<times> (string, unit) result"
  ap_put :: "'g \<Rightarrow> string \<Rightarrow> json \<Rightarrow> 'g \<times> (string, unit) result"

definition app_fabric :: "('g, 's) app \<Rightarrow> 'g fabric" where
  "app_fabric app = (ap_fabric app)\<lparr>fb_kube := (ap_kube app \<noteq> None)\<rparr>"

text \<open>A handler replies, or its task panics.\<close>

datatype 'a reply = Replied "(api_error, 'a) result" | Panicked

definition record_guest_action_audit ::
    "('g, 's) app \<Rightarrow> string \<Rightarrow> string \<Rightarrow> string \<Rightarrow> string \<Rightarrow> bool \<Rightarrow> json \<Rightarrow> 'g \<Rightarrow> 'g \<times> (api_error, unit) result" where
  "record_guest_action_audit app action namespace vm_name transport network_required detail g =
     (case ap_store_event app g \<lparr>ev_id = ap_uuid app g, ev_action = action, ev_namespace = namespace, ev_vm_name = vm_name,
             ev_transport = transport, ev_network_required = network_required, ev_created_at = ap_time app g,
             ev_detail = Some detail\<rparr> of
        (g', Inl e) \<Rightarrow> (g', Inl (internal e))
      | (g', Inr _) \<Rightarrow> (g', Inr ()))"

subsection \<open>Running a command\<close>

record exec_request =
  xr_path :: "string option"
  xr_args :: "string list"
  xr_command :: "string option"

record exec_reply =
  xp_success :: bool
  xp_exit_code :: int
  xp_stdout :: string
  xp_stderr :: string

definition require_running_vmi :: "'g fabric \<Rightarrow> 'g \<Rightarrow> string \<Rightarrow> string \<Rightarrow> (api_error, json) result" where
  "require_running_vmi fb g namespace name =
     (case fb_fetch_vmi fb g namespace name of
        None \<Rightarrow> Inl (bad_request (''VM '' @ namespace @ ''/'' @ name @ '' is not running''))
      | Some vmi \<Rightarrow>
          let phase = (case json_str vmi [''status'', ''phase''] of Some p \<Rightarrow> p | None \<Rightarrow> []) in
          if phase \<noteq> ''Running''
          then Inl (bad_request (''VM '' @ namespace @ ''/'' @ name @ '' is not running (phase='' @ phase @ '')''))
          else Inr vmi)"

definition agent_connected :: "json \<Rightarrow> bool" where
  "agent_connected vmi =
     (case Option.bind (json_at vmi [''status'', ''conditions'']) as_array of
        Some conds \<Rightarrow>
          list_ex (\<lambda>c. Option.bind (json_get c ''type'') as_str = Some ''AgentConnected'' \<and>
            Option.bind (json_get c ''status'') as_str = Some ''True'') conds
      | None \<Rightarrow> False)"

definition nonempty :: "string option \<Rightarrow> string option" where
  "nonempty s = (if s = Some [] then None else s)"

text \<open>The text checked against the policy, and the program and arguments started in the guest.\<close>

definition checked_command :: "exec_request \<Rightarrow> (api_error, string) result" where
  "checked_command body =
     (case nonempty (xr_command body) of
        Some cmd \<Rightarrow> Inr cmd
      | None \<Rightarrow>
          (case nonempty (xr_path body) of
             None \<Rightarrow> Inl (bad_request ''Provide command or path'')
           | Some path \<Rightarrow> Inr (path @ '' '' @ join '' '' (xr_args body))))"

definition exec_argv :: "exec_request \<Rightarrow> (api_error, string \<times> string list) result" where
  "exec_argv body =
     (case nonempty (xr_command body) of
        Some cmd \<Rightarrow>
          if CHR 0x5C \<in> set cmd \<or> contains (map ascii_lower cmd) ''powershell''
          then Inr (powershell_path,
                 [''-NoProfile'', ''-NonInteractive'', ''-ExecutionPolicy'', ''Bypass'', ''-Command'', cmd])
          else Inr (''/bin/sh'', [''-c'', cmd])
      | None \<Rightarrow>
          (case nonempty (xr_path body) of
             None \<Rightarrow> Inl (bad_request ''Provide command or path'')
           | Some path \<Rightarrow> Inr (path, xr_args body)))"

definition plan_exec :: "'s kube_client option \<Rightarrow> exec_request \<Rightarrow> (api_error, nat \<times> string \<times> string list) result" where
  "plan_exec client body =
     rbind (checked_command body) (\<lambda>command.
     rbind (enforce_exec client command False) (\<lambda>max_out.
     rbind (exec_argv body) (\<lambda>(path, args). Inr (max_out, path, args))))"

definition exec_vm_handler :: "('g, 's) app \<Rightarrow> string \<Rightarrow> string \<Rightarrow> exec_request \<Rightarrow> ('g, exec_reply reply) run" where
  "exec_vm_handler app namespace name body g =
     (if ap_kube app = None
      then Some (g, Replied (Inl (bad_request ''VM Tools ops require in-cluster Kubernetes access'')))
      else case require_running_vmi (app_fabric app) g namespace name of
        Inl e \<Rightarrow> Some (g, Replied (Inl e))
      | Inr vmi \<Rightarrow>
          if \<not> agent_connected vmi
          then Some (g, Replied (Inl (bad_request (''Guest agent not connected '' @ dash @
                 '' install qemu-guest-agent or Zeus VM Tools first''))))
          else case plan_exec (ap_kube app) body of
            Inl e \<Rightarrow> Some (g, Replied (Inl e))
          | Inr (max_out, path, args) \<Rightarrow>
              run_then (\<lambda>g. qga_exec (fb_channel (app_fabric app)) g namespace name path args 120) (\<lambda>r. run_return (
                case r of
                  Inl e \<Rightarrow> Replied (Inl e)
                | Inr result \<Rightarrow>
                    (case truncate_exec_output (qx_stdout result) (qx_stderr result) max_out of
                       None \<Rightarrow> Panicked
                     | Some (stdout, stderr) \<Rightarrow>
                         Replied (Inr \<lparr>xp_success = (qx_exit_code result = 0), xp_exit_code = qx_exit_code result,
                           xp_stdout = stdout, xp_stderr = stderr\<rparr>)))) g)"

subsection \<open>Operations of KubeVirt\<close>

record vm_tools_op_result =
  vo_success :: bool
  vo_action :: string
  vo_message :: string
  vo_phase :: "string option"

definition invoke_vmi_subresource ::
    "('g, 's) app \<Rightarrow> string \<Rightarrow> string \<Rightarrow> string \<Rightarrow> json \<Rightarrow> 'g \<Rightarrow> 'g \<times> (api_error, unit) result" where
  "invoke_vmi_subresource app namespace name action body g =
     (case ap_put app g (''/apis/subresources.kubevirt.io/v1/namespaces/'' @ namespace @ ''/virtualmachineinstances/'' @ name @
             ''/'' @ action) body of
        (g', Inr _) \<Rightarrow> (g', Inr ())
      | (g', Inl msg) \<Rightarrow>
          if contains msg ''EOF while parsing'' \<or> contains msg ''error decoding response body'' then (g', Inr ())
          else (g', Inl (internal (action @ '' VMI '' @ namespace @ ''/'' @ name @ '': '' @ msg))))"

definition invoke_vm_stop ::
    "('g, 's) app \<Rightarrow> string \<Rightarrow> string \<Rightarrow> int \<Rightarrow> 'g \<Rightarrow> 'g \<times> (api_error, unit) result" where
  "invoke_vm_stop app namespace name grace_period_seconds g =
     (case ap_put app g (''/apis/subresources.kubevirt.io/v1/namespaces/'' @ namespace @ ''/virtualmachines/'' @ name @ ''/stop'')
             (JObject [(''gracePeriod'', JNumber grace_period_seconds)]) of
        (g', Inr _) \<Rightarrow> (g', Inr ())
      | (g', Inl e) \<Rightarrow> (g', Inl (internal (''stop VM '' @ namespace @ ''/'' @ name @ '': '' @ e))))"

text \<open>The machine must run and, where the operation needs it, its guest agent be connected.\<close>

definition ready_vmi ::
    "('g, 's) app \<Rightarrow> 'g \<Rightarrow> string \<Rightarrow> string \<Rightarrow> string option \<Rightarrow> (api_error, json) result" where
  "ready_vmi app g namespace name needs_agent =
     (if ap_kube app = None then Inl (bad_request ''VM Tools ops require in-cluster Kubernetes access'')
      else rbind (require_running_vmi (app_fabric app) g namespace name) (\<lambda>vmi.
        case needs_agent of
          Some hint \<Rightarrow>
            if \<not> agent_connected vmi then Inl (bad_request (''Guest agent not connected '' @ dash @ hint)) else Inr vmi
        | None \<Rightarrow> Inr vmi))"

definition vmi_operation ::
    "('g, 's) app \<Rightarrow> string \<Rightarrow> string \<Rightarrow> string option \<Rightarrow> string \<Rightarrow> json \<Rightarrow> string \<Rightarrow> string \<Rightarrow> 'g
      \<Rightarrow> 'g \<times> (api_error, vm_tools_op_result) result" where
  "vmi_operation app namespace name needs_agent subresource body action message g =
     (case ready_vmi app g namespace name needs_agent of
        Inl e \<Rightarrow> (g, Inl e)
      | Inr vmi \<Rightarrow>
          (case invoke_vmi_subresource app namespace name subresource body g of
             (g', Inl e) \<Rightarrow> (g', Inl e)
           | (g', Inr _) \<Rightarrow>
               (g', Inr \<lparr>vo_success = True, vo_action = action, vo_message = message @ namespace @ ''/'' @ name,
                 vo_phase = json_str vmi [''status'', ''phase'']\<rparr>)))"

definition quiesce_vm_handler ::
    "('g, 's) app \<Rightarrow> string \<Rightarrow> string \<Rightarrow> 'g \<Rightarrow> 'g \<times> (api_error, vm_tools_op_result) result" where
  "quiesce_vm_handler app namespace name =
     vmi_operation app namespace name (Some '' install Zeus VM Tools before snapshot quiesce'') ''freeze''
       (JObject [(''unfreezeTimeout'', JString ''300s'')]) ''quiesce'' ''Filesystem quiesced for ''"

definition unquiesce_vm_handler ::
    "('g, 's) app \<Rightarrow> string \<Rightarrow> string \<Rightarrow> 'g \<Rightarrow> 'g \<times> (api_error, vm_tools_op_result) result" where
  "unquiesce_vm_handler app namespace name =
     vmi_operation app namespace name None ''unfreeze'' (JObject []) ''unquiesce'' ''Filesystem thawed for ''"

definition reboot_vm_handler ::
    "('g, 's) app \<Rightarrow> string \<Rightarrow> string \<Rightarrow> 'g \<Rightarrow> 'g \<times> (api_error, vm_tools_op_result) result" where
  "reboot_vm_handler app namespace name =
     vmi_operation app namespace name (Some '' use cluster Restart or install Zeus VM Tools first'') ''softreboot'' (JObject [])
       ''reboot'' ''Guest soft reboot requested for ''"

definition shutdown_vm_handler ::
    "('g, 's) app \<Rightarrow> string \<Rightarrow> string \<Rightarrow> int option \<Rightarrow> 'g \<Rightarrow> 'g \<times> (api_error, vm_tools_op_result) result" where
  "shutdown_vm_handler app namespace name grace_period_seconds g =
     (if ap_kube app = None then (g, Inl (bad_request ''VM Tools ops require in-cluster Kubernetes access''))
      else if Option.bind (fb_fetch_vmi (app_fabric app) g namespace name) (\<lambda>v. json_str v [''status'', ''phase''])
               \<noteq> Some ''Running''
      then (g, Inl (bad_request (''VM '' @ namespace @ ''/'' @ name @ '' is not running'')))
      else
        let grace = max 0 (min 300 (case grace_period_seconds of Some s \<Rightarrow> s | None \<Rightarrow> 60)) in
        (case invoke_vm_stop app namespace name grace g of
           (g', Inl e) \<Rightarrow> (g', Inl e)
         | (g', Inr _) \<Rightarrow>
             (g', Inr \<lparr>vo_success = True, vo_action = ''shutdown'',
               vo_message = ''Graceful shutdown requested for '' @ namespace @ ''/'' @ name @ '' (gracePeriod='' @ show_int grace @ ''s)'',
               vo_phase = Some ''Stopping''\<rparr>)))"

subsection \<open>Reading and writing files\<close>

record file_read_body =
  fr_path :: string
  fr_max_bytes :: nat

record file_write_body =
  fw_path :: string
  fw_content_b64 :: string

definition required_client :: "('g, 's) app \<Rightarrow> (api_error, 's kube_client) result" where
  "required_client app =
     (case ap_kube app of None \<Rightarrow> Inl (bad_request ''Kubernetes client required'') | Some c \<Rightarrow> Inr c)"

definition audit_detail :: "string \<Rightarrow> nat \<Rightarrow> json" where
  "audit_detail path n = JObject [(''path'', JString path), (''bytes'', JNumber (int n))]"

text \<open>After the file was moved: the guest is probed, and the action recorded.\<close>

definition audit_file_action ::
    "('g, 's) app \<Rightarrow> string \<Rightarrow> string \<Rightarrow> string \<Rightarrow> string \<Rightarrow> nat \<Rightarrow> 'a \<Rightarrow> ('g, (api_error, guest_context \<times> 'a) result) run" where
  "audit_file_action app action namespace name path n x =
     run_then (probe_guest_context (app_fabric app) namespace name) (\<lambda>ctx g.
       case record_guest_action_audit app action namespace name (transport_str (cx_active_transport ctx)) False
              (audit_detail path n) g of
         (g', Inl e) \<Rightarrow> Some (g', Inl e)
       | (g', Inr _) \<Rightarrow> Some (g', Inr (ctx, x)))"

definition gate_file_read :: "('g, 's) app \<Rightarrow> string \<Rightarrow> (api_error, unit) result" where
  "gate_file_read app path =
     rbind (required_client app) (\<lambda>client.
     rbind (enforce_file_read (Some client) path False) (\<lambda>_.
       if policy_requires_approval (ap_kube app) then Inl (bad_request ''GuestActionPolicy requires approval for file read'')
       else Inr ()))"

definition post_guest_file_read ::
    "('g, 's) app \<Rightarrow> string \<Rightarrow> string \<Rightarrow> file_read_body \<Rightarrow> ('g, (api_error, guest_context \<times> byte list) result) run" where
  "post_guest_file_read app namespace name body g =
     (case gate_file_read app (fr_path body) of
        Inl e \<Rightarrow> Some (g, Inl e)
      | Inr _ \<Rightarrow>
          run_then (\<lambda>g. qga_file_read (fb_channel (app_fabric app)) g namespace name (fr_path body)
                     (max 1 (min (256 * 1024) (fr_max_bytes body))) 120) (\<lambda>r.
            case r of
              Inl e \<Rightarrow> run_return (Inl e)
            | Inr bytes \<Rightarrow> audit_file_action app ''file_read'' namespace name (fr_path body) (length bytes) bytes) g)"

definition gate_file_write :: "('g, 's) app \<Rightarrow> string \<Rightarrow> (api_error, unit) result" where
  "gate_file_write app path =
     rbind (required_client app) (\<lambda>client.
     rbind (enforce_file_write (Some client) path False) (\<lambda>_.
       if policy_requires_approval (ap_kube app) then Inl (bad_request ''GuestActionPolicy requires approval for file write'')
       else Inr ()))"

definition post_guest_file_write ::
    "('g, 's) app \<Rightarrow> string \<Rightarrow> string \<Rightarrow> file_write_body \<Rightarrow> ('g, (api_error, guest_context \<times> nat) result) run" where
  "post_guest_file_write app namespace name body g =
     (case gate_file_write app (fw_path body) of
        Inl e \<Rightarrow> Some (g, Inl e)
      | Inr _ \<Rightarrow>
          (case ch_decode (fb_channel (app_fabric app)) (fw_content_b64 body) of
             Inl e \<Rightarrow> Some (g, Inl (bad_request (''invalid base64: '' @ e)))
           | Inr bytes \<Rightarrow>
               run_then (\<lambda>g. qga_file_write (fb_channel (app_fabric app)) g namespace name (fw_path body) bytes 300) (\<lambda>r.
                 case r of
                   Inl e \<Rightarrow> run_return (Inl e)
                 | Inr _ \<Rightarrow> audit_file_action app ''file_write'' namespace name (fw_path body) (length bytes) (length bytes)) g))"

subsection \<open>Properties\<close>

text \<open>
  What an entry of the exec allowlist admits: an entry that ends in stars admits what begins with the rest of it, any other
  what has the entry somewhere inside.
\<close>

inductive entry_admits :: "string \<Rightarrow> string \<Rightarrow> bool" where
  starred: "w = [] \<or> last w \<noteq> CHR ''*'' \<Longrightarrow> entry_admits (w @ replicate (Suc k) (CHR ''*'')) (w @ v)"
| inside: "pat = [] \<or> last pat \<noteq> CHR ''*'' \<Longrightarrow> entry_admits pat (u @ pat @ v)"

inductive_cases entry_admitsE: "entry_admits pat command"

text \<open>
  The forms of a request: the text that the allowlist is asked about, and the program and arguments that the guest is
  asked to start.
\<close>

inductive exec_form :: "exec_request \<Rightarrow> string \<Rightarrow> string \<Rightarrow> string list \<Rightarrow> bool" where
  shell: "xr_command body = Some cmd \<Longrightarrow> cmd \<noteq> [] \<Longrightarrow> CHR 0x5C \<notin> set cmd \<Longrightarrow> \<not> contains (map ascii_lower cmd) ''powershell'' \<Longrightarrow>
    exec_form body cmd ''/bin/sh'' [''-c'', cmd]"
| powershell: "xr_command body = Some cmd \<Longrightarrow> cmd \<noteq> [] \<Longrightarrow> CHR 0x5C \<in> set cmd \<or> contains (map ascii_lower cmd) ''powershell'' \<Longrightarrow>
    exec_form body cmd powershell_path [''-NoProfile'', ''-NonInteractive'', ''-ExecutionPolicy'', ''Bypass'', ''-Command'', cmd]"
| program: "xr_command body = None \<or> xr_command body = Some [] \<Longrightarrow> xr_path body = Some path \<Longrightarrow> path \<noteq> [] \<Longrightarrow>
    exec_form body (path @ '' '' @ join '' '' (xr_args body)) path (xr_args body)"

inductive_cases exec_formE: "exec_form body text path args"

lemma trim_end_stars_replicate: "w = [] \<or> last w \<noteq> CHR ''*'' \<Longrightarrow> trim_end_stars (w @ replicate k (CHR ''*'')) = w"
  by (cases w rule: rev_cases) (auto simp: trim_end_stars_def dropWhile_append)

lemma trim_end_stars_split:
  obtains w k where "pat = w @ replicate k (CHR ''*'')" "w = [] \<or> last w \<noteq> CHR ''*''" "trim_end_stars pat = w"
proof -
  let ?P = "\<lambda>c. c = CHR ''*''"
  let ?s = "takeWhile ?P (rev pat)" and ?w = "rev (dropWhile ?P (rev pat))"
  have "set ?s \<subseteq> {CHR ''*''}" by (auto dest: set_takeWhileD)
  then have k: "rev ?s = replicate (length ?s) (CHR ''*'')" by (intro replicate_eqI) auto
  have "pat = rev (?s @ dropWhile ?P (rev pat))" by simp
  then have "pat = ?w @ rev ?s" by (simp only: rev_append)
  then have "pat = ?w @ replicate (length ?s) (CHR ''*'')" unfolding k .
  moreover have "?w = [] \<or> last ?w \<noteq> CHR ''*''" using hd_dropWhile [of ?P "rev pat"] by (auto simp: last_rev)
  ultimately show ?thesis by (rule that) (simp add: trim_end_stars_def)
qed

lemma ends_with_star: "ends_with pat ''*'' \<longleftrightarrow> pat \<noteq> [] \<and> last pat = CHR ''*''"
  by (cases pat rule: rev_cases) (auto simp: ends_with_def)

lemma command_matches_iff: "command_matches command pat = entry_admits pat command"
proof
  assume m: "command_matches command pat"
  show "entry_admits pat command"
  proof (cases "ends_with pat ''*''")
    case True
    obtain w k where k: "pat = w @ replicate k (CHR ''*'')" "w = [] \<or> last w \<noteq> CHR ''*''" "trim_end_stars pat = w"
      by (rule trim_end_stars_split)
    have "k \<noteq> 0" using True k(1, 2) by (cases "k = 0") (auto simp: ends_with_star)
    then obtain k' where k': "k = Suc k'" by (cases k) auto
    obtain v where v: "command = w @ v"
      using m True k(3) by (auto simp: command_matches_def starts_with_def prefix_def)
    show ?thesis unfolding k(1) k' v by (rule entry_admits.starred [OF k(2)])
  next
    case False
    then have "sublist pat command" using m by (auto simp: command_matches_def contains_def)
    then obtain u v where c: "command = u @ pat @ v" unfolding sublist_def by blast
    show ?thesis unfolding c by (rule entry_admits.inside) (use False in \<open>auto simp: ends_with_star\<close>)
  qed
next
  assume "entry_admits pat command"
  then show "command_matches command pat"
  proof cases
    case (starred w k v)
    have "ends_with pat ''*''" unfolding starred(1) by (simp add: ends_with_star)
    then show ?thesis using trim_end_stars_replicate [OF starred(3), of "Suc k"] starred(1, 2)
      by (simp add: command_matches_def starts_with_def)
  next
    case (inside u v)
    then show ?thesis by (auto simp: command_matches_def ends_with_star contains_def sublist_def)
  qed
qed

lemma exec_form_iff:
  "exec_form body text path args \<longleftrightarrow> checked_command body = Inr text \<and> exec_argv body = Inr (path, args)"
proof
  assume "exec_form body text path args"
  then show "checked_command body = Inr text \<and> exec_argv body = Inr (path, args)"
    by cases (auto simp: checked_command_def exec_argv_def nonempty_def)
next
  assume a: "checked_command body = Inr text \<and> exec_argv body = Inr (path, args)"
  show "exec_form body text path args"
  proof (cases "nonempty (xr_command body)")
    case None
    then have n: "xr_command body = None \<or> xr_command body = Some []" by (auto simp: nonempty_def split: if_splits)
    obtain q where "xr_path body = Some q" "q \<noteq> []"
      using a None by (cases "nonempty (xr_path body)") (auto simp: checked_command_def nonempty_def split: if_splits)
    then show ?thesis using a None exec_form.program [OF n, of q] by (auto simp: checked_command_def exec_argv_def nonempty_def)
  next
    case (Some cmd)
    then have "xr_command body = Some cmd" "cmd \<noteq> []" by (auto simp: nonempty_def split: if_splits)
    then show ?thesis
      using a Some exec_form.shell [of body cmd] exec_form.powershell [of body cmd]
      by (auto simp: checked_command_def exec_argv_def split: if_splits)
  qed
qed

lemma enforce_exec_iff:
  assumes "fetch_guest_action_policy client = Some p"
  shows "enforce_exec (Some client) command False = Inr n \<longleftrightarrow>
    \<not> gp_require_approval p \<and> action_allowed p ''exec'' \<and> n = gp_max_exec_output_bytes p \<and>
    (\<exists>pat. pat \<in> set (gp_exec_allowlist p) \<and> entry_admits pat command)"
  using assms
  by (auto simp: enforce_exec_def with_policy_def command_matches_allowlist_def action_allowed_def
      command_matches_iff split: if_splits)

lemma plan_exec_iff:
  "plan_exec client body = Inr (n, path, args) \<longleftrightarrow>
     (\<exists>text. exec_form body text path args \<and> enforce_exec client text False = Inr n)"
  by (auto simp: plan_exec_def exec_form_iff rbind_def split: sum.splits)

text \<open>
  Claim C8.  What the exec route asks the guest to start, for every request.  Without a policy it is every request that has
  a command or a path, with the default limit on the output.  With one it is a request for which no
  approval is demanded, when the action is allowed and an entry of the allowlist admits the request's text: the command, which
  then goes to a shell as it is, or the path and the arguments joined by spaces, which are started as they are.
\<close>

theorem plan_exec_exact:
  "plan_exec (Some client) body = Inr (n, path, args) \<longleftrightarrow>
     (\<exists>text. exec_form body text path args \<and>
        (case fetch_guest_action_policy client of
           None \<Rightarrow> n = default_max_output
         | Some p \<Rightarrow> gp_require_approval p = False \<and> action_allowed p ''exec'' \<and> n = gp_max_exec_output_bytes p \<and>
             (\<exists>pat. pat \<in> set (gp_exec_allowlist p) \<and> entry_admits pat text)))"
proof (cases "fetch_guest_action_policy client")
  case None
  then have "enforce_exec (Some client) t False = Inr default_max_output" for t
    by (simp add: enforce_exec_def with_policy_def)
  then show ?thesis using None by (auto simp: plan_exec_iff)
next
  case (Some p)
  then show ?thesis by (simp add: plan_exec_iff enforce_exec_iff [OF Some])
qed

text \<open>
  An entry of the exec allowlist without a star restricts nothing: any shell command with the entry at its end
  passes the policy and is given to the guest's shell as it is.
\<close>

theorem exec_allowlist_bypass:
  assumes "fetch_guest_action_policy client = Some p" "\<not> gp_require_approval p" "action_allowed p ''exec''"
    and "pat \<in> set (gp_exec_allowlist p)" "\<not> ends_with pat ''*''" "evil @ pat \<noteq> []"
    and "CHR 0x5C \<notin> set (evil @ pat)" "\<not> contains (map ascii_lower (evil @ pat)) ''powershell''"
  shows "plan_exec (Some client) \<lparr>xr_path = None, xr_args = [], xr_command = Some (evil @ pat)\<rparr> =
    Inr (gp_max_exec_output_bytes p, ''/bin/sh'', [''-c'', evil @ pat])"
proof -
  have "entry_admits pat (evil @ pat @ [])" by (rule entry_admits.inside) (use assms(5) in \<open>auto simp: ends_with_star\<close>)
  then have "enforce_exec (Some client) (evil @ pat) False = Inr (gp_max_exec_output_bytes p)"
    using assms(2-4) by (auto simp: enforce_exec_iff [OF assms(1)])
  moreover have "exec_form \<lparr>xr_path = None, xr_args = [], xr_command = Some (evil @ pat)\<rparr> (evil @ pat) ''/bin/sh'' [''-c'', evil @ pat]"
    by (rule exec_form.shell) (use assms(6-8) in simp_all)
  ultimately show ?thesis unfolding plan_exec_iff by blast
qed

lemma enforce_file_read_iff:
  assumes "fetch_guest_action_policy client = Some p"
  shows "enforce_file_read (Some client) path False = Inr () \<longleftrightarrow>
    \<not> gp_require_approval p \<and> action_allowed p ''file_read'' \<and> list_ex (\<lambda>q. prefix q path) (gp_file_read_allowlist p)"
  using assms
  by (auto simp: enforce_file_read_def with_policy_def path_matches_allowlist_def action_allowed_def list_ex_iff starts_with_def
      split: if_splits)

lemma enforce_file_write_iff:
  assumes "fetch_guest_action_policy client = Some p"
  shows "enforce_file_write (Some client) path False = Inr () \<longleftrightarrow>
    \<not> gp_require_approval p \<and> action_allowed p ''file_write'' \<and> list_ex (\<lambda>q. prefix q path) (gp_file_write_allowlist p)"
  using assms
  by (auto simp: enforce_file_write_def with_policy_def path_matches_allowlist_def action_allowed_def list_ex_iff starts_with_def
      split: if_splits)

text \<open>
  A policy in force guards the file routes: unless it permits the action without approval and lists a
  prefix of the path, the route answers an error and the guest is not touched.
\<close>

theorem file_routes_guarded:
  assumes "ap_kube app = Some client" "fetch_guest_action_policy client = Some p"
  shows "(gp_require_approval p \<or> action_allowed p ''file_read'' = False \<or>
      list_ex (\<lambda>q. prefix q (fr_path rbody)) (gp_file_read_allowlist p) = False) =
    (\<exists>e. gate_file_read app (fr_path rbody) = Inl e \<and> post_guest_file_read app namespace name rbody g = Some (g, Inl e)) \<and>
   (gp_require_approval p \<or> action_allowed p ''file_write'' = False \<or>
      list_ex (\<lambda>q. prefix q (fw_path wbody)) (gp_file_write_allowlist p) = False) =
    (\<exists>e. gate_file_write app (fw_path wbody) = Inl e \<and> post_guest_file_write app namespace name wbody g = Some (g, Inl e))"
proof -
  have approval: "policy_requires_approval (ap_kube app) = gp_require_approval p"
    using assms by (simp add: policy_requires_approval_def)
  have r: "gate_file_read app (fr_path rbody) = Inr () \<longleftrightarrow>
      \<not> gp_require_approval p \<and> action_allowed p ''file_read'' \<and> list_ex (\<lambda>q. prefix q (fr_path rbody)) (gp_file_read_allowlist p)"
    unfolding gate_file_read_def required_client_def approval using assms(1) enforce_file_read_iff [OF assms(2), of "fr_path rbody"]
    by (cases "enforce_file_read (Some client) (fr_path rbody) False") auto
  have w: "gate_file_write app (fw_path wbody) = Inr () \<longleftrightarrow>
      \<not> gp_require_approval p \<and> action_allowed p ''file_write'' \<and> list_ex (\<lambda>q. prefix q (fw_path wbody)) (gp_file_write_allowlist p)"
    unfolding gate_file_write_def required_client_def approval using assms(1) enforce_file_write_iff [OF assms(2), of "fw_path wbody"]
    by (cases "enforce_file_write (Some client) (fw_path wbody) False") auto
  have "(\<exists>e. gate_file_read app (fr_path rbody) = Inl e \<and> post_guest_file_read app namespace name rbody g = Some (g, Inl e)) \<longleftrightarrow>
      gate_file_read app (fr_path rbody) \<noteq> Inr ()"
    by (cases "gate_file_read app (fr_path rbody)") (simp_all add: post_guest_file_read_def)
  moreover have "(\<exists>e. gate_file_write app (fw_path wbody) = Inl e \<and>
      post_guest_file_write app namespace name wbody g = Some (g, Inl e)) \<longleftrightarrow> gate_file_write app (fw_path wbody) \<noteq> Inr ()"
    by (cases "gate_file_write app (fw_path wbody)") (simp_all add: post_guest_file_write_def)
  ultimately show ?thesis unfolding r w by blast
qed

subsection \<open>Examples\<close>

definition uptime_policy :: guest_action_policy where
  "uptime_policy = \<lparr>gp_allowed_actions = [''exec''], gp_restart_unit_allowlist = [], gp_exec_allowlist = [''uptime''],
     gp_file_read_allowlist = [''/var/log''], gp_file_write_allowlist = [], gp_freeze_allowed = False,
     gp_max_exec_output_bytes = 1024, gp_require_approval = False\<rparr>"

definition uptime_client :: "unit kube_client" where
  "uptime_client = \<lparr>kc_list = Some [Some ()], kc_decode = (\<lambda>_. Some uptime_policy)\<rparr>"

lemma uptime_fetch: "fetch_guest_action_policy uptime_client = Some uptime_policy"
  by (simp add: fetch_guest_action_policy_def uptime_client_def)

lemma uptime_star: "\<not> ends_with ''uptime'' ''*''"
  by (simp add: ends_with_def suffix_to_prefix)

definition uptime_app :: "(nat, unit) app" where
  "uptime_app = \<lparr>ap_fabric = counting_fabric (Inr JNull), ap_kube = Some uptime_client, ap_uuid = (\<lambda>_. ''id''),
     ap_time = (\<lambda>_. ''now''), ap_store_event = (\<lambda>g _. (g, Inr ())), ap_put = (\<lambda>g _ _. (g, Inr ()))\<rparr>"

theorem plan_exec_exact_witness:
  "plan_exec (Some uptime_client) \<lparr>xr_path = Some ''/bin/uptime'', xr_args = [''-p''], xr_command = None\<rparr> =
     Inr (1024, ''/bin/uptime'', [''-p''])"
proof (rule plan_exec_exact [THEN iffD2], intro exI conjI)
  show "exec_form \<lparr>xr_path = Some ''/bin/uptime'', xr_args = [''-p''], xr_command = None\<rparr> (''/bin/'' @ ''uptime'' @ '' -p'') ''/bin/uptime'' [''-p'']"
    using exec_form.program [of "\<lparr>xr_path = Some ''/bin/uptime'', xr_args = [''-p''], xr_command = None\<rparr>" "''/bin/uptime''"] by simp
  have "entry_admits ''uptime'' (''/bin/'' @ ''uptime'' @ '' -p'')" by (rule entry_admits.inside) simp
  then show "case fetch_guest_action_policy uptime_client of
      None \<Rightarrow> 1024 = default_max_output
    | Some p \<Rightarrow> gp_require_approval p = False \<and> action_allowed p ''exec'' \<and> 1024 = gp_max_exec_output_bytes p \<and>
        (\<exists>pat. pat \<in> set (gp_exec_allowlist p) \<and> entry_admits pat (''/bin/'' @ ''uptime'' @ '' -p''))"
    unfolding uptime_fetch by (simp add: uptime_policy_def action_allowed_def)
qed

theorem exec_allowlist_bypass_witness:
  "plan_exec (Some uptime_client) \<lparr>xr_path = None, xr_args = [], xr_command = Some (''rm -rf /; '' @ ''uptime'')\<rparr> =
     Inr (1024, ''/bin/sh'', [''-c'', ''rm -rf /; '' @ ''uptime''])"
proof -
  have "\<not> contains (map ascii_lower (''rm -rf /; '' @ ''uptime'')) ''powershell''" by code_simp
  from exec_allowlist_bypass [OF uptime_fetch _ _ _ uptime_star _ _ this] show ?thesis
    by (simp add: uptime_policy_def action_allowed_def)
qed

theorem file_routes_guarded_witness:
  "\<exists>e. post_guest_file_read uptime_app ''ns'' ''vm'' \<lparr>fr_path = ''/etc/shadow'', fr_max_bytes = 10\<rparr> 0 = Some (0, Inl e)"
proof -
  have k: "ap_kube uptime_app = Some uptime_client" by (simp add: uptime_app_def)
  have "action_allowed uptime_policy ''file_read'' = False" by code_simp
  then show ?thesis
    using file_routes_guarded [OF k uptime_fetch, where rbody = "\<lparr>fr_path = ''/etc/shadow'', fr_max_bytes = 10\<rparr>"
        and namespace = "''ns''" and name = "''vm''" and g = 0] by blast
qed

end
