(* ===== verification/Guest_Actions.thy ===== *)
theory Guest_Actions
  imports Guest_Routes
begin

text \<open>
  The approval workflow for remediation in a guest (\<^verbatim>\<open>crates/zyvor-api/src/guest_actions.rs\<close>): actions are queued in a
  key-value store, listed, and approved or rejected; an approval runs the action in the guest.  The store is a map
  with two index sets; its connection does not fail, and the expiry of a key is a step of its own.  The
  second half takes the two decisions apart into the steps between which other requests may run.
\<close>

subsection \<open>State\<close>

record pending_guest_action =
  pa_id :: string
  pa_action :: string
  pa_namespace :: string
  pa_vm_name :: string
  pa_unit :: "string option"
  pa_status :: string
  pa_created_at :: string
  pa_requested_by :: "string option"
  pa_approved_at :: "string option"
  pa_approved_by :: "string option"
  pa_rejected_at :: "string option"
  pa_rejected_by :: "string option"
  pa_result :: "json option"

record 'g action_state =
  as_world :: 'g
  as_kv :: "string \<rightharpoonup> pending_guest_action"
  as_pending :: "string list"
  as_audit :: "string list"

text \<open>The configuration read by the handlers: the application and whether users are authenticated.\<close>

record ('g, 's) server =
  sv_app :: "('g, 's) app"
  sv_auth_enabled :: bool

subsection \<open>Queueing\<close>

definition new_action ::
    "string \<Rightarrow> string \<Rightarrow> string \<Rightarrow> string \<Rightarrow> string option \<Rightarrow> string \<Rightarrow> string option \<Rightarrow> pending_guest_action" where
  "new_action i action namespace vm_name u created_at requested_by =
     \<lparr>pa_id = i, pa_action = action, pa_namespace = namespace, pa_vm_name = vm_name, pa_unit = u, pa_status = ''pending'',
      pa_created_at = created_at, pa_requested_by = requested_by, pa_approved_at = None, pa_approved_by = None,
      pa_rejected_at = None, pa_rejected_by = None, pa_result = None\<rparr>"

definition save_pending :: "pending_guest_action \<Rightarrow> 'g action_state \<Rightarrow> 'g action_state" where
  "save_pending action st = st\<lparr>as_kv := (as_kv st)(pa_id action \<mapsto> action)\<rparr>"

definition track_audit :: "string \<Rightarrow> 'g action_state \<Rightarrow> 'g action_state" where
  "track_audit i st = st\<lparr>as_audit := List.insert i (as_audit st)\<rparr>"

definition enqueue_action :: "pending_guest_action \<Rightarrow> 'g action_state \<Rightarrow> 'g action_state" where
  "enqueue_action action st =
     (let st = save_pending action st;
          st = st\<lparr>as_pending := List.insert (pa_id action) (as_pending st)\<rparr> in
      track_audit (pa_id action) st)"

definition enqueue_restart_unit ::
    "('g, 's) app \<Rightarrow> string \<Rightarrow> string \<Rightarrow> string \<Rightarrow> string option \<Rightarrow> 'g action_state \<Rightarrow> 'g action_state \<times> string" where
  "enqueue_restart_unit app namespace vm_name u requested_by st =
     (let i = ap_uuid app (as_world st) in
      (enqueue_action (new_action i ''restart_unit'' namespace vm_name (Some u) (ap_time app (as_world st)) requested_by) st, i))"

definition enqueue_support_bundle ::
    "('g, 's) app \<Rightarrow> string \<Rightarrow> string \<Rightarrow> string option \<Rightarrow> 'g action_state \<Rightarrow> 'g action_state \<times> string" where
  "enqueue_support_bundle app namespace vm_name requested_by st =
     (let i = ap_uuid app (as_world st) in
      (enqueue_action (new_action i ''collect_support_bundle'' namespace vm_name None (ap_time app (as_world st)) requested_by) st, i))"

subsection \<open>Deciding\<close>

definition load_pending :: "string \<Rightarrow> 'g action_state \<Rightarrow> (api_error, pending_guest_action) result" where
  "load_pending i st =
     (case as_kv st i of None \<Rightarrow> Inl (bad_request ''pending action not found'') | Some action \<Rightarrow> Inr action)"

definition execute_pending :: "('g, 's) app \<Rightarrow> pending_guest_action \<Rightarrow> ('g, (api_error, json) result) run" where
  "execute_pending app action =
     (if pa_action action = ''restart_unit'' then
        (case pa_unit action of
           None \<Rightarrow> run_return (Inl (bad_request ''unit missing on pending action''))
         | Some u \<Rightarrow>
             (case enforce_restart_unit (ap_kube app) u True of
                Inl e \<Rightarrow> run_return (Inl e)
              | Inr _ \<Rightarrow>
                  run_then (pull_for_vm_api (app_fabric app) (pa_namespace action) (pa_vm_name action) ''guestkit.restartUnit''
                      (JObject [(''unit'', JString u)])) (\<lambda>r. run_return (
                    rbind r (\<lambda>resp. Inr (JObject [(''namespace'', JString (pa_namespace action)),
                      (''name'', JString (pa_vm_name action)), (''unit'', JString u), (''result'', resp)]))))))
      else if pa_action action = ''collect_support_bundle'' then
        (case enforce_support_bundle (ap_kube app) True of
           Inl e \<Rightarrow> run_return (Inl e)
         | Inr _ \<Rightarrow>
             run_then (pull_for_vm_api (app_fabric app) (pa_namespace action) (pa_vm_name action)
                 ''guestkit.collectSupportBundle'' (JObject [])) (\<lambda>r. run_return (
               rbind r (\<lambda>resp. Inr (JObject [(''namespace'', JString (pa_namespace action)),
                 (''name'', JString (pa_vm_name action)), (''bundle'', rpc_result resp)])))))
      else run_return (Inl (bad_request (''unsupported action: '' @ pa_action action))))"

definition require_guest_action_approver :: "bool \<Rightarrow> user_claims option \<Rightarrow> (api_error, unit) result" where
  "require_guest_action_approver auth_enabled user =
     (if \<not> auth_enabled then Inr ()
      else case user of
        None \<Rightarrow> Inl (unauthorized ''authentication required'')
      | Some u \<Rightarrow> if \<not> can_approve_guest_actions u then Inl (forbidden ''operator or admin role required'') else Inr ())"

definition actor_label :: "user_claims option \<Rightarrow> string option" where
  "actor_label user =
     map_option (\<lambda>u. case uc_email u of Some e \<Rightarrow> e | None \<Rightarrow> (case uc_name u of Some n \<Rightarrow> n | None \<Rightarrow> uc_sub u)) user"

text \<open>The common start of both decisions.\<close>

definition open_decision ::
    "('g, 's) server \<Rightarrow> string \<Rightarrow> user_claims option \<Rightarrow> 'g action_state \<Rightarrow> (api_error, pending_guest_action) result" where
  "open_decision sv i user st =
     rbind (require_guest_action_approver (sv_auth_enabled sv) user) (\<lambda>_.
     rbind (load_pending i st) (\<lambda>action.
       if pa_status action \<noteq> ''pending'' then Inl (bad_request ''action is not pending'') else Inr action))"

definition approved ::
    "('g, 's) server \<Rightarrow> user_claims option \<Rightarrow> json \<Rightarrow> 'g \<Rightarrow> pending_guest_action \<Rightarrow> pending_guest_action" where
  "approved sv user result g action =
     action\<lparr>pa_status := ''approved'', pa_approved_at := Some (ap_time (sv_app sv) g), pa_approved_by := actor_label user,
       pa_result := Some result\<rparr>"

definition rejected :: "('g, 's) server \<Rightarrow> user_claims option \<Rightarrow> 'g \<Rightarrow> pending_guest_action \<Rightarrow> pending_guest_action" where
  "rejected sv user g action =
     action\<lparr>pa_status := ''rejected'', pa_rejected_at := Some (ap_time (sv_app sv) g), pa_rejected_by := actor_label user\<rparr>"

definition close_pending :: "string \<Rightarrow> 'g action_state \<Rightarrow> 'g action_state" where
  "close_pending i st = st\<lparr>as_pending := removeAll i (as_pending st)\<rparr>"

definition approved_reply :: "string \<Rightarrow> json \<Rightarrow> json" where
  "approved_reply i result = JObject [(''action_id'', JString i), (''status'', JString ''approved''), (''result'', result)]"

definition rejected_reply :: "string \<Rightarrow> json" where
  "rejected_reply i = JObject [(''action_id'', JString i), (''status'', JString ''rejected'')]"

definition approve_guest_action ::
    "('g, 's) server \<Rightarrow> string \<Rightarrow> user_claims option \<Rightarrow> ('g action_state, (api_error, json) result) run" where
  "approve_guest_action sv i user st =
     (case open_decision sv i user st of
        Inl e \<Rightarrow> Some (st, Inl e)
      | Inr action \<Rightarrow>
          (case execute_pending (sv_app sv) action (as_world st) of
             None \<Rightarrow> None
           | Some (g, Inl e) \<Rightarrow> Some (st\<lparr>as_world := g\<rparr>, Inl e)
           | Some (g, Inr result) \<Rightarrow>
               Some (close_pending i (save_pending (approved sv user result g action) (st\<lparr>as_world := g\<rparr>)),
                 Inr (approved_reply i result))))"

definition reject_guest_action ::
    "('g, 's) server \<Rightarrow> string \<Rightarrow> user_claims option \<Rightarrow> 'g action_state \<Rightarrow> 'g action_state \<times> (api_error, json) result" where
  "reject_guest_action sv i user st =
     (case open_decision sv i user st of
        Inl e \<Rightarrow> (st, Inl e)
      | Inr action \<Rightarrow>
          (close_pending i (save_pending (rejected sv user (as_world st) action) st), Inr (rejected_reply i)))"

subsection \<open>Listing\<close>

definition loaded :: "'g action_state \<Rightarrow> string list \<Rightarrow> pending_guest_action list" where
  "loaded st ids = List.map_filter (as_kv st) ids"

text \<open>Newest first; the comparison is that of the time stamps' text.\<close>

definition newest_first :: "(string \<Rightarrow> string \<Rightarrow> bool) \<Rightarrow> pending_guest_action list \<Rightarrow> pending_guest_action list" where
  "newest_first before actions =
     foldr (\<lambda>a rest. takeWhile (\<lambda>b. before (pa_created_at a) (pa_created_at b)) rest @
        a # dropWhile (\<lambda>b. before (pa_created_at a) (pa_created_at b)) rest) actions []"

definition text_before :: "string \<Rightarrow> string \<Rightarrow> bool" where
  "text_before s t = ord_class.lexordp (map of_char s :: nat list) (map of_char t)"

definition list_pending_guest_actions ::
    "('g, 's) server \<Rightarrow> user_claims option \<Rightarrow> 'g action_state \<Rightarrow> (api_error, pending_guest_action list) result" where
  "list_pending_guest_actions sv user st =
     rbind (require_guest_action_approver (sv_auth_enabled sv) user) (\<lambda>_.
       Inr (newest_first text_before (filter (\<lambda>a. pa_status a = ''pending'') (loaded st (as_pending st)))))"

definition list_guest_action_audit ::
    "('g, 's) server \<Rightarrow> nat option \<Rightarrow> user_claims option \<Rightarrow> 'g action_state \<Rightarrow> (api_error, pending_guest_action list) result" where
  "list_guest_action_audit sv limit user st =
     rbind (require_guest_action_approver (sv_auth_enabled sv) user) (\<lambda>_.
       Inr (take (max 1 (min 200 (case limit of Some n \<Rightarrow> n | None \<Rightarrow> 50)))
         (newest_first text_before (loaded st (as_audit st)))))"

subsection \<open>Sequences of requests\<close>

datatype request =
    EnqueueRestart string string string "string option"
  | EnqueueBundle string string "string option"
  | Approve string "user_claims option"
  | Reject string "user_claims option"
  | Expire string

datatype answer = Queued string | Answered "(api_error, json) result" | NoAnswer

text \<open>
  One request at a time.  A queued action has an identifier that was never used before; a stored action may expire.
\<close>

inductive serves :: "('g, 's) server \<Rightarrow> 'g action_state \<Rightarrow> request \<times> answer \<Rightarrow> 'g action_state \<Rightarrow> bool" for sv where
  serve_restart: "enqueue_restart_unit (sv_app sv) ns vm u by_user st = (st', i) \<Longrightarrow> i \<notin> set (as_audit st) \<Longrightarrow>
    serves sv st (EnqueueRestart ns vm u by_user, Queued i) st'"
| serve_bundle: "enqueue_support_bundle (sv_app sv) ns vm by_user st = (st', i) \<Longrightarrow> i \<notin> set (as_audit st) \<Longrightarrow>
    serves sv st (EnqueueBundle ns vm by_user, Queued i) st'"
| serve_approve: "approve_guest_action sv i user st = Some (st', r) \<Longrightarrow> serves sv st (Approve i user, Answered r) st'"
| serve_reject: "reject_guest_action sv i user st = (st', r) \<Longrightarrow> serves sv st (Reject i user, Answered r) st'"
| serve_expire: "serves sv st (Expire i, NoAnswer) (st\<lparr>as_kv := (as_kv st)(i := None)\<rparr>)"

inductive history :: "('g, 's) server \<Rightarrow> 'g action_state \<Rightarrow> (request \<times> answer) list \<Rightarrow> 'g action_state \<Rightarrow> bool" for sv st where
  start: "history sv st [] st"
| continue: "history sv st tr st' \<Longrightarrow> serves sv st' x st'' \<Longrightarrow> history sv st (tr @ [x]) st''"

text \<open>A request decides an action when it was an approval or a rejection and was answered without an error.\<close>

fun decides :: "string \<Rightarrow> request \<times> answer \<Rightarrow> bool" where
  "decides i (Approve j _, Answered (Inr _)) = (i = j)"
| "decides i (Reject j _, Answered (Inr _)) = (i = j)"
| "decides i _ = False"

fun decided_by :: "request \<Rightarrow> user_claims option" where
  "decided_by (Approve _ user) = user"
| "decided_by (Reject _ user) = user"
| "decided_by _ = None"

subsection \<open>At most one decision\<close>

text \<open>
  The invariant of a history from an empty store: stored actions are under their own identifier and in the audit index,
  and an action that was decided is not pending any more.
\<close>

definition decided_inv :: "(request \<times> answer) list \<Rightarrow> 'g action_state \<Rightarrow> bool" where
  "decided_inv tr st \<longleftrightarrow>
     (\<forall>i a. as_kv st i = Some a \<longrightarrow> pa_id a = i \<and> i \<in> set (as_audit st)) \<and>
     (\<forall>i. length (filter (decides i) tr) \<le> 1) \<and>
     (\<forall>i. filter (decides i) tr \<noteq> [] \<longrightarrow> i \<in> set (as_audit st) \<and> (\<forall>a. as_kv st i = Some a \<longrightarrow> pa_status a \<noteq> ''pending''))"

lemma open_decision_Inr:
  "open_decision sv i user st = Inr a \<longleftrightarrow>
     require_guest_action_approver (sv_auth_enabled sv) user = Inr () \<and> as_kv st i = Some a \<and> pa_status a = ''pending''"
  by (auto simp: open_decision_def load_pending_def rbind_def split: sum.splits option.splits)

text \<open>What one answered request does to an action: it leaves the record, or it decides it.\<close>

lemma decision_step:
  assumes "serves sv st (q, ans) st'" "decides i (q, ans)"
  obtains a a' where "as_kv st i = Some a" "pa_status a = ''pending''" "pa_id a' = pa_id a" "pa_status a' \<noteq> ''pending''"
    "as_kv st' = (as_kv st)(pa_id a \<mapsto> a')" "as_audit st' = as_audit st"
    "require_guest_action_approver (sv_auth_enabled sv) (decided_by q) = Inr ()"
proof -
  have "\<exists>a a'. as_kv st i = Some a \<and> pa_status a = ''pending'' \<and> pa_id a' = pa_id a \<and> pa_status a' \<noteq> ''pending'' \<and>
      as_kv st' = (as_kv st)(pa_id a \<mapsto> a') \<and> as_audit st' = as_audit st \<and>
      require_guest_action_approver (sv_auth_enabled sv) (decided_by q) = Inr ()"
    using assms(1)
  proof (cases rule: serves.cases)
    case (serve_approve j user r)
    then obtain v where r: "r = Inr v" "i = j" using assms(2) by (cases r) auto
    then obtain a g res where "open_decision sv j user st = Inr a"
        "st' = close_pending j (save_pending (approved sv user res g a) (st\<lparr>as_world := g\<rparr>))"
      using serve_approve unfolding approve_guest_action_def by (auto split: sum.splits option.splits prod.splits)
    then show ?thesis
      using r(2) serve_approve(1)
      by (intro exI [of _ a] exI [of _ "approved sv user res g a"])
        (simp add: open_decision_Inr close_pending_def save_pending_def approved_def)
  next
    case (serve_reject j user r)
    then obtain v where r: "r = Inr v" "i = j" using assms(2) by (cases r) auto
    then obtain a where "open_decision sv j user st = Inr a"
        "st' = close_pending j (save_pending (rejected sv user (as_world st) a) st)"
      using serve_reject unfolding reject_guest_action_def by (auto split: sum.splits)
    then show ?thesis
      using r(2) serve_reject(1)
      by (intro exI [of _ a] exI [of _ "rejected sv user (as_world st) a"])
        (simp add: open_decision_Inr close_pending_def save_pending_def rejected_def)
  qed (use assms(2) in auto)
  then show thesis using that by blast
qed

text \<open>A request that decides nothing queues a new action, lets one expire, or leaves the store alone.\<close>

lemma other_step:
  assumes "serves sv st (q, ans) st'" "\<And>i. \<not> decides i (q, ans)"
  obtains a where "pa_id a \<notin> set (as_audit st)" "as_kv st' = (as_kv st)(pa_id a \<mapsto> a)" "as_audit st' = pa_id a # as_audit st"
  | i where "as_kv st' = (as_kv st)(i := None)" "as_audit st' = as_audit st"
  | "as_kv st' = as_kv st" "as_audit st' = as_audit st"
  using assms(1)
proof (cases rule: serves.cases)
  case (serve_restart ns vm u by_user i)
  then show ?thesis
    using that(1) by (force simp: enqueue_restart_unit_def enqueue_action_def track_audit_def save_pending_def Let_def new_action_def)
next
  case (serve_bundle ns vm by_user i)
  then show ?thesis
    using that(1) by (force simp: enqueue_support_bundle_def enqueue_action_def track_audit_def save_pending_def Let_def new_action_def)
next
  case (serve_approve j user r)
  then obtain e where "r = Inl e" using assms(2) [of j] by (cases r) auto
  then show ?thesis
    using that(3) serve_approve unfolding approve_guest_action_def
    by (auto split: sum.splits option.splits prod.splits)
next
  case (serve_reject j user r)
  then obtain e where "r = Inl e" using assms(2) [of j] by (cases r) auto
  then show ?thesis
    using that(3) serve_reject unfolding reject_guest_action_def by (auto split: sum.splits)
next
  case (serve_expire i)
  then show ?thesis using that(2) [of i] by simp
qed

lemma decides_unique: "decides i x \<Longrightarrow> decides j x \<Longrightarrow> i = j"
  by (induction i x rule: decides.induct) auto

lemma decided_inv_step:
  assumes "decided_inv tr st" "serves sv st (q, ans) st'"
  shows "decided_inv (tr @ [(q, ans)]) st'"
proof (cases "\<exists>i. decides i (q, ans)")
  case True
  then obtain i where i: "decides i (q, ans)" by blast
  then have one: "decides j (q, ans) \<longleftrightarrow> j = i" for j using decides_unique [OF i] by metis
  obtain a a' where s: "as_kv st i = Some a" "pa_status a = ''pending''" "pa_id a' = pa_id a" "pa_status a' \<noteq> ''pending''"
      "as_kv st' = (as_kv st)(pa_id a \<mapsto> a')" "as_audit st' = as_audit st"
    using decision_step [OF assms(2) i] .
  then have a: "pa_id a = i" "i \<in> set (as_audit st)" using assms(1) by (auto simp: decided_inv_def)
  have "filter (decides i) tr = []" using assms(1) s(1, 2) by (auto simp: decided_inv_def)
  then show ?thesis using assms(1) s(3-6) a by (auto simp: decided_inv_def one)
next
  case False
  then have none: "\<not> decides i (q, ans)" for i by blast
  from other_step [OF assms(2) none] show ?thesis
  proof cases
    case (1 a)
    then have "filter (decides (pa_id a)) tr = []" using assms(1) by (auto simp: decided_inv_def)
    then show ?thesis using 1 assms(1) none by (auto simp: decided_inv_def)
  qed (use assms(1) none in \<open>auto simp: decided_inv_def\<close>)
qed

lemma history_inv: "history sv st tr st' \<Longrightarrow> as_kv st = Map.empty \<Longrightarrow> decided_inv tr st'"
proof (induction rule: history.induct)
  case start
  then show ?case by (simp add: decided_inv_def)
next
  case (continue tr st' x st'')
  then show ?case using decided_inv_step by (cases x) blast
qed

text \<open>
  Claim C5.  With requests served one after the other, at most one decision is ever made on an action, so a rejected action is
  never run and an approved one is run with success at most once.
\<close>

theorem at_most_one_decision:
  assumes "history sv st tr st'" "as_kv st = Map.empty"
  shows "length (filter (decides i) tr) \<le> 1"
  using history_inv [OF assms] by (simp add: decided_inv_def)

lemma history_decided_by:
  assumes "history sv st tr st'" "x \<in> set tr" "decides i x"
  shows "require_guest_action_approver (sv_auth_enabled sv) (decided_by (fst x)) = Inr ()"
  using assms
proof (induction rule: history.induct)
  case (continue tr st' y st'')
  then show ?case using decision_step by (cases y) (auto elim!: decision_step)
qed simp

text \<open>
  With authentication on, every decision was made by a user with the operator's or the administrator's role.
\<close>

theorem decisions_authorised:
  assumes "history sv st tr st'" "sv_auth_enabled sv" "x \<in> set tr" "decides i x"
  shows "\<exists>u. decided_by (fst x) = Some u \<and> can_approve_guest_actions u"
  using history_decided_by [OF assms(1, 3, 4)] assms(2)
  by (auto simp: require_guest_action_approver_def split: option.splits if_splits)

subsection \<open>Requests that overlap\<close>

text \<open>
  The handlers run as tasks: between reading the action, running it, saving it and taking it off the index, other
  requests run.  A client is a decision under way.
\<close>

datatype decision_pc =
    AtLoad
  | AtExecute pending_guest_action
  | AtSave pending_guest_action json
  | AtClose json
  | AtDone "(api_error, json) result"

record client =
  cl_approves :: bool
  cl_id :: string
  cl_user :: "user_claims option"
  cl_pc :: decision_pc

definition approver :: "string \<Rightarrow> user_claims option \<Rightarrow> client" where
  "approver i user = \<lparr>cl_approves = True, cl_id = i, cl_user = user, cl_pc = AtLoad\<rparr>"

definition rejecter :: "string \<Rightarrow> user_claims option \<Rightarrow> client" where
  "rejecter i user = \<lparr>cl_approves = False, cl_id = i, cl_user = user, cl_pc = AtLoad\<rparr>"

definition client_step :: "('g, 's) server \<Rightarrow> client \<Rightarrow> ('g action_state, client) run" where
  "client_step sv c st =
     (case cl_pc c of
        AtLoad \<Rightarrow>
          (case open_decision sv (cl_id c) (cl_user c) st of
             Inl e \<Rightarrow> Some (st, c\<lparr>cl_pc := AtDone (Inl e)\<rparr>)
           | Inr action \<Rightarrow>
               Some (st, c\<lparr>cl_pc := if cl_approves c then AtExecute action
                 else AtSave (rejected sv (cl_user c) (as_world st) action) (rejected_reply (cl_id c))\<rparr>))
      | AtExecute action \<Rightarrow>
          (case execute_pending (sv_app sv) action (as_world st) of
             None \<Rightarrow> None
           | Some (g, Inl e) \<Rightarrow> Some (st\<lparr>as_world := g\<rparr>, c\<lparr>cl_pc := AtDone (Inl e)\<rparr>)
           | Some (g, Inr result) \<Rightarrow>
               Some (st\<lparr>as_world := g\<rparr>,
                 c\<lparr>cl_pc := AtSave (approved sv (cl_user c) result g action) (approved_reply (cl_id c) result)\<rparr>))
      | AtSave action v \<Rightarrow> Some (save_pending action st, c\<lparr>cl_pc := AtClose v\<rparr>)
      | AtClose v \<Rightarrow> Some (close_pending (cl_id c) st, c\<lparr>cl_pc := AtDone (Inr v)\<rparr>)
      | AtDone _ \<Rightarrow> Some (st, c))"

text \<open>A schedule says whose step is next.\<close>

fun run_schedule :: "('g, 's) server \<Rightarrow> nat list \<Rightarrow> client list \<Rightarrow> ('g action_state, client list) run" where
  "run_schedule sv [] cs st = Some (st, cs)"
| "run_schedule sv (k # ks) cs st =
     (if k < length cs then
        (case client_step sv (cs ! k) st of
           None \<Rightarrow> None
         | Some (st', c) \<Rightarrow> run_schedule sv ks (cs[k := c]) st')
      else None)"

text \<open>
  A client that is not interrupted does what its handler does, in four steps at most.
\<close>

theorem client_alone:
  "run_schedule sv [0, 0, 0, 0] [approver i user] st =
     map_option (\<lambda>(st', r). (st', [(approver i user)\<lparr>cl_pc := AtDone r\<rparr>])) (approve_guest_action sv i user st) \<and>
   run_schedule sv [0, 0, 0, 0] [rejecter i user] st =
     (case reject_guest_action sv i user st of (st', r) \<Rightarrow> Some (st', [(rejecter i user)\<lparr>cl_pc := AtDone r\<rparr>]))"
proof
  show "run_schedule sv [0, 0, 0, 0] [approver i user] st =
     map_option (\<lambda>(st', r). (st', [(approver i user)\<lparr>cl_pc := AtDone r\<rparr>])) (approve_guest_action sv i user st)"
  proof (cases "open_decision sv i user st")
    case (Inl e)
    then show ?thesis by (simp add: client_step_def approver_def approve_guest_action_def)
  next
    case (Inr a)
    show ?thesis
    proof (cases "execute_pending (sv_app sv) a (as_world st)")
      case None
      then show ?thesis using Inr by (simp add: client_step_def approver_def approve_guest_action_def)
    next
      case (Some p)
      obtain g r where "p = (g, r)" by fastforce
      then show ?thesis using Inr Some by (cases r) (simp_all add: client_step_def approver_def approve_guest_action_def)
    qed
  qed
  show "run_schedule sv [0, 0, 0, 0] [rejecter i user] st =
     (case reject_guest_action sv i user st of (st', r) \<Rightarrow> Some (st', [(rejecter i user)\<lparr>cl_pc := AtDone r\<rparr>]))"
    by (cases "open_decision sv i user st") (simp_all add: client_step_def rejecter_def reject_guest_action_def)
qed

text \<open>
  Claim C6.  Decisions that overlap are not exclusive.  Two approvals of one pending action can both be answered with success
  after the action was run twice in the guest; and an approval and a rejection can both be answered with success, with
  the action run and its record saying that it was rejected.
\<close>

theorem overlapping_decisions:
  assumes "open_decision sv i u1 st = Inr a" "open_decision sv i u2 st = Inr a" "pa_id a = i"
    and "execute_pending (sv_app sv) a (as_world st) = Some (g1, Inr v1)"
    and "execute_pending (sv_app sv) a g1 = Some (g2, Inr v2)"
  shows "(\<exists>ks st' c1 c2. run_schedule sv ks [approver i u1, approver i u2] st = Some (st', [c1, c2]) \<and>
      cl_pc c1 = AtDone (Inr (approved_reply i v1)) \<and> cl_pc c2 = AtDone (Inr (approved_reply i v2)) \<and> as_world st' = g2) \<and>
    (\<exists>ks st' c1 c2. run_schedule sv ks [approver i u1, rejecter i u2] st = Some (st', [c1, c2]) \<and>
      cl_pc c1 = AtDone (Inr (approved_reply i v1)) \<and> cl_pc c2 = AtDone (Inr (rejected_reply i)) \<and> as_world st' = g1 \<and>
      map_option pa_status (as_kv st' i) = Some ''rejected'')"
proof
  have "run_schedule sv [0, 1, 0, 1, 0, 0, 1, 1] [approver i u1, approver i u2] st =
      Some (close_pending i (save_pending (approved sv u2 v2 g2 a) (close_pending i (save_pending (approved sv u1 v1 g1 a)
        (st\<lparr>as_world := g2\<rparr>)))),
        [(approver i u1)\<lparr>cl_pc := AtDone (Inr (approved_reply i v1))\<rparr>,
         (approver i u2)\<lparr>cl_pc := AtDone (Inr (approved_reply i v2))\<rparr>])"
    using assms by (simp add: client_step_def approver_def)
  then show "\<exists>ks st' c1 c2. run_schedule sv ks [approver i u1, approver i u2] st = Some (st', [c1, c2]) \<and>
      cl_pc c1 = AtDone (Inr (approved_reply i v1)) \<and> cl_pc c2 = AtDone (Inr (approved_reply i v2)) \<and> as_world st' = g2"
    by (intro exI conjI, assumption) (simp_all add: close_pending_def save_pending_def)
  have "run_schedule sv [0, 1, 0, 0, 0, 1, 1] [approver i u1, rejecter i u2] st =
      Some (close_pending i (save_pending (rejected sv u2 (as_world st) a) (close_pending i (save_pending (approved sv u1 v1 g1 a)
        (st\<lparr>as_world := g1\<rparr>)))),
        [(approver i u1)\<lparr>cl_pc := AtDone (Inr (approved_reply i v1))\<rparr>,
         (rejecter i u2)\<lparr>cl_pc := AtDone (Inr (rejected_reply i))\<rparr>])"
    using assms by (simp add: client_step_def approver_def rejecter_def)
  then show "\<exists>ks st' c1 c2. run_schedule sv ks [approver i u1, rejecter i u2] st = Some (st', [c1, c2]) \<and>
      cl_pc c1 = AtDone (Inr (approved_reply i v1)) \<and> cl_pc c2 = AtDone (Inr (rejected_reply i)) \<and> as_world st' = g1 \<and>
      map_option pa_status (as_kv st' i) = Some ''rejected''"
    by (intro exI conjI, assumption) (simp_all add: close_pending_def save_pending_def rejected_def assms(3))
qed

subsection \<open>Examples\<close>

definition proxy_app :: "(nat, unit) app" where
  "proxy_app = \<lparr>ap_fabric = counting_fabric (Inr JNull), ap_kube = None, ap_uuid = (\<lambda>_. ''id''), ap_time = (\<lambda>_. ''now''),
     ap_store_event = (\<lambda>g _. (g, Inr ())), ap_put = (\<lambda>g _ _. (g, Inr ()))\<rparr>"

definition operator :: user_claims where
  "operator = \<lparr>uc_sub = ''u1'', uc_email = None, uc_name = None, uc_role = ''operator'', uc_provider = ''oidc'', uc_jti = None\<rparr>"

definition proxy_server :: "(nat, unit) server" where
  "proxy_server = \<lparr>sv_app = proxy_app, sv_auth_enabled = True\<rparr>"

definition empty_store :: "nat action_state" where
  "empty_store = \<lparr>as_world = 0, as_kv = Map.empty, as_pending = [], as_audit = []\<rparr>"

definition nginx :: pending_guest_action where
  "nginx = new_action ''id'' ''restart_unit'' ''ns'' ''vm'' (Some ''nginx'') ''now'' None"

definition queued_store :: "nat action_state" where
  "queued_store = \<lparr>as_world = 0, as_kv = [''id'' \<mapsto> nginx], as_pending = [''id''], as_audit = [''id'']\<rparr>"

lemma operator_may: "require_guest_action_approver True (Some operator) = Inr ()"
  by code_simp

lemma proxy_open: "open_decision proxy_server ''id'' (Some operator) queued_store = Inr nginx"
  by (simp add: open_decision_Inr proxy_server_def operator_may queued_store_def nginx_def new_action_def)

lemma proxy_pull: "pull_for_vm_api (app_fabric proxy_app) ns n m p g = Some (Suc g, Inr JNull)"
proof -
  have f: "app_fabric proxy_app = (counting_fabric (Inr JNull))\<lparr>fb_kube := False\<rparr>"
    by (simp add: app_fabric_def proxy_app_def)
  have "pull_guest_rpc ((counting_fabric (Inr JNull))\<lparr>fb_kube := False\<rparr>) url m p g = (Suc g, Inr JNull)" for url
    by (simp add: pull_guest_rpc_def counting_fabric_def)
  then show ?thesis
    unfolding f pull_for_vm_api_def pull_for_vm_def pull_method_def proxy_rung_def
    by (simp add: run_then_def run_return_def counting_fields)
qed

definition nginx_result :: json where
  "nginx_result = JObject [(''namespace'', JString ''ns''), (''name'', JString ''vm''), (''unit'', JString ''nginx''), (''result'', JNull)]"

lemma proxy_execute: "execute_pending proxy_app nginx g = Some (Suc g, Inr nginx_result)"
proof -
  have "enforce_restart_unit (ap_kube proxy_app) u True = Inr ()" for u
    by (simp add: proxy_app_def enforce_restart_unit_def with_policy_def)
  then show ?thesis
    by (simp add: execute_pending_def nginx_def new_action_def run_then_def proxy_pull run_return_def nginx_result_def)
qed

lemma sample_history:
  "\<exists>st'. history proxy_server empty_store [(EnqueueRestart ''ns'' ''vm'' ''nginx'' None, Queued ''id''),
     (Approve ''id'' (Some operator), Answered (Inr (approved_reply ''id'' nginx_result)))] st'"
proof -
  have q: "serves proxy_server empty_store (EnqueueRestart ''ns'' ''vm'' ''nginx'' None, Queued ''id'') queued_store"
    by (rule serve_restart) (simp_all add: enqueue_restart_unit_def proxy_server_def proxy_app_def empty_store_def queued_store_def
        enqueue_action_def track_audit_def save_pending_def nginx_def new_action_def Let_def)
  have "approve_guest_action proxy_server ''id'' (Some operator) queued_store =
      Some (close_pending ''id'' (save_pending (approved proxy_server (Some operator) nginx_result 1 nginx)
        (queued_store\<lparr>as_world := 1\<rparr>)), Inr (approved_reply ''id'' nginx_result))"
    by (simp add: approve_guest_action_def proxy_open) (simp add: proxy_server_def proxy_execute queued_store_def)
  then have "\<exists>st'. serves proxy_server queued_store
      (Approve ''id'' (Some operator), Answered (Inr (approved_reply ''id'' nginx_result))) st'"
    by (blast intro: serve_approve)
  then show ?thesis using continue [OF continue [OF start q]] by fastforce
qed

theorem at_most_one_decision_witness:
  "\<exists>tr st'. history proxy_server empty_store tr st' \<and> length tr = 2 \<and> length (filter (decides ''id'') tr) \<le> 1"
proof -
  obtain st' where h: "history proxy_server empty_store [(EnqueueRestart ''ns'' ''vm'' ''nginx'' None, Queued ''id''),
     (Approve ''id'' (Some operator), Answered (Inr (approved_reply ''id'' nginx_result)))] st'"
    using sample_history by blast
  have "as_kv empty_store = Map.empty" by (simp add: empty_store_def)
  note one = at_most_one_decision [OF h this, of "''id''"]
  show ?thesis by (rule exI, rule exI, rule conjI, rule h, rule conjI [OF _ one]) simp
qed

theorem decisions_authorised_witness:
  "\<exists>u. decided_by (fst (Approve ''id'' (Some operator), Answered (Inr (approved_reply ''id'' nginx_result)))) = Some u \<and>
     can_approve_guest_actions u"
proof -
  obtain st' where h: "history proxy_server empty_store [(EnqueueRestart ''ns'' ''vm'' ''nginx'' None, Queued ''id''),
     (Approve ''id'' (Some operator), Answered (Inr (approved_reply ''id'' nginx_result)))] st'"
    using sample_history by blast
  show ?thesis by (rule decisions_authorised [OF h, of _ "''id''"]) (simp_all add: proxy_server_def)
qed

theorem overlapping_decisions_witness:
  "\<exists>ks st' c1 c2. run_schedule proxy_server ks [approver ''id'' (Some operator), approver ''id'' (Some operator)] queued_store =
     Some (st', [c1, c2]) \<and> as_world st' = 2"
proof -
  have "execute_pending (sv_app proxy_server) nginx (as_world queued_store) = Some (1, Inr nginx_result)"
      "execute_pending (sv_app proxy_server) nginx 1 = Some (2, Inr nginx_result)" "pa_id nginx = ''id''"
    by (simp_all add: proxy_server_def proxy_execute queued_store_def) (simp add: nginx_def new_action_def)
  from overlapping_decisions [OF proxy_open proxy_open this(3, 1, 2)] show ?thesis by blast
qed

end
