(* ===== verification/Update_Sign.thy ===== *)
theory Update_Sign
  imports Json
begin

text \<open>
  Signatures of update manifests (\<^verbatim>\<open>src/agent/update_sign.rs\<close>).  Ed25519, base64, hexadecimal decoding and the printing of
  JSON are the fields of \<open>sign_env\<close>; a signing key is its 32-byte seed, a verifying key a value of the type \<open>'k\<close>.
\<close>

record update_manifest =
  um_version :: string
  um_channel :: string
  um_linux_tar_sha256 :: string
  um_windows_zip_sha256 :: string

datatype sign_error = BadHex | BadKeyLength | BadKey | BadSignatureEncoding | BadSignatureLength | SignatureInvalid

record 'k sign_env =
  sg_print :: "json \<Rightarrow> byte list"
  sg_encode :: "byte list \<Rightarrow> string"
  sg_decode :: "string \<Rightarrow> byte list option"
  sg_unhex :: "string \<Rightarrow> byte list option"
  sg_verifying_key :: "byte list \<Rightarrow> 'k"
  sg_key_from_bytes :: "byte list \<Rightarrow> 'k option"
  sg_sign :: "byte list \<Rightarrow> byte list \<Rightarrow> byte list"
  sg_verify :: "'k \<Rightarrow> byte list \<Rightarrow> byte list \<Rightarrow> bool"
  sg_public_key_hex :: "string option"
  sg_signing_key_hex :: "string option"

text \<open>The members of the object are printed in the order of the fields; empty hashes are left out.\<close>

definition canonical_bytes :: "'k sign_env \<Rightarrow> update_manifest \<Rightarrow> byte list" where
  "canonical_bytes env m =
     sg_print env (JObject ([(''version'', JString (um_version m)), (''channel'', JString (um_channel m))]
       @ (if um_linux_tar_sha256 m = [] then [] else [(''linux_tar_sha256'', JString (um_linux_tar_sha256 m))])
       @ (if um_windows_zip_sha256 m = [] then [] else [(''windows_zip_sha256'', JString (um_windows_zip_sha256 m))])))"

definition DEV_SIGNING_SEED :: "byte list" where
  "DEV_SIGNING_SEED =
     [0x7a, 0x79, 0x76, 0x6f, 0x72, 0x2d, 0x67, 0x75, 0x65, 0x73, 0x74, 0x2d, 0x75, 0x70, 0x64, 0x61,
      0x74, 0x65, 0x2d, 0x64, 0x65, 0x76, 0x2d, 0x73, 0x65, 0x65, 0x64, 0x2d, 0x30, 0x30, 0x30, 0x31]"

definition decode_verifying_key :: "'k sign_env \<Rightarrow> string \<Rightarrow> (sign_error, 'k) result" where
  "decode_verifying_key env hex =
     (case sg_unhex env hex of
        None \<Rightarrow> Inl BadHex
      | Some bytes \<Rightarrow>
          if length bytes \<noteq> 32 then Inl BadKeyLength
          else case sg_key_from_bytes env bytes of None \<Rightarrow> Inl BadKey | Some key \<Rightarrow> Inr key)"

text \<open>A variable of the environment that is set to more than white space.\<close>

definition set_variable :: "string option \<Rightarrow> string option" where
  "set_variable v = (case v of Some s \<Rightarrow> if trim s = [] then None else Some (trim s) | None \<Rightarrow> None)"

definition load_verifying_key :: "'k sign_env \<Rightarrow> (sign_error, 'k) result" where
  "load_verifying_key env =
     (case set_variable (sg_public_key_hex env) of
        Some hex \<Rightarrow> decode_verifying_key env hex
      | None \<Rightarrow> Inr (sg_verifying_key env DEV_SIGNING_SEED))"

definition load_signing_key :: "'k sign_env \<Rightarrow> (sign_error, byte list) result" where
  "load_signing_key env =
     (case set_variable (sg_signing_key_hex env) of
        Some hex \<Rightarrow>
          (case sg_unhex env hex of
             None \<Rightarrow> Inl BadHex
           | Some bytes \<Rightarrow> if length bytes \<noteq> 32 then Inl BadKeyLength else Inr bytes)
      | None \<Rightarrow> Inr DEV_SIGNING_SEED)"

definition sign_manifest :: "'k sign_env \<Rightarrow> update_manifest \<Rightarrow> (sign_error, string) result" where
  "sign_manifest env m =
     rbind (load_signing_key env) (\<lambda>key. Inr (sg_encode env (sg_sign env key (canonical_bytes env m))))"

definition verify_manifest :: "'k sign_env \<Rightarrow> update_manifest \<Rightarrow> string \<Rightarrow> (sign_error, unit) result" where
  "verify_manifest env m signature_b64 =
     rbind (load_verifying_key env) (\<lambda>key.
       case sg_decode env (trim signature_b64) of
         None \<Rightarrow> Inl BadSignatureEncoding
       | Some sig \<Rightarrow>
           if length sig \<noteq> 64 then Inl BadSignatureLength
           else if sg_verify env key (canonical_bytes env m) sig then Inr () else Inl SignatureInvalid)"

subsection \<open>Signing and verifying\<close>

text \<open>What the source relies on of the libraries: a signature has 64 bytes and verifies, and base64 reads back what it wrote.\<close>

definition signatures_work :: "'k sign_env \<Rightarrow> bool" where
  "signatures_work env \<longleftrightarrow>
     (\<forall>seed msg. length (sg_sign env seed msg) = 64 \<and>
        sg_verify env (sg_verifying_key env seed) msg (sg_sign env seed msg)) \<and>
     (\<forall>bytes. sg_decode env (trim (sg_encode env bytes)) = Some bytes)"

text \<open>What the signing tool signs is accepted when the agent has the key that belongs to it.\<close>

lemma sign_manifest_verifies:
  assumes "signatures_work env" "load_signing_key env = Inr seed" "load_verifying_key env = Inr (sg_verifying_key env seed)"
    and "sign_manifest env m = Inr sig"
  shows "verify_manifest env m sig = Inr ()"
  using assms by (auto simp: sign_manifest_def verify_manifest_def signatures_work_def)

text \<open>
  Where no public key is configured the agent trusts the key whose seed is in the source: every manifest signed with
  that seed is accepted.
\<close>

lemma dev_key_accepted:
  assumes "signatures_work env" "set_variable (sg_public_key_hex env) = None"
  shows "verify_manifest env m (sg_encode env (sg_sign env DEV_SIGNING_SEED (canonical_bytes env m))) = Inr ()"
  using assms by (simp add: verify_manifest_def load_verifying_key_def signatures_work_def)

text \<open>An accepted signature is one over the version, the channel and the hashes, under the loaded key.\<close>

lemma verify_manifest_Inr:
  "verify_manifest env m s = Inr u \<longleftrightarrow>
     (\<exists>key sig. load_verifying_key env = Inr key \<and> sg_decode env (trim s) = Some sig \<and> length sig = 64 \<and>
        sg_verify env key (canonical_bytes env m) sig)"
  by (auto simp: verify_manifest_def rbind_def split: sum.splits option.splits if_splits)

end
