(* ===== verification/Updater.thy ===== *)
theory Updater
  imports Policy Update_Sign
begin

text \<open>
  Self-update of the agent (\<^verbatim>\<open>src/agent/updater.rs\<close>, Linux build): the check against the bundle the server offers, the
  download and staging of an artifact, and the privileged installation of what is staged.  Of the file system it has the
  staging directory, the two staged files, the directories of extractions that were not cleaned up, and the binaries that
  may be installed.  The server, SHA-256, the archive format, JSON, the clock and the random name of the extraction
  directory, which is taken to be new, are fields of \<open>update_env\<close>.  An unpacked archive is the tree of what its
  paths lead to, in the order in which a directory is read: directories, regular files, and the rest (links that lead
  nowhere and special files); links that make a cycle of directories are not covered.
\<close>

subsection \<open>Versions\<close>

definition parse_u64 :: "string \<Rightarrow> nat option" where
  "parse_u64 s =
     (let ds = (case s of c # cs \<Rightarrow> if c = CHR ''+'' then cs else s | [] \<Rightarrow> []) in
      if ds \<noteq> [] \<and> list_all is_digit ds \<and> int (digits_value ds) < 2 ^ 64 then Some (digits_value ds) else None)"

definition parse_version :: "string \<Rightarrow> nat list" where
  "parse_version raw = map (\<lambda>part. case parse_u64 part of Some n \<Rightarrow> n | None \<Rightarrow> 0) (split_on (CHR ''.'') raw)"

text \<open>The order of \<open>Vec<u64>\<close>: the first difference decides, and a proper prefix is smaller.\<close>

fun vec_less :: "nat list \<Rightarrow> nat list \<Rightarrow> bool" where
  "vec_less _ [] = False"
| "vec_less [] (_ # _) = True"
| "vec_less (x # xs) (y # ys) = (if x = y then vec_less xs ys else x < y)"

definition version_greater :: "string \<Rightarrow> string \<Rightarrow> bool" where
  "version_greater remote current = vec_less (parse_version current) (parse_version remote)"

subsection \<open>Data\<close>

record bundle_info =
  bi_version :: string
  bi_channel :: string
  bi_linux_tar_url :: "string option"
  bi_linux_tar_sha256 :: "string option"
  bi_linux_tar_signature :: "string option"
  bi_windows_zip_url :: "string option"
  bi_windows_zip_sha256 :: "string option"
  bi_windows_zip_signature :: "string option"

record staged_update_meta =
  me_version :: string
  me_channel :: string
  me_artifact_url :: string
  me_sha256 :: string
  me_staged_at :: string
  me_platform :: string

record update_check =
  ck_current_version :: string
  ck_remote_version :: "string option"
  ck_channel :: string
  ck_update_available :: bool
  ck_artifact_url :: "string option"
  ck_artifact_sha256 :: "string option"
  ck_artifact_signature :: "string option"
  ck_platform :: string

datatype archive_entry = ArFile string "byte list" | ArDir string "archive_entry list" | ArOther string

datatype installed = Binary "byte list" | Folder | Symlink

record machine =
  ma_staged_dir :: bool
  ma_extracts :: "string \<rightharpoonup> archive_entry list"
  ma_staged :: "byte list option"
  ma_meta :: "string option"
  ma_installed :: "string \<Rightarrow> installed option"
  ma_restarted :: "string list"

datatype update_error =
    NoUpdateUrl
  | BundleFailed string
  | NoArtifactUrl string
  | NoSha256 string
  | NoSignature
  | BadManifest sign_error
  | DownloadFailed string
  | ArtifactMismatch string string
  | UnpackFailed
  | AgentNotFound
  | ZipUnsupported
  | CannotStage
  | ExecutorFailed string

datatype apply_error =
    NoMeta
  | BadMeta
  | StagedMissing
  | StagedMismatch
  | WindowsOnly
  | InstallFailed string
  | NoTarget

text \<open>Unpacking gives the entries that were written and whether the archive was read to its end.\<close>

record 'k update_env =
  ud_sign :: "'k sign_env"
  ud_version :: string
  ud_update_url :: "string option"
  ud_config_url :: "string option"
  ud_zeus_url :: "string option"
  ud_fetch :: "string \<Rightarrow> bundle_info option"
  ud_download :: "string \<Rightarrow> byte list option"
  ud_sha256 :: "byte list \<Rightarrow> string"
  ud_unpack :: "byte list \<Rightarrow> archive_entry list \<times> bool"
  ud_tag :: string
  ud_cleanup :: bool
  ud_chmod :: bool
  ud_print_meta :: "staged_update_meta \<Rightarrow> string"
  ud_parse_meta :: "string \<Rightarrow> staged_update_meta option"
  ud_now :: string
  ud_writable :: "string \<Rightarrow> bool"

definition STAGED_DIR :: string where
  "STAGED_DIR = ''/var/lib/zyvor/staged''"

definition STAGED_AGENT :: string where
  "STAGED_AGENT = ''/var/lib/zyvor/staged/zyvor-guest-agent''"

definition STAGED_META :: string where
  "STAGED_META = ''/var/lib/zyvor/staged/update.json''"

subsection \<open>The check\<close>

definition current_platform :: string where
  "current_platform = ''linux''"

definition trim_slashes :: "string \<Rightarrow> string" where
  "trim_slashes s = rev (dropWhile (\<lambda>c. c = CHR ''/'') (rev s))"

definition base_url :: "(string \<Rightarrow> bool) \<Rightarrow> string option \<Rightarrow> string option" where
  "base_url ok v = (case v of Some url \<Rightarrow> if ok url then Some (trim_slashes url) else None | None \<Rightarrow> None)"

definition resolve_bundle_base :: "'k update_env \<Rightarrow> (update_error, string) result" where
  "resolve_bundle_base env =
     (case base_url (\<lambda>u. trim u \<noteq> []) (ud_update_url env) of
        Some base \<Rightarrow> Inr base
      | None \<Rightarrow>
          (case base_url (\<lambda>u. u \<noteq> []) (ud_config_url env) of
             Some base \<Rightarrow> Inr base
           | None \<Rightarrow>
               (case base_url (\<lambda>u. trim u \<noteq> []) (ud_zeus_url env) of
                  Some base \<Rightarrow> Inr base
                | None \<Rightarrow> Inl NoUpdateUrl)))"

definition fetch_bundle_info :: "'k update_env \<Rightarrow> (update_error, bundle_info) result" where
  "fetch_bundle_info env =
     rbind (resolve_bundle_base env) (\<lambda>base.
       let url = base @ ''/api/v1/vmtools/bundle'' in
       case ud_fetch env url of None \<Rightarrow> Inl (BundleFailed url) | Some b \<Rightarrow> Inr b)"

definition check_update :: "'k update_env \<Rightarrow> (update_error, update_check) result" where
  "check_update env =
     rbind (fetch_bundle_info env) (\<lambda>b.
       let windows = (current_platform = ''windows'') in
       Inr \<lparr>ck_current_version = ud_version env,
            ck_remote_version = Some (bi_version b),
            ck_channel = bi_channel b,
            ck_update_available = version_greater (bi_version b) (ud_version env),
            ck_artifact_url = (if windows then bi_windows_zip_url b else bi_linux_tar_url b),
            ck_artifact_sha256 = (if windows then bi_windows_zip_sha256 b else bi_linux_tar_sha256 b),
            ck_artifact_signature = (if windows then bi_windows_zip_signature b else bi_linux_tar_signature b),
            ck_platform = current_platform\<rparr>)"

subsection \<open>Staging\<close>

definition non_empty :: "string option \<Rightarrow> string option" where
  "non_empty v = (case v of Some s \<Rightarrow> if s = [] then None else Some s | None \<Rightarrow> None)"

definition remote_version :: "update_check \<Rightarrow> string" where
  "remote_version check = (case ck_remote_version check of Some v \<Rightarrow> v | None \<Rightarrow> [])"

definition build_update_manifest :: "update_check \<Rightarrow> string \<Rightarrow> update_manifest" where
  "build_update_manifest check expected_sha =
     (if ck_platform check = ''windows''
      then \<lparr>um_version = remote_version check, um_channel = ck_channel check,
            um_linux_tar_sha256 = [], um_windows_zip_sha256 = expected_sha\<rparr>
      else \<lparr>um_version = remote_version check, um_channel = ck_channel check,
            um_linux_tar_sha256 = expected_sha, um_windows_zip_sha256 = []\<rparr>)"

fun find_file_recursive :: "string \<Rightarrow> archive_entry list \<Rightarrow> archive_entry option" where
  "find_file_recursive name [] = None"
| "find_file_recursive name (ArFile n b # es) = (if n = name then Some (ArFile n b) else find_file_recursive name es)"
| "find_file_recursive name (ArOther n # es) = (if n = name then Some (ArOther n) else find_file_recursive name es)"
| "find_file_recursive name (ArDir n sub # es) =
     (case find_file_recursive name sub of Some e \<Rightarrow> Some e | None \<Rightarrow> find_file_recursive name es)"

definition find_agent :: "archive_entry list \<Rightarrow> archive_entry option" where
  "find_agent entries =
     (case find_file_recursive ''guestkitd'' entries of
        Some e \<Rightarrow> Some e | None \<Rightarrow> find_file_recursive ''zyvor-guest-agent'' entries)"

definition extract_dir :: "'k update_env \<Rightarrow> string" where
  "extract_dir env = STAGED_DIR @ ''/extract-'' @ ud_tag env"

text \<open>
  The extraction directory is made, filled and searched; the binary is copied to its place, the directory removed and
  the permissions set.  Every failure but that of the removal ends the function where it happens.
\<close>

definition extract_agent_binary_from_tar_gz :: "'k update_env \<Rightarrow> byte list \<Rightarrow> machine \<Rightarrow> (update_error, unit) result \<times> machine" where
  "extract_agent_binary_from_tar_gz env tar_gz m =
     (if \<not> ud_writable env (extract_dir env) then (Inl CannotStage, m)
      else
        let (entries, complete) = ud_unpack env tar_gz;
            m1 = m\<lparr>ma_extracts := (ma_extracts m)(extract_dir env \<mapsto> entries)\<rparr> in
        if \<not> complete then (Inl UnpackFailed, m1)
        else case find_agent entries of
          None \<Rightarrow> (Inl AgentNotFound, m1)
        | Some (ArFile _ b) \<Rightarrow>
            if \<not> ud_writable env STAGED_AGENT then (Inl CannotStage, m1)
            else
              let m2 = m1\<lparr>ma_staged := Some b,
                          ma_extracts := if ud_cleanup env then (ma_extracts m1)(extract_dir env := None) else ma_extracts m1\<rparr> in
              if \<not> ud_chmod env then (Inl CannotStage, m2) else (Inr (), m2)
        | Some _ \<Rightarrow> (Inl CannotStage, m1))"

text \<open>Everything that is checked before a file is written: the address, the artifact's hash and its bytes.\<close>

definition fetch_artifact ::
    "'k update_env \<Rightarrow> update_check \<Rightarrow> (update_error, string \<times> string \<times> byte list) result" where
  "fetch_artifact env check =
     (case non_empty (ck_artifact_url check) of
        None \<Rightarrow> Inl (NoArtifactUrl (ck_platform check))
      | Some url \<Rightarrow>
          (case non_empty (ck_artifact_sha256 check) of
             None \<Rightarrow> Inl (NoSha256 (ck_platform check))
           | Some expected_sha \<Rightarrow>
               (case non_empty (ck_artifact_signature check) of
                  None \<Rightarrow> Inl NoSignature
                | Some sig \<Rightarrow>
                    (case verify_manifest (ud_sign env) (build_update_manifest check expected_sha) sig of
                       Inl e \<Rightarrow> Inl (BadManifest e)
                     | Inr _ \<Rightarrow>
                         (case ud_download env url of
                            None \<Rightarrow> Inl (DownloadFailed url)
                          | Some bytes \<Rightarrow>
                              let actual_sha = ud_sha256 env bytes in
                              if \<not> eq_ignore_ascii_case actual_sha expected_sha then Inl (ArtifactMismatch expected_sha actual_sha)
                              else Inr (url, actual_sha, bytes))))))"

definition stage_artifact :: "'k update_env \<Rightarrow> update_check \<Rightarrow> machine \<Rightarrow> (update_error, staged_update_meta) result \<times> machine" where
  "stage_artifact env check m =
     (case fetch_artifact env check of
        Inl e \<Rightarrow> (Inl e, m)
      | Inr (url, actual_sha, bytes) \<Rightarrow>
          if \<not> ud_writable env STAGED_DIR then (Inl CannotStage, m)
          else
            let m1 = m\<lparr>ma_staged_dir := True\<rparr> in
            if ck_platform check = ''windows'' then (Inl ZipUnsupported, m1)
            else case extract_agent_binary_from_tar_gz env bytes m1 of
              (Inl e, m2) \<Rightarrow> (Inl e, m2)
            | (Inr _, m2) \<Rightarrow>
                let meta = \<lparr>me_version = remote_version check, me_channel = ck_channel check, me_artifact_url = url,
                            me_sha256 = actual_sha, me_staged_at = ud_now env, me_platform = ck_platform check\<rparr> in
                if \<not> ud_writable env STAGED_META then (Inl CannotStage, m2)
                else (Inr meta, m2\<lparr>ma_meta := Some (ud_print_meta env meta)\<rparr>))"

subsection \<open>Installation\<close>

definition install_targets :: "string list" where
  "install_targets =
     [''/usr/bin/guestkitd'', ''/usr/local/bin/guestkitd'', ''/usr/bin/zyvor-guest-agent'', ''/usr/local/bin/zyvor-guest-agent'']"

fun install_all ::
    "'k update_env \<Rightarrow> byte list \<Rightarrow> string list \<Rightarrow> string list \<Rightarrow> machine \<Rightarrow> (apply_error, string list) result \<times> machine" where
  "install_all env b [] updated m = (Inr updated, m)"
| "install_all env b (target # targets) updated m =
     (case ma_installed m target of
        None \<Rightarrow> install_all env b targets updated m
      | Some Symlink \<Rightarrow> install_all env b targets updated m
      | Some Folder \<Rightarrow> (Inl (InstallFailed target), m)
      | Some (Binary _) \<Rightarrow>
          if \<not> ud_writable env target then (Inl (InstallFailed target), m)
          else install_all env b targets (updated @ [target])
                 (m\<lparr>ma_installed := (ma_installed m)(target \<mapsto> Binary b)\<rparr>))"

definition restart_agent_services_linux :: "machine \<Rightarrow> machine" where
  "restart_agent_services_linux m =
     m\<lparr>ma_restarted := ma_restarted m @ [''zyvor-guest-agent.service'', ''zyvor-guest-agent-exec.service'']\<rparr>"

definition apply_staged_update_privileged :: "'k update_env \<Rightarrow> machine \<Rightarrow> (apply_error, string) result \<times> machine" where
  "apply_staged_update_privileged env m =
     (case ma_meta m of
        None \<Rightarrow> (Inl NoMeta, m)
      | Some raw \<Rightarrow>
          (case ud_parse_meta env raw of
             None \<Rightarrow> (Inl BadMeta, m)
           | Some meta \<Rightarrow>
               (case ma_staged m of
                  None \<Rightarrow> (Inl StagedMissing, m)
                | Some b \<Rightarrow>
                    if \<not> eq_ignore_ascii_case (ud_sha256 env b) (me_sha256 meta) then (Inl StagedMismatch, m)
                    else if me_platform meta = ''windows'' then (Inl WindowsOnly, m)
                    else case install_all env b install_targets [] m of
                      (Inl e, m1) \<Rightarrow> (Inl e, m1)
                    | (Inr updated, m1) \<Rightarrow>
                        if updated = [] then (Inl NoTarget, m1)
                        else (Inr (''applied '' @ me_version meta @ '' to '' @ join '', '' updated
                                @ '' (sha256 verified, services restarted)''),
                              restart_agent_services_linux m1))))"

fun apply_message :: "apply_error \<Rightarrow> string" where
  "apply_message NoMeta = ''read staged update metadata''"
| "apply_message BadMeta = ''parse staged update metadata''"
| "apply_message StagedMissing = ''staged binary missing at '' @ STAGED_AGENT"
| "apply_message StagedMismatch = ''staged binary sha256 mismatch''"
| "apply_message WindowsOnly = ''windows staged apply only supported on Windows''"
| "apply_message (InstallFailed target) = ''install staged binary to '' @ target"
| "apply_message NoTarget = ''no install target found for staged agent binary''"

subsection \<open>Versions are ordered\<close>

lemma vec_less_irrefl [simp]: "\<not> vec_less v v"
  by (induction v) simp_all

lemma vec_less_trans: "vec_less u v \<Longrightarrow> vec_less v w \<Longrightarrow> vec_less u w"
proof (induction u v arbitrary: w rule: vec_less.induct)
  case (2 y ys)
  then show ?case by (cases w) simp_all
next
  case (3 x xs y ys)
  then show ?case by (cases w) (auto split: if_splits)
qed simp

text \<open>A machine that only takes offered updates never comes back to a version it has had.\<close>

lemma version_greater_strict:
  "\<not> version_greater v v"
  "version_greater v u \<Longrightarrow> version_greater w v \<Longrightarrow> version_greater w u"
  by (auto simp: version_greater_def intro: vec_less_trans)

subsection \<open>What is staged\<close>

lemma fetch_artifact_Inr:
  "fetch_artifact env check = Inr (url, sha, bytes) \<longleftrightarrow>
     (\<exists>expected_sha sig.
        ck_artifact_url check = Some url \<and> url \<noteq> [] \<and> ck_artifact_sha256 check = Some expected_sha \<and> expected_sha \<noteq> [] \<and>
        ck_artifact_signature check = Some sig \<and> sig \<noteq> [] \<and>
        verify_manifest (ud_sign env) (build_update_manifest check expected_sha) sig = Inr () \<and>
        ud_download env url = Some bytes \<and> sha = ud_sha256 env bytes \<and> eq_ignore_ascii_case sha expected_sha)"
  by (auto simp: fetch_artifact_def non_empty_def Let_def split: option.splits sum.splits if_splits)

text \<open>The agent's binary in an artifact.\<close>

definition agent_binary :: "'k update_env \<Rightarrow> byte list \<Rightarrow> byte list option" where
  "agent_binary env bytes =
     (case ud_unpack env bytes of
        (entries, complete) \<Rightarrow> if complete then (case find_agent entries of Some (ArFile _ b) \<Rightarrow> Some b | _ \<Rightarrow> None) else None)"

text \<open>What an extraction does: nothing, or it leaves its directory behind, or it puts the binary in its place.\<close>

lemma extract_outcomes:
  assumes "extract_agent_binary_from_tar_gz env bytes m = (r, m')"
  shows "\<not> is_ok r \<and> m' = m \<or>
    \<not> is_ok r \<and> m' = m\<lparr>ma_extracts := (ma_extracts m)(extract_dir env \<mapsto> fst (ud_unpack env bytes))\<rparr> \<or>
    (\<exists>b. agent_binary env bytes = Some b \<and>
       m' = m\<lparr>ma_staged := Some b,
               ma_extracts := (ma_extracts m)(extract_dir env := if ud_cleanup env then None else Some (fst (ud_unpack env bytes)))\<rparr>)"
proof -
  obtain entries complete where u: "ud_unpack env bytes = (entries, complete)" by fastforce
  show ?thesis
  proof (cases "ud_writable env (extract_dir env) \<and> complete")
    case False
    then show ?thesis using assms u by (auto simp: extract_agent_binary_from_tar_gz_def split: if_splits)
  next
    case True
    note d = assms [unfolded extract_agent_binary_from_tar_gz_def u Let_def]
    show ?thesis
    proof (cases "find_agent entries")
      case None
      then show ?thesis using d True u by auto
    next
      case (Some e)
      show ?thesis
      proof (cases e)
        case (ArFile n b)
        then have "agent_binary env bytes = Some b" using Some True u by (simp add: agent_binary_def)
        then show ?thesis using d True u Some ArFile by (auto split: if_splits)
      qed (use d True u Some in auto)
    qed
  qed
qed

lemma stage_keeps_installed:
  assumes "stage_artifact env check m = (r, m')"
  shows "ma_installed m' = ma_installed m"
proof -
  have x: "ma_installed m2 = ma_installed m1" if "extract_agent_binary_from_tar_gz env bytes m1 = (x, m2)" for bytes m1 m2 x
    using extract_outcomes [OF that] by auto
  show ?thesis
    using assms by (auto simp: stage_artifact_def Let_def split: sum.splits if_splits prod.splits dest!: x)
qed


subsection \<open>What is installed\<close>

lemma install_all_files:
  "ma_staged (snd (install_all env b targets updated m)) = ma_staged m"
  "ma_meta (snd (install_all env b targets updated m)) = ma_meta m"
  by (induction targets arbitrary: updated m) (simp_all split: option.split installed.split)

lemma install_all_frame:
  "ma_installed (snd (install_all env b targets updated m)) t = ma_installed m t \<or>
     (t \<in> set targets \<and> (\<exists>old. ma_installed m t = Some (Binary old)) \<and>
      ma_installed (snd (install_all env b targets updated m)) t = Some (Binary b))"
proof (induction targets arbitrary: updated m)
  case (Cons target targets)
  show ?case
  proof (cases "\<exists>old. ma_installed m target = Some (Binary old) \<and> ud_writable env target")
    case True
    let ?m = "m\<lparr>ma_installed := (ma_installed m)(target \<mapsto> Binary b)\<rparr>"
    have e: "install_all env b (target # targets) updated m = install_all env b targets (updated @ [target]) ?m"
      using True by auto
    show ?thesis using Cons.IH [of "updated @ [target]" ?m] True unfolding e by (cases "t = target") auto
  next
    case False
    then have "install_all env b (target # targets) updated m = install_all env b targets updated m \<or>
        snd (install_all env b (target # targets) updated m) = m"
      by (auto split: option.split installed.split)
    then show ?thesis using Cons.IH [of updated m] by fastforce
  qed
qed simp

lemma apply_mismatch:
  assumes "ma_meta m = Some raw" "ud_parse_meta env raw = Some meta" "ma_staged m = Some b"
    and "\<not> eq_ignore_ascii_case (ud_sha256 env b) (me_sha256 meta)"
  shows "apply_staged_update_privileged env m = (Inl StagedMismatch, m)"
  using assms by (simp add: apply_staged_update_privileged_def)

text \<open>
  Installation replaces regular files among the four targets by the staged binary and nothing else.  What it asks for
  is a hash in the metadata beside the binary; it asks for no signature.
\<close>

lemma apply_confined:
  assumes "apply_staged_update_privileged env m = (r, m')" "ma_installed m' t \<noteq> ma_installed m t"
  shows "\<exists>b raw meta. ma_staged m = Some b \<and> ma_meta m = Some raw \<and> ud_parse_meta env raw = Some meta \<and>
    eq_ignore_ascii_case (ud_sha256 env b) (me_sha256 meta) \<and> t \<in> set install_targets \<and>
    (\<exists>old. ma_installed m t = Some (Binary old)) \<and> ma_installed m' t = Some (Binary b)"
proof -
  obtain b raw meta r1 m1 where a: "ma_staged m = Some b" "ma_meta m = Some raw" "ud_parse_meta env raw = Some meta"
      "eq_ignore_ascii_case (ud_sha256 env b) (me_sha256 meta)" "install_all env b install_targets [] m = (r1, m1)"
      "ma_installed m' = ma_installed m1"
    using assms by (auto simp: apply_staged_update_privileged_def restart_agent_services_linux_def
        split: option.splits if_splits prod.splits sum.splits)
  then show ?thesis using install_all_frame [of env b install_targets "[]" m t] assms(2) by auto
qed

text \<open>
  What staging leaves behind cannot be installed: the metadata has the hash of the archive, and installation compares
  it with the hash of the binary taken out of the archive.
\<close>

lemma staged_update_refused:
  assumes "stage_artifact env check m = (Inr meta, m')"
    and "ck_artifact_url check = Some url" "ud_download env url = Some bytes" "agent_binary env bytes = Some b"
    and "\<not> eq_ignore_ascii_case (ud_sha256 env b) (ud_sha256 env bytes)"
    and "ud_parse_meta env (ud_print_meta env meta) = Some meta"
  shows "apply_staged_update_privileged env m' = (Inl StagedMismatch, m')"
proof -
  obtain url' sha bytes' where f: "fetch_artifact env check = Inr (url', sha, bytes')"
    using assms(1) by (auto simp: stage_artifact_def split: sum.splits)
  then have e: "bytes' = bytes" "sha = ud_sha256 env bytes" using assms(2, 3) unfolding fetch_artifact_Inr by auto
  let ?m = "m\<lparr>ma_staged_dir := True\<rparr>"
  obtain x m2 where x: "extract_agent_binary_from_tar_gz env bytes ?m = (x, m2)" by fastforce
  have m: "is_ok x" "me_sha256 meta = sha" "m' = m2\<lparr>ma_meta := Some (ud_print_meta env meta)\<rparr>"
    using assms(1) f x by (auto simp: stage_artifact_def e(1) Let_def split: if_splits sum.splits)
  have "ma_staged m2 = Some b" using extract_outcomes [OF x] m(1) assms(4) by auto
  then have s: "ma_meta m' = Some (ud_print_meta env meta)" "ma_staged m' = Some b" using m(3) by simp_all
  show ?thesis
    by (rule apply_mismatch [OF s(1) assms(6) s(2)]) (use assms(5) in \<open>simp add: m(2) e(2)\<close>)
qed

subsection \<open>A concrete update\<close>

definition demo_sign :: "unit sign_env" where
  "demo_sign = \<lparr>sg_print = \<lambda>_. [], sg_encode = \<lambda>_. ''c2ln'', sg_decode = \<lambda>_. Some (replicate 64 0), sg_unhex = \<lambda>_. None,
     sg_verifying_key = \<lambda>_. (), sg_key_from_bytes = \<lambda>_. None, sg_sign = \<lambda>_ _. replicate 64 0,
     sg_verify = \<lambda>_ _ sig. sig = replicate 64 0, sg_public_key_hex = None, sg_signing_key_hex = None\<rparr>"

definition demo_check :: update_check where
  "demo_check = \<lparr>ck_current_version = ''1.9.0'', ck_remote_version = Some ''1.10.0'', ck_channel = ''stable'',
     ck_update_available = True, ck_artifact_url = Some ''http://s/a.tgz'', ck_artifact_sha256 = Some ''AB'',
     ck_artifact_signature = Some ''c2ln'', ck_platform = ''linux''\<rparr>"

definition demo_meta :: staged_update_meta where
  "demo_meta = \<lparr>me_version = ''1.10.0'', me_channel = ''stable'', me_artifact_url = ''http://s/a.tgz'', me_sha256 = ''ab'',
     me_staged_at = ''now'', me_platform = ''linux''\<rparr>"

definition demo_update :: "unit update_env" where
  "demo_update = \<lparr>ud_sign = demo_sign, ud_version = ''1.9.0'', ud_update_url = Some ''http://s/'', ud_config_url = None,
     ud_zeus_url = None,
     ud_fetch = \<lambda>url. if url = ''http://s/api/v1/vmtools/bundle'' then
       Some \<lparr>bi_version = ''1.10.0'', bi_channel = ''stable'', bi_linux_tar_url = Some ''http://s/a.tgz'',
         bi_linux_tar_sha256 = Some ''AB'', bi_linux_tar_signature = Some ''c2ln'', bi_windows_zip_url = None,
         bi_windows_zip_sha256 = None, bi_windows_zip_signature = None\<rparr> else None,
     ud_download = \<lambda>_. Some [1, 2], ud_sha256 = \<lambda>b. if b = [1, 2] then ''ab'' else ''cd'',
     ud_unpack = \<lambda>_. ([ArDir ''bin'' [ArFile ''guestkitd'' [7]]], True), ud_tag = ''0a1b2c3d'',
     ud_cleanup = True, ud_chmod = True,
     ud_print_meta = \<lambda>_. ''meta'', ud_parse_meta = \<lambda>_. Some demo_meta, ud_now = ''now'', ud_writable = \<lambda>_. True\<rparr>"

definition demo_machine :: machine where
  "demo_machine = \<lparr>ma_staged_dir = True, ma_extracts = Map.empty, ma_staged = None, ma_meta = None, ma_installed = map_of [(''/usr/bin/guestkitd'', Binary [5])], ma_restarted = []\<rparr>"

lemma demo_check_update: "check_update demo_update = Inr demo_check"
  by code_simp

lemma demo_binary: "agent_binary demo_update [1, 2] = Some [7]"
  by code_simp

lemma demo_extract:
  "ma_extracts m = Map.empty \<Longrightarrow> extract_agent_binary_from_tar_gz demo_update [1, 2] m = (Inr (), m\<lparr>ma_staged := Some [7]\<rparr>)"
  by (simp add: extract_agent_binary_from_tar_gz_def demo_update_def find_agent_def)

lemma demo_fetch: "fetch_artifact demo_update demo_check = Inr (''http://s/a.tgz'', ''ab'', [1, 2])"
  by code_simp

lemma demo_stage:
  "stage_artifact demo_update demo_check demo_machine =
     (Inr demo_meta, demo_machine\<lparr>ma_staged := Some [7], ma_meta := Some (ud_print_meta demo_update demo_meta)\<rparr>)"
proof -
  have x: "extract_agent_binary_from_tar_gz demo_update [1, 2] (demo_machine\<lparr>ma_staged_dir := True\<rparr>) =
      (Inr (), demo_machine\<lparr>ma_staged := Some [7]\<rparr>)"
    using demo_extract [of "demo_machine\<lparr>ma_staged_dir := True\<rparr>"] by (simp add: demo_machine_def)
  have w: "ud_writable demo_update p" "ck_platform demo_check \<noteq> ''windows''" for p
    by (simp_all add: demo_update_def demo_check_def)
  show ?thesis
    unfolding stage_artifact_def demo_fetch
    by (simp add: w x Let_def) (simp add: demo_meta_def demo_check_def remote_version_def demo_update_def)
qed


end
