(* ===== verification/Exec_Helper.thy ===== *)
theory Exec_Helper
  imports Remediation Frame Updater
begin

text \<open>
  The privileged helper (\<^verbatim>\<open>src/agent/executor_ipc.rs\<close>): its dispatch of requests, the connection over its socket in frames,
  and the updates that go through it (\<^verbatim>\<open>src/agent/updater.rs\<close>).  Spawned commands, the support bundle, base64 and the
  encoding of the messages as JSON are fields of \<open>helper_env\<close>; the state is the guest with the audit lines.
\<close>

subsection \<open>Requests\<close>

record helper_request =
  xq_action :: string
  xq_params :: json

record helper_response =
  xo_ok :: bool
  xo_result :: "json option"
  xo_error :: "string option"

record command_output =
  co_success :: bool
  co_status :: string
  co_stderr :: string

record 'g helper_env =
  hl_units :: "'g unit_env"
  hl_policy :: agent_policy
  hl_run :: "string \<Rightarrow> string list \<Rightarrow> 'g \<Rightarrow> (string, command_output) result \<times> 'g"
  hl_actions :: "json \<Rightarrow> remediation_action_spec list option"
  hl_actions_json :: "remediation_action_spec list \<Rightarrow> json"
  hl_result_json :: "remediation_result \<Rightarrow> json"
  hl_parse_result :: "json \<Rightarrow> remediation_result option"
  hl_bundle :: "'g \<Rightarrow> (string, byte list) result \<times> 'g"
  hl_base64 :: "byte list \<Rightarrow> string"
  hl_update :: "'g \<Rightarrow> (string, string) result \<times> 'g"
  hl_print_request :: "helper_request \<Rightarrow> byte list"
  hl_parse_request :: "byte list \<Rightarrow> helper_request option"
  hl_print_response :: "helper_response \<Rightarrow> byte list"
  hl_parse_response :: "byte list \<Rightarrow> helper_response option"
  hl_socket_env :: "string option"
  hl_socket :: bool

definition EXEC_SOCKET_PATH :: string where
  "EXEC_SOCKET_PATH = ''/var/run/zyvor/guest-agent-exec.sock''"

definition socket_path :: "'g helper_env \<Rightarrow> string" where
  "socket_path env = (case hl_socket_env env of Some p \<Rightarrow> p | None \<Rightarrow> EXEC_SOCKET_PATH)"

definition respond :: "(string, json) result \<Rightarrow> helper_response" where
  "respond r =
     (case r of
        Inr v \<Rightarrow> \<lparr>xo_ok = True, xo_result = Some v, xo_error = None\<rparr>
      | Inl e \<Rightarrow> \<lparr>xo_ok = False, xo_result = None, xo_error = Some e\<rparr>)"

definition respond_text :: "(string, string) result \<Rightarrow> helper_response" where
  "respond_text r = respond (map_sum id JString r)"

definition text_param :: "json \<Rightarrow> string \<Rightarrow> string \<Rightarrow> string" where
  "text_param params key fallback = (case Option.bind (json_get params key) as_str of Some s \<Rightarrow> s | None \<Rightarrow> fallback)"

text \<open>Inside the helper \<open>IN_HELPER\<close> is set: the executor finds no helper and acts itself.\<close>

definition helper_units :: "'g helper_env \<Rightarrow> 'g unit_env" where
  "helper_units env = (hl_units env)\<lparr>ue_available := \<lambda>_. False\<rparr>"

definition run_power_action :: "'g helper_env \<Rightarrow> string \<Rightarrow> nat \<Rightarrow> 'g \<Rightarrow> (string, string) result \<times> 'g" where
  "run_power_action env action delay_secs g =
     (let minutes = (delay_secs + 59) div 60;
          flag = (if action = ''reboot'' then ''-r'' else ''-h'') in
      case hl_run env ''shutdown'' [flag, ''+'' @ show_nat minutes] g of
        (Inl e, g1) \<Rightarrow> (Inl e, g1)
      | (Inr out, g1) \<Rightarrow>
          (if co_success out then Inr (action @ '' scheduled in '' @ show_nat delay_secs @ ''s'')
           else Inl (''shutdown command failed: '' @ co_status out), g1))"

fun try_syncs :: "'g helper_env \<Rightarrow> (string \<times> string list) list \<Rightarrow> 'g \<Rightarrow> (string, string) result \<times> 'g" where
  "try_syncs env [] g = (Inl ''no time sync mechanism succeeded (tried chronyc/timedatectl or w32tm)'', g)"
| "try_syncs env ((cmd, args) # rest) g =
     (case hl_run env cmd args g of
        (Inr out, g1) \<Rightarrow> if co_success out then (Inr (''time sync triggered via '' @ cmd), g1) else try_syncs env rest g1
      | (Inl _, g1) \<Rightarrow> try_syncs env rest g1)"

definition run_time_sync :: "'g helper_env \<Rightarrow> 'g \<Rightarrow> (string, string) result \<times> 'g" where
  "run_time_sync env = try_syncs env [(''chronyc'', [''makestep'']), (''timedatectl'', [''set-ntp'', ''true''])]"

definition local_fsfreeze :: "'g helper_env \<Rightarrow> bool \<Rightarrow> 'g \<Rightarrow> (string, unit) result \<times> 'g" where
  "local_fsfreeze env thaw g =
     (let flag = (if thaw then ''-u'' else ''-f'') in
      case hl_run env ''fsfreeze'' [flag, ''/''] g of
        (Inl _, g1) \<Rightarrow> (Inl ''run fsfreeze'', g1)
      | (Inr out, g1) \<Rightarrow>
          (if co_success out then Inr ()
           else let why = trim (co_stderr out) in
             Inl (''fsfreeze '' @ flag @ '' / failed: '' @ co_status out @ (if why = [] then [] else '': '' @ why)), g1))"

definition expansion_allowed :: "string \<Rightarrow> bool" where
  "expansion_allowed command \<longleftrightarrow>
     (starts_with command ''xfs_growfs '' \<or> starts_with command ''resize2fs ''
        \<or> starts_with command ''btrfs filesystem resize '' \<or> starts_with command ''lvextend '')
     \<and> CHR '';'' \<notin> set command \<and> CHR ''|'' \<notin> set command \<and> CHR ''&'' \<notin> set command"

definition expand_filesystem :: "'g helper_env \<Rightarrow> string \<Rightarrow> 'g \<Rightarrow> (string, string) result \<times> 'g" where
  "expand_filesystem env command g =
     (if \<not> expansion_allowed command then (Inl (''refused expansion command: '' @ command), g)
      else case hl_run env ''sh'' [''-c'', command] g of
        (Inl e, g1) \<Rightarrow> (Inl e, g1)
      | (Inr out, g1) \<Rightarrow>
          (if co_success out then Inr (''expanded via '' @ command) else Inl (command @ '': '' @ co_status out), g1))"

definition freeze_request :: "'g helper_env \<Rightarrow> string \<Rightarrow> 'g \<Rightarrow> (string, string) result \<times> 'g" where
  "freeze_request env op g =
     (if op \<noteq> ''freeze'' \<and> op \<noteq> ''thaw'' then (Inl (''unsupported fsfreeze op: '' @ op), g)
      else case local_fsfreeze env (op = ''thaw'') g of (r, g1) \<Rightarrow> (map_sum id (\<lambda>_. op) r, g1))"

text \<open>The helper's dispatch.\<close>

definition dispatch_plan :: "'g helper_env \<Rightarrow> json \<Rightarrow> 'g exec_state \<Rightarrow> helper_response \<times> 'g exec_state" where
  "dispatch_plan env params st =
     (let plan_id = text_param params ''plan_id'' ''local'';
          actions = (case Option.bind (json_get params ''actions'') (hl_actions env) of Some as \<Rightarrow> as | None \<Rightarrow> []) in
      case execute_remediation_plan (helper_units env) (hl_policy env) plan_id actions st of
        (result, st1) \<Rightarrow> (\<lparr>xo_ok = rm_success result, xo_result = Some (hl_result_json env result), xo_error = None\<rparr>, st1))"

definition dispatch_bundle :: "'g helper_env \<Rightarrow> 'g exec_state \<Rightarrow> helper_response \<times> 'g exec_state" where
  "dispatch_bundle env st =
     map_prod (\<lambda>r. respond (map_sum id (\<lambda>bytes. JObject [(''format'', JString ''tar.zst''), (''encoding'', JString ''base64''),
       (''data'', JString (hl_base64 env bytes))]) r)) id (on_guest (hl_bundle env) st)"

definition helper_dispatch :: "'g helper_env \<Rightarrow> helper_request \<Rightarrow> 'g exec_state \<Rightarrow> helper_response \<times> 'g exec_state" where
  "helper_dispatch env req st =
     (let action = xq_action req; params = xq_params req in
      if action = ''restart_unit''
      then map_prod respond_text id (restart_unit (helper_units env) (hl_policy env) (text_param params ''unit'' []) st)
      else if action = ''execute_remediation_plan'' then dispatch_plan env params st
      else if action = ''collect_support_bundle'' then dispatch_bundle env st
      else if action = ''start_unit'' \<or> action = ''stop_unit''
      then map_prod respond_text id
        (control_unit (helper_units env) (hl_policy env) (take (length action - 5) action) (text_param params ''unit'' []) st)
      else if action = ''power_action''
      then map_prod respond_text id
        (on_guest (run_power_action env (text_param params ''action'' ''reboot'')
          (case Option.bind (json_get params ''delay_secs'') as_u64 of Some n \<Rightarrow> n | None \<Rightarrow> 1)) st)
      else if action = ''expand_filesystem''
      then map_prod respond_text id (on_guest (expand_filesystem env (text_param params ''command'' [])) st)
      else if action = ''fsfreeze''
      then map_prod respond_text id (on_guest (freeze_request env (text_param params ''op'' [])) st)
      else if action = ''time_sync'' then map_prod respond_text id (on_guest (run_time_sync env) st)
      else if action = ''apply_staged_update''
      then map_prod (\<lambda>r. respond (map_sum id (\<lambda>msg. JObject [(''message'', JString msg)]) r)) id (on_guest (hl_update env) st)
      else (respond (Inl (''unsupported executor action: '' @ action)), st))"

subsection \<open>The connection\<close>

text \<open>What the helper writes back on a connection, and the state it leaves; after an error it closes without an answer.\<close>

definition serve_connection :: "'g helper_env \<Rightarrow> byte list \<Rightarrow> 'g exec_state \<Rightarrow> byte list \<times> 'g exec_state" where
  "serve_connection env input st =
     (case fst (read_frame input) of
        Inl _ \<Rightarrow> ([], st)
      | Inr frame \<Rightarrow>
          (case hl_parse_request env frame of
             None \<Rightarrow> ([], st)
           | Some req \<Rightarrow>
               (case helper_dispatch env req st of
                  (resp, st1) \<Rightarrow>
                    (case write_frame vec_sink [] (hl_print_response env resp) of Inl _ \<Rightarrow> [] | Inr out \<Rightarrow> out, st1))))"

definition call_executor :: "'g helper_env \<Rightarrow> string \<Rightarrow> json \<Rightarrow> 'g exec_state \<Rightarrow> (string, json) result \<times> 'g exec_state" where
  "call_executor env action params st =
     (if \<not> hl_socket env then (Inl (''executor socket not available at '' @ socket_path env), st)
      else case write_frame vec_sink [] (hl_print_request env \<lparr>xq_action = action, xq_params = params\<rparr>) of
        Inl e \<Rightarrow> (Inl (message e), st)
      | Inr sent \<Rightarrow>
          (case serve_connection env sent st of
             (received, st1) \<Rightarrow>
               (case fst (read_frame received) of
                  Inl e \<Rightarrow> Inl (message e)
                | Inr frame \<Rightarrow>
                    (case hl_parse_response env frame of
                       None \<Rightarrow> Inl ''parse exec response''
                     | Some resp \<Rightarrow>
                         if xo_ok resp then Inr (case xo_result resp of Some v \<Rightarrow> v | None \<Rightarrow> JNull)
                         else Inl (case xo_error resp of Some e \<Rightarrow> e | None \<Rightarrow> ''executor failed'')), st1)))"

text \<open>Freezing on behalf of the agent: through the helper when its socket is there, otherwise in the agent itself.\<close>

definition fsfreeze :: "'g helper_env \<Rightarrow> bool \<Rightarrow> 'g exec_state \<Rightarrow> (string, unit) result \<times> 'g exec_state" where
  "fsfreeze env thaw st =
     (if hl_socket env
      then map_prod (map_sum id (\<lambda>_. ())) id
        (call_executor env ''fsfreeze'' (JObject [(''op'', JString (if thaw then ''thaw'' else ''freeze''))]) st)
      else on_guest (local_fsfreeze env thaw) st)"

subsection \<open>The agent's executor with the helper\<close>

text \<open>
  The environment of the agent's executor when the helper is the one above: its guest is the state of the helper.
\<close>

definition unit_params :: "string \<Rightarrow> json" where
  "unit_params unit = JObject [(''unit'', JString unit)]"

definition plan_params :: "'g helper_env \<Rightarrow> string \<Rightarrow> remediation_action_spec list \<Rightarrow> json" where
  "plan_params env plan_id actions = JObject [(''plan_id'', JString plan_id), (''actions'', hl_actions_json env actions)]"

definition agent_units :: "'g helper_env \<Rightarrow> 'g exec_state unit_env" where
  "agent_units env =
     \<lparr>ue_available = \<lambda>_. hl_socket env,
      ue_call = \<lambda>op unit h. map_prod (\<lambda>r. case r of Inl _ \<Rightarrow> None | Inr v \<Rightarrow> Some (as_str v)) id (call_executor env op (unit_params unit) h),
      ue_plan = \<lambda>plan_id actions h. map_prod (\<lambda>r. case r of Inl _ \<Rightarrow> None | Inr v \<Rightarrow> hl_parse_result env v) id
        (call_executor env ''execute_remediation_plan'' (plan_params env plan_id actions) h),
      ue_dbus_restart = \<lambda>unit. on_guest (ue_dbus_restart (hl_units env) unit),
      ue_systemctl = \<lambda>op unit. on_guest (ue_systemctl (hl_units env) op unit),
      ue_vacuum = on_guest (ue_vacuum (hl_units env))\<rparr>"

subsection \<open>Updates through the helper\<close>

text \<open>The helper of a machine, with the installation of staged updates.\<close>

definition update_helper :: "'k update_env \<Rightarrow> machine helper_env \<Rightarrow> machine helper_env" where
  "update_helper env hv = hv\<lparr>hl_update := \<lambda>m. map_prod (map_sum apply_message id) id (apply_staged_update_privileged env m)\<rparr>"

definition current_message :: "update_check \<Rightarrow> string" where
  "current_message check =
     ''Zyvor GuestAgent '' @ ck_current_version check @ '' is current (channel '' @ ck_channel check @ '')''"

definition stage_update ::
    "'k update_env \<Rightarrow> machine helper_env \<Rightarrow> bool \<Rightarrow> machine exec_state \<Rightarrow> (update_error, string) result \<times> machine exec_state" where
  "stage_update env hv apply st =
     (case check_update env of
        Inl e \<Rightarrow> (Inl e, st)
      | Inr check \<Rightarrow>
          if \<not> ck_update_available check then (Inr (current_message check), st)
          else case on_guest (stage_artifact env check) st of
            (Inl e, st1) \<Rightarrow> (Inl e, st1)
          | (Inr meta, st1) \<Rightarrow>
              if \<not> apply then (Inr (''staged '' @ me_version meta @ '' (sha256 verified) at '' @ STAGED_AGENT), st1)
              else if hl_socket hv
              then case call_executor (update_helper env hv) ''apply_staged_update'' (JObject []) st1 of
                  (Inl e, st2) \<Rightarrow> (Inl (ExecutorFailed e), st2)
                | (Inr v, st2) \<Rightarrow>
                    (Inr (case as_str v of Some s \<Rightarrow> s | None \<Rightarrow> ''staged update applied via executor''), st2)
              else (Inr (''staged '' @ me_version meta @ '' to '' @ STAGED_AGENT @ ''; executor unavailable ''
                      @ [CHR 0xE2, CHR 0x80, CHR 0x94] @ '' apply via privileged helper''), st1))"

definition run_scheduled_update ::
    "'k update_env \<Rightarrow> machine helper_env \<Rightarrow> agent_policy \<Rightarrow> machine exec_state
       \<Rightarrow> (update_error, string) result \<times> machine exec_state" where
  "run_scheduled_update env hv policy st =
     (if \<not> up_enabled (pa_self_update (ap_actions policy)) then (Inr ''self-update disabled by agent policy'', st)
      else case check_update env of
        Inl e \<Rightarrow> (Inl e, st)
      | Inr check \<Rightarrow>
          if \<not> ck_update_available check then (Inr (current_message check), st)
          else if \<not> can_auto_apply_update policy
          then (Inr (''update '' @ remote_version check @ '' available on channel '' @ ck_channel check
                  @ '' (auto_apply disabled)''), st)
          else stage_update env hv True st)"

subsection \<open>Calls\<close>

text \<open>One message in a frame arrives as it was sent.\<close>

lemma frame_once:
  assumes "frame_payload p"
  shows "\<exists>w. write_frame vec_sink [] p = Inr w \<and> fst (read_frame w) = Inr p"
proof -
  have "write_frame vec_sink [] p = Inr (frame_bytes p)"
    using assms write_frame_vec [of p "[]"] by (auto simp: frame_payload_def)
  moreover have "read_frame (frame_bytes p) = (Inr p, [])" using read_frame_frame_bytes [OF assms, of 0 "[]"] by simp
  ultimately show ?thesis by simp
qed

text \<open>The answer of a call is the response to its request.\<close>

definition outcome :: "helper_response \<Rightarrow> (string, json) result" where
  "outcome resp =
     (if xo_ok resp then Inr (case xo_result resp of Some v \<Rightarrow> v | None \<Rightarrow> JNull)
      else Inl (case xo_error resp of Some e \<Rightarrow> e | None \<Rightarrow> ''executor failed''))"

lemma outcome_respond [simp]: "outcome (respond r) = r"
  by (cases r) (simp_all add: outcome_def respond_def)

lemma call_executor_exact:
  assumes "hl_socket env" "req = \<lparr>xq_action = action, xq_params = params\<rparr>" "helper_dispatch env req st = (resp, st')"
    and "hl_parse_request env (hl_print_request env req) = Some req" "frame_payload (hl_print_request env req)"
    and "hl_parse_response env (hl_print_response env resp) = Some resp" "frame_payload (hl_print_response env resp)"
  shows "call_executor env action params st = (outcome resp, st')"
proof -
  obtain w v where w: "write_frame vec_sink [] (hl_print_request env req) = Inr w"
      "fst (read_frame w) = Inr (hl_print_request env req)"
      "write_frame vec_sink [] (hl_print_response env resp) = Inr v" "fst (read_frame v) = Inr (hl_print_response env resp)"
    using frame_once [OF assms(5)] frame_once [OF assms(7)] by blast
  have "serve_connection env w st = (v, st')" using w assms(3, 4) by (simp add: serve_connection_def)
  then show ?thesis using w assms(1, 2, 6) by (simp add: call_executor_def outcome_def)
qed

subsection \<open>What the helper guards\<close>

text \<open>Requests on units are held to the allowlist by the helper too.\<close>

lemma helper_units_guarded:
  assumes "xq_action req \<in> {''restart_unit'', ''start_unit'', ''stop_unit''}"
    and "\<not> can_restart_unit (hl_policy env) (text_param (xq_params req) ''unit'' [])"
  shows "snd (helper_dispatch env req st) = st" "\<not> xo_ok (fst (helper_dispatch env req st))"
proof -
  let ?u = "text_param (xq_params req) ''unit'' []"
  have r: "\<not> is_ok r \<Longrightarrow> \<not> xo_ok (respond_text r)" for r by (cases r) (simp_all add: respond_text_def respond_def)
  show "snd (helper_dispatch env req st) = st" "\<not> xo_ok (fst (helper_dispatch env req st))"
    using assms denied_untouched [OF assms(2), of "helper_units env"] r
    by (auto simp: helper_dispatch_def Let_def)
qed

text \<open>
  Claim C30.  The check of expansion commands is no sandbox: whatever shell text without semicolon, bar and ampersand a
  caller puts into a command substitution or on a line of its own after an allowed program, the helper hands it to the shell.
\<close>

theorem expansion_guard_bypass:
  assumes "CHR '';'' \<notin> set script" "CHR ''|'' \<notin> set script" "CHR ''&'' \<notin> set script"
    and "command = ''resize2fs $('' @ script @ '')'' \<or> command = ''xfs_growfs '' @ CHR 0x0A # script"
  shows "expand_filesystem env command g =
    (case hl_run env ''sh'' [''-c'', command] g of
       (Inl e, g1) \<Rightarrow> (Inl e, g1)
     | (Inr out, g1) \<Rightarrow> (if co_success out then Inr (''expanded via '' @ command) else Inl (command @ '': '' @ co_status out), g1))"
proof -
  have "expansion_allowed command" using assms by (auto simp: expansion_allowed_def starts_with_def)
  then show ?thesis by (simp add: expand_filesystem_def)
qed

text \<open>Every power action but a reboot is a halt, whatever its name.\<close>

lemma power_action_halts:
  assumes "action \<noteq> ''reboot''"
  shows "snd (run_power_action env action n g) = snd (hl_run env ''shutdown'' [''-h'', ''+'' @ show_nat ((n + 59) div 60)] g)"
  using assms by (simp add: run_power_action_def split: prod.split sum.split)

subsection \<open>Failed plans\<close>

lemma dispatch_plan_failed:
  assumes "run_actions (helper_units env) (hl_policy env) actions h = (rs, h1)" "\<not> list_all rr_success rs"
    and "hl_actions env (hl_actions_json env actions) = Some actions"
  shows "\<exists>resp. helper_dispatch env \<lparr>xq_action = ''execute_remediation_plan'', xq_params = plan_params env plan_id actions\<rparr> h = (resp, h1)
    \<and> outcome resp = Inl ''executor failed''"
  using assms
  by (simp add: helper_dispatch_def dispatch_plan_def plan_params_def text_param_def execute_remediation_plan_def helper_units_def
      outcome_def)

text \<open>
  Claim C13.  A remediation plan that fails in the helper is run a second time: the response of a plan without success
  carries no error text and its result is dropped by the caller, which takes the failure for a missing helper and performs
  all the actions again on the guest the helper has left.
\<close>

theorem failed_plan_repeated:
  assumes "hl_socket env" "req = \<lparr>xq_action = ''execute_remediation_plan'', xq_params = plan_params env plan_id actions\<rparr>"
    and "run_actions (helper_units env) (hl_policy env) actions (xs_guest st) = (rs, h1)" "\<not> list_all rr_success rs"
    and "hl_actions env (hl_actions_json env actions) = Some actions"
    and "hl_parse_request env (hl_print_request env req) = Some req" "frame_payload (hl_print_request env req)"
    and "resp = fst (helper_dispatch env req (xs_guest st))"
    and "hl_parse_response env (hl_print_response env resp) = Some resp" "frame_payload (hl_print_response env resp)"
  shows "execute_remediation_plan (agent_units env) p plan_id actions st =
    (case run_actions (agent_units env) p actions (st\<lparr>xs_guest := h1\<rparr>) of
       (rs2, st2) \<Rightarrow> (\<lparr>rm_plan_id = plan_id, rm_success = list_all rr_success rs2, rm_actions = rs2\<rparr>, st2))"
proof -
  have d: "helper_dispatch env req (xs_guest st) = (resp, h1)" "outcome resp = Inl ''executor failed''"
    using dispatch_plan_failed [OF assms(3-5), of plan_id] assms(2, 8) by auto
  have "call_executor env ''execute_remediation_plan'' (plan_params env plan_id actions) (xs_guest st) = (Inl ''executor failed'', h1)"
    using call_executor_exact [OF assms(1, 2) d(1) assms(6, 7, 9, 10)] d(2) by simp
  then have "ue_plan (agent_units env) plan_id actions (xs_guest st) = (None, h1)" by (simp add: agent_units_def)
  moreover have "ue_available (agent_units env) (xs_guest st)" using assms(1) by (simp add: agent_units_def)
  ultimately show ?thesis by (simp add: execute_remediation_plan_def)
qed

subsection \<open>Updates\<close>

lemma apply_request:
  assumes "apply_staged_update_privileged env (xs_guest st) = (Inl e, m)"
  shows "helper_dispatch (update_helper env hv) \<lparr>xq_action = ''apply_staged_update'', xq_params = JObject []\<rparr> st =
    (respond (Inl (apply_message e)), st\<lparr>xs_guest := m\<rparr>)"
  using assms by (simp add: helper_dispatch_def update_helper_def on_guest_def)

text \<open>
  Claim C12.  No update is ever installed through the agent: when the check, the signature, the download and the hash of
  the artifact are all right, the update is staged and the helper called, and the helper refuses it, because the metadata
  holds the hash of the archive and the helper compares it with the hash of the binary taken out of it.
\<close>

theorem self_update_refused:
  assumes "check_update env = Inr check" "ck_update_available check"
    and "stage_artifact env check (xs_guest st) = (Inr meta, m1)"
    and "ck_artifact_url check = Some url" "ud_download env url = Some bytes" "agent_binary env bytes = Some b"
    and "\<not> eq_ignore_ascii_case (ud_sha256 env b) (ud_sha256 env bytes)"
    and "ud_parse_meta env (ud_print_meta env meta) = Some meta"
    and "hl_socket hv" "req = \<lparr>xq_action = ''apply_staged_update'', xq_params = JObject []\<rparr>"
    and "hl_parse_request hv (hl_print_request hv req) = Some req" "frame_payload (hl_print_request hv req)"
    and "resp = respond (Inl (apply_message StagedMismatch))"
    and "hl_parse_response hv (hl_print_response hv resp) = Some resp" "frame_payload (hl_print_response hv resp)"
  shows "stage_update env hv True st = (Inl (ExecutorFailed ''staged binary sha256 mismatch''), st\<lparr>xs_guest := m1\<rparr>) \<and>
    ma_installed m1 = ma_installed (xs_guest st)"
proof -
  have "apply_staged_update_privileged env m1 = (Inl StagedMismatch, m1)"
    by (rule staged_update_refused [OF assms(3-8)])
  then have d: "helper_dispatch (update_helper env hv) req (st\<lparr>xs_guest := m1\<rparr>) = (resp, st\<lparr>xs_guest := m1\<rparr>)"
    using apply_request [of env "st\<lparr>xs_guest := m1\<rparr>"] assms(10, 13) by simp
  have "call_executor (update_helper env hv) ''apply_staged_update'' (JObject []) (st\<lparr>xs_guest := m1\<rparr>) = (outcome resp, st\<lparr>xs_guest := m1\<rparr>)"
    by (rule call_executor_exact [OF _ assms(10) d]) (use assms(9, 11, 12, 14, 15) in \<open>simp_all add: update_helper_def\<close>)
  then have "stage_update env hv True st = (Inl (ExecutorFailed ''staged binary sha256 mismatch''), st\<lparr>xs_guest := m1\<rparr>)"
    using assms(1-3, 9, 13) by (simp add: stage_update_def on_guest_def)
  moreover have "ma_installed m1 = ma_installed (xs_guest st)"
    by (rule stage_keeps_installed [OF assms(3)])
  ultimately show ?thesis by simp
qed

subsection \<open>Concrete calls\<close>

text \<open>A guest that counts the commands run in it, and a helper with fixed messages.\<close>

definition demo_request :: "string \<Rightarrow> json \<Rightarrow> helper_request" where
  "demo_request action params = \<lparr>xq_action = action, xq_params = params\<rparr>"

definition demo_units :: "('g \<Rightarrow> 'g) \<Rightarrow> 'g unit_env" where
  "demo_units run = \<lparr>ue_available = \<lambda>_. False, ue_call = \<lambda>_ _ g. (None, g), ue_plan = \<lambda>_ _ g. (None, g),
     ue_dbus_restart = \<lambda>_ g. (Inl [], g), ue_systemctl = \<lambda>_ _ g. (Inl [], g), ue_vacuum = \<lambda>g. (Inr (), run g)\<rparr>"

definition demo_actions :: "remediation_action_spec list" where
  "demo_actions = [\<lparr>ra_action = ''rotate_journal'', ra_target = []\<rparr>, \<lparr>ra_action = ''defragment'', ra_target = []\<rparr>]"

definition demo_helper :: "('g \<Rightarrow> 'g) \<Rightarrow> helper_request \<Rightarrow> helper_response \<Rightarrow> 'g helper_env" where
  "demo_helper run req resp =
     \<lparr>hl_units = demo_units run, hl_policy = policy_default, hl_run = \<lambda>_ _ g. (Inr \<lparr>co_success = True, co_status = [], co_stderr = []\<rparr>, run g),
      hl_actions = \<lambda>_. Some demo_actions, hl_actions_json = \<lambda>_. JNull, hl_result_json = \<lambda>_. JObject [], hl_parse_result = \<lambda>_. None,
      hl_bundle = \<lambda>g. (Inl [], g), hl_base64 = \<lambda>_. [], hl_update = \<lambda>g. (Inl [], g),
      hl_print_request = \<lambda>_. [1], hl_parse_request = \<lambda>_. Some req, hl_print_response = \<lambda>_. [2], hl_parse_response = \<lambda>_. Some resp,
      hl_socket_env = None, hl_socket = True\<rparr>"

lemma demo_frames [simp]: "frame_payload [x]"
  by (simp add: frame_payload_def)

lemma demo_update_fields:
  "ck_update_available demo_check" "ck_artifact_url demo_check = Some ''http://s/a.tgz''"
  "ud_download demo_update url = Some [1, 2]" "ud_parse_meta demo_update raw = Some demo_meta"
  by (simp_all add: demo_check_def demo_update_def)

lemma demo_helper_fields:
  "hl_socket (demo_helper run req resp)" "hl_print_request (demo_helper run req resp) q = [1]"
  "hl_parse_request (demo_helper run req resp) w = Some req" "hl_print_response (demo_helper run req resp) a = [2]"
  "hl_parse_response (demo_helper run req resp) w = Some resp"
  "hl_run (demo_helper run req resp) cmd args g = (Inr \<lparr>co_success = True, co_status = [], co_stderr = []\<rparr>, run g)"
  "hl_actions (demo_helper run req resp) j = Some demo_actions"
  by (simp_all add: demo_helper_def)

theorem expansion_guard_bypass_witness:
  "snd (expand_filesystem (demo_helper Suc (demo_request [] JNull) (respond (Inl []))) ''resize2fs $(reboot)'' 0) = 1"
proof -
  let ?env = "demo_helper Suc (demo_request [] JNull) (respond (Inl []))"
  have c: "CHR '';'' \<notin> set ''reboot''" "CHR ''|'' \<notin> set ''reboot''" "CHR ''&'' \<notin> set ''reboot''"
    "''resize2fs $(reboot)'' = ''resize2fs $('' @ ''reboot'' @ '')'' \<or> ''resize2fs $(reboot)'' = ''xfs_growfs '' @ CHR 0x0A # ''reboot''"
    by code_simp+
  show ?thesis unfolding expansion_guard_bypass [OF c] demo_helper_fields by simp
qed

theorem self_update_refused_witness:
  "stage_update demo_update
     (demo_helper id (demo_request ''apply_staged_update'' (JObject [])) (respond (Inl (apply_message StagedMismatch)))) True
     \<lparr>xs_guest = demo_machine, xs_audit = []\<rparr> =
   (Inl (ExecutorFailed ''staged binary sha256 mismatch''),
    \<lparr>xs_guest = demo_machine\<lparr>ma_staged := Some [7], ma_meta := Some (ud_print_meta demo_update demo_meta)\<rparr>, xs_audit = []\<rparr>)"
proof -
  let ?hv = "demo_helper id (demo_request ''apply_staged_update'' (JObject [])) (respond (Inl (apply_message StagedMismatch)))"
  let ?st = "\<lparr>xs_guest = demo_machine, xs_audit = []\<rparr>"
  have h: "\<not> eq_ignore_ascii_case (ud_sha256 demo_update [7]) (ud_sha256 demo_update [1, 2])" by code_simp
  have "stage_update demo_update ?hv True ?st = (Inl (ExecutorFailed ''staged binary sha256 mismatch''),
      ?st\<lparr>xs_guest := demo_machine\<lparr>ma_staged := Some [7], ma_meta := Some (ud_print_meta demo_update demo_meta)\<rparr>\<rparr>) \<and>
    ma_installed (demo_machine\<lparr>ma_staged := Some [7], ma_meta := Some (ud_print_meta demo_update demo_meta)\<rparr>) = ma_installed (xs_guest ?st)"
    by (rule self_update_refused [OF demo_check_update demo_update_fields(1) _ demo_update_fields(2, 3) demo_binary h])
      (simp_all only: demo_stage demo_helper_fields demo_update_fields demo_request_def demo_frames exec_state.simps)
  then show ?thesis by simp
qed

text \<open>A plan that the helper gives up after one vacuum of the journal is vacuumed for again by the agent.\<close>

definition demo_plan_helper :: "nat helper_env" where
  "demo_plan_helper =
     demo_helper Suc (demo_request ''execute_remediation_plan'' (JObject [(''plan_id'', JString ''p''), (''actions'', JNull)]))
       \<lparr>xo_ok = False, xo_result = Some (JObject []), xo_error = None\<rparr>"

theorem failed_plan_repeated_witness:
  "xs_guest (xs_guest (snd (execute_remediation_plan (agent_units demo_plan_helper) policy_default ''p'' demo_actions
     \<lparr>xs_guest = \<lparr>xs_guest = 0, xs_audit = []\<rparr>, xs_audit = []\<rparr>))) = (2 :: nat)"
proof -
  let ?req = "\<lparr>xq_action = ''execute_remediation_plan'', xq_params = plan_params demo_plan_helper ''p'' demo_actions\<rparr>"
  let ?st = "\<lparr>xs_guest = \<lparr>xs_guest = 0, xs_audit = []\<rparr>, xs_audit = []\<rparr> :: nat exec_state exec_state"
  let ?run = "run_actions (helper_units demo_plan_helper) (hl_policy demo_plan_helper) demo_actions (xs_guest ?st)"
  let ?resp = "\<lparr>xo_ok = False, xo_result = Some (JObject []), xo_error = None\<rparr>"
  have fields: "hl_socket demo_plan_helper" "hl_actions demo_plan_helper j = Some demo_actions"
    "hl_parse_request demo_plan_helper w = Some ?req" "frame_payload (hl_print_request demo_plan_helper q)"
    "hl_parse_response demo_plan_helper w = Some ?resp" "frame_payload (hl_print_response demo_plan_helper a)" for j w q a
    by (simp_all add: demo_plan_helper_def demo_helper_def demo_request_def plan_params_def)
  have run: "?run = (fst ?run, snd ?run)" by simp
  have failed: "\<not> list_all rr_success (fst ?run)" by code_simp
  have resp: "?resp = fst (helper_dispatch demo_plan_helper ?req (xs_guest ?st))" by code_simp
  have "xs_guest (xs_guest (snd (run_actions (agent_units demo_plan_helper) policy_default demo_actions (?st\<lparr>xs_guest := snd ?run\<rparr>)))) = 2"
    by code_simp
  then show ?thesis
    unfolding failed_plan_repeated [OF fields(1) refl run failed fields(2) fields(3, 4) resp fields(5, 6)] by (simp only: prod.case_eq_if snd_conv)
qed

end
