(* ===== verification/Spec2Isabelle.thy ===== *)
theory Spec2Isabelle
  imports Transport Ring Executor File_System Agent_Threads Waves Live_Rollback Fstab Agent_Push Guest_Actions File_Ops Exec_Helper
begin

text \<open>
  \<^bold>\<open>guestkit\<close> inspects and repairs virtual machines.  This library models seven of its parts, each
  as definitions that follow the Rust source function by function, and proves what makes them correct.
  Paths below are relative to \<^verbatim>\<open>src/\<close>.

  \<^bold>\<open>How the parts interact.\<close>  The host talks to the agent inside the guest over a framed channel; the
  agent parses each frame as a JSON-RPC request, asks the local policy, checks expiry, replay and
  idempotency, and dispatches to a handler.  Outside the guest, workers take job documents, validate
  them and drive each through a state machine to one result.  Image inspection reads a disk
  image as bytes, parses its partition table and recognises the filesystem of each partition.
  Repairs are fix plans: operations with dependencies, sorted and applied on the live machine.
  An API server in the cluster reaches guests through the QEMU guest agent, under a policy and with approvals.

  \<^bold>\<open>Shared vocabulary.\<close>  \<open>GK_Prelude\<close> has \<open>Result\<close> as a sum with the error on the left and \<open>?\<close> as
  \<open>rbind\<close>, bytes and endian conversions, streams, string operations and the last \<open>n\<close> elements of a list.
  \<open>Agent_Error\<close> has the protocol errors, their JSON-RPC codes and texts
  (\<^verbatim>\<open>crates/guestkit-agent-protocol/src/error.rs\<close>).

  \<^bold>\<open>Channel.\<close>  \<open>Frame\<close> models \<^verbatim>\<open>crates/guestkit-agent-protocol/src/frame.rs\<close>: length-prefixed and
  line framing over a stream that arrives in arbitrary pieces; its locale \<open>framed_codec\<close> says what a
  framing promises and derives that a sequence of messages survives, once for both framings.
  \<open>Transport\<close> models the read and write halves of \<^verbatim>\<open>src/agent/transport/mod.rs\<close> and proves the round
  trips, the bounds of what is accepted, and that a reader created per message loses pipelined input.

  \<^bold>\<open>Agent.\<close>  \<open>Rpc\<close> has the methods, wire names, aliases, messages and advertised capabilities
  (\<^verbatim>\<open>rpc.rs\<close>, \<^verbatim>\<open>capabilities.rs\<close>); \<open>Policy\<close> the policy and its authorization
  (\<^verbatim>\<open>src/agent/policy.rs\<close>); \<open>Remediation\<close> the privileged executor (\<^verbatim>\<open>src/agent/executor.rs\<close>);
  \<open>Replay\<close> the nonce window and the idempotency cache (\<^verbatim>\<open>src/agent/state.rs\<close>); \<open>Ring\<close> the telemetry
  ring buffer.  \<open>Bounded_Log\<close> is the contract the last two share: a log that keeps its newest entries.
  \<open>Cutover\<close> has the readiness tokens and the maintenance mode of a migration (\<^verbatim>\<open>src/migration/workflow.rs\<close>).
  \<open>Agent_Handler\<close> puts them together as \<open>handle_frame_on\<close> and \<open>handle_on\<close> (\<^verbatim>\<open>src/agent/handler.rs\<close>): no JSON-RPC
  request, also one inside a command of the QEMU guest agent (\<^verbatim>\<open>qga.rs\<close>), reaches the guest unless every check of the choke
  point and of the handler allows it, and what they allow is served; the other commands of the QEMU guest agent pass
  no policy.  \<open>Agent_Threads\<close> is the interleaving of requests on the daemon's channel threads: nonces stay
  single use under every schedule of as many threads as the window holds, idempotency keys do not.  \<open>File_Ops\<close>
  (\<^verbatim>\<open>src/agent/file_ops.rs\<close>) has the file operations on a tree with symbolic links and special files: reads stay under
  the allowed prefixes, a write does what it means to beside plain names, and a link written through a trailing slash
  leaks its target.  \<open>Update_Sign\<close> and \<open>Updater\<close>
  (\<^verbatim>\<open>update_sign.rs\<close>, \<^verbatim>\<open>updater.rs\<close>) stage signed updates; \<open>Exec_Helper\<close> (\<^verbatim>\<open>executor_ipc.rs\<close>) is the privileged helper, its
  connection and what goes through it: calls are transparent, staged updates are refused, failed plans run twice.

  \<^bold>\<open>Worker.\<close>  \<open>Job_Spec\<close> models the job documents, their validation and the builder
  (\<^verbatim>\<open>crates/guestkit-job-spec/src\<close>), \<open>Job_State\<close> the state machine with its history and
  \<open>Executor\<close> the execution of a job with handlers, timeout, idempotency, metrics and cleanup
  (\<^verbatim>\<open>crates/guestkit-worker/src/state.rs\<close>, \<^verbatim>\<open>executor.rs\<close>, \<^verbatim>\<open>result.rs\<close>).

  \<^bold>\<open>Disk images.\<close>  \<open>Disk_Reader\<close>, \<open>Partition_Table\<close> and \<open>File_System\<close> model \<^verbatim>\<open>src/disk/reader.rs\<close>,
  \<^verbatim>\<open>partition.rs\<close> and \<^verbatim>\<open>filesystem.rs\<close>: reading at an offset with short reads and failing calls, MBR and GPT parsing,
  and detection as a table of signatures read from the top.

  \<^bold>\<open>Repair plans.\<close>  \<open>Kahn\<close> is the contract of a queue-driven topological sort: a locale that says which nodes
  such a loop emits, in which order, and that it ends.  \<open>Topo_Sort\<close> (\<^verbatim>\<open>src/cli/plan/topo_sort.rs\<close>) and
  \<open>Waves\<close> (\<^verbatim>\<open>src/fleet/wave.rs\<close>, migration waves of a fleet) are its instances.  \<open>Plan_Types\<close> has the operations of
  a fix plan (\<^verbatim>\<open>types.rs\<close>) and \<open>Utf8\<close> the text functions they use; \<open>Live_Files\<close> and \<open>Live_Plan\<close> model the live executor
  (\<^verbatim>\<open>executor_live.rs\<close>) on a machine of files, links and directories, and \<open>Live_Rollback\<close> proves its account of a
  run and when automatic rollback restores a file.

  \<^bold>\<open>Guest configuration.\<close>  \<open>Device_Inventory\<close> (\<^verbatim>\<open>src/guestfs/device_inventory.rs\<close>) indexes block devices by their
  identifiers; \<open>Fstab\<close> (\<^verbatim>\<open>fstab.rs\<close>) rewrites fstab and crypttab with them.  \<open>Line_Rewrite\<close> is the contract of a
  line-by-line rewriter and gives idempotence for both; the refinement says that no mount changes its device.

  \<^bold>\<open>API server.\<close>  (\<^verbatim>\<open>crates/zyvor-api/src\<close>.)  \<open>Json\<close> has JSON values; \<open>Api_Auth\<close> the middleware every request passes and the
  roles (\<^verbatim>\<open>auth\<close>); \<open>Action_Policy\<close> the cluster's policy on guest actions (\<^verbatim>\<open>guest_action_policy.rs\<close>).  \<open>Qga\<close> is the client of
  the QEMU guest agent (\<^verbatim>\<open>kubevirt_qga.rs\<close>): its loops return, writing a file is complete or times out, and reading
  one loses the last chunk.  \<open>Guest_Transport\<close> has the ladder of transports, the probe of a guest and the contract
  published for it (\<^verbatim>\<open>guest_control\<close>), \<open>Agent_Push\<close> what agents report on their own (\<^verbatim>\<open>routes/guest_agent.rs\<close>),
  \<open>Guest_Routes\<close> the routes that act inside a guest, and \<open>Guest_Actions\<close> the approval workflow
  (\<^verbatim>\<open>guest_actions.rs\<close>): one decision at most when requests are served in turn, more when they overlap.

  \<^bold>\<open>Bounds.\<close>  Integers keep their width as words wherever the source's arithmetic can wrap: frame
  lengths (32 bits), sector numbers and offsets (64 bits), time-to-live (64 bits, read as signed where
  the code casts).  Release builds wrap, and so does the model.  No fuel is used: functions are total, except the
  queue loops of the sorts and the polling and transfer loops of the guest agent's client, which are partial functions
  proved to return.  Wall-clock sums are on unbounded integers.

  \<^bold>\<open>Parameters.\<close>  JSON, YAML, glob patterns, RFC 3339 time stamps and regular expressions are
  third-party code and appear as arguments; so do clocks, the guest an operation acts on, spawned
  commands, D-Bus and the privileged helper.  What a theorem relies on of them is a hypothesis in its
  statement.

  \<^bold>\<open>Not modelled.\<close>  The command line, terminal interface, report exporters, Python bindings and the
  remaining web routes print or serve what other parts compute; the guestfs layer, disk conversion, snapshot hooks
  and live collectors run external programs; the eBPF crates are kernel code; cloud storage and
  network transports are I/O.  Of the request handler the inspection methods, which only collect live
  data, are a parameter, and so are the commands of the QEMU guest agent.
\<close>

end
